(* ===== verification/Prelude.thy ===== *)
theory Prelude
  imports Main "HOL-Library.Multiset"
begin

text \<open>
  Prelude of the comin development: the Go notions every component uses and the generic lemmas
  about them.

  \<^item> Values: a nullable protobuf wrapper is an option (\<open>boolvalue\<close>, \<open>timestamp\<close>) read with Go's
    nil-tolerant getters (\<open>GetValue\<close>, \<open>AsTime\<close>); a Go \<open>int\<close> is an \<open>int\<close>, the conversion to
    \<open>int32\<close> wraps (\<open>to_int32\<close>).
  \<^item> Slices: \<open>find_first\<close> and \<open>upd_first\<close> are the "first element that satisfies" loop and the
    write through the pointer that loop returns; \<open>add_unique\<close> is the
    \<open>if !slices.ContainsFunc(...) { append }\<close> idiom.
  \<^item> \<open>SortFunc\<close> is \<open>slices.SortFunc\<close>. Its documented contract (a permutation that is sorted for
    the comparison) is the locale \<open>sort_contract\<close>, and every later lemma uses only that contract:
    Go does not promise the order of equal elements.
  \<^item> \<open>try_send\<close> is the non-blocking send \<open>select { case ch <- x: default: }\<close> on a buffered channel.
  \<^item> \<open>keyed_table\<close> is the interface of a list of objects that are looked up by their UUID, and
    \<open>invariant_of\<close> the interface between a goroutine's loop (its initial states and its step
    relation, whose runs are \<open>reachable\<close>) and a property all its states have.
\<close>

named_theorems go_simps \<open>rewriting rules for the Go idioms\<close>
named_theorems inv_intros \<open>preservation lemmas of the components' invariants\<close>

section \<open>Nullable values, time and integers\<close>

type_synonym uuid = string
type_synonym time = int
type_synonym timestamp = "time option"
type_synonym boolvalue = "bool option"

definition GetValue :: "boolvalue \<Rightarrow> bool" where
  "GetValue b = (case b of None \<Rightarrow> False | Some v \<Rightarrow> v)"

definition AsTime :: "timestamp \<Rightarrow> time" where
  "AsTime t = (case t of None \<Rightarrow> 0 | Some v \<Rightarrow> v)"

lemma GetValue_simps [simp]: "GetValue None = False" "GetValue (Some v) = v"
  by (simp_all add: GetValue_def)

lemma AsTime_simps [simp]: "AsTime None = 0" "AsTime (Some v) = v"
  by (simp_all add: AsTime_def)

text \<open>\<open>time.Time.Compare\<close>: -1, 0 or 1.\<close>

definition time_Compare :: "time \<Rightarrow> time \<Rightarrow> int" where
  "time_Compare a b = (if a < b then -1 else if a = b then 0 else 1)"

text \<open>Go's conversion \<open>int32(n)\<close> keeps the low 32 bits and reads them as two's complement.\<close>

definition to_int32 :: "int \<Rightarrow> int" where
  "to_int32 n = (n + 2 ^ 31) mod 2 ^ 32 - 2 ^ 31"

lemma to_int32_id: "- (2 ^ 31) \<le> n \<Longrightarrow> n < 2 ^ 31 \<Longrightarrow> to_int32 n = n"
  by (simp add: to_int32_def)

lemma to_int32_range: "- (2 ^ 31) \<le> to_int32 n" "to_int32 n < 2 ^ 31"
proof -
  have "0 \<le> (n + 2 ^ 31) mod 2 ^ 32" "(n + 2 ^ 31) mod 2 ^ 32 < (2::int) ^ 32"
    by (rule pos_mod_sign pos_mod_bound; simp)+
  then show "- (2 ^ 31) \<le> to_int32 n" "to_int32 n < 2 ^ 31"
    unfolding to_int32_def by simp_all
qed

section \<open>Slices\<close>

primrec find_first :: "('a \<Rightarrow> bool) \<Rightarrow> 'a list \<Rightarrow> 'a option" where
  "find_first P [] = None"
| "find_first P (x # xs) = (if P x then Some x else find_first P xs)"

primrec upd_first :: "('a \<Rightarrow> bool) \<Rightarrow> ('a \<Rightarrow> 'a) \<Rightarrow> 'a list \<Rightarrow> 'a list" where
  "upd_first P f [] = []"
| "upd_first P f (x # xs) = (if P x then f x # xs else x # upd_first P f xs)"

lemma find_first_Some:
  "find_first P xs = Some x \<Longrightarrow> x \<in> set xs \<and> P x"
  by (induction xs) (auto split: if_splits)

lemma find_first_None: "find_first P xs = None \<longleftrightarrow> (\<forall>x \<in> set xs. \<not> P x)"
  by (induction xs) auto

lemma find_first_ex: "x \<in> set xs \<Longrightarrow> P x \<Longrightarrow> \<exists>y. find_first P xs = Some y"
  using find_first_None [of P xs] by (cases "find_first P xs") auto

lemma find_first_eqI:
  assumes "x \<in> set xs" and "P x" and "\<And>y. y \<in> set xs \<Longrightarrow> P y \<Longrightarrow> y = x"
  shows "find_first P xs = Some x"
proof -
  obtain y where y: "find_first P xs = Some y"
    using assms(1,2) find_first_ex [of x xs P] by blast
  with find_first_Some [OF y] assms(3) show ?thesis by auto
qed

lemma find_first_hd: "find_first P xs = (case filter P xs of [] \<Rightarrow> None | y # _ \<Rightarrow> Some y)"
  by (induction xs) auto

lemma length_upd_first [simp]: "length (upd_first P f xs) = length xs"
  by (induction xs) auto

lemma map_upd_first: "(\<And>x. g (f x) = g x) \<Longrightarrow> map g (upd_first P f xs) = map g xs"
  by (induction xs) auto

lemma set_upd_first: "set (upd_first P f xs) \<subseteq> set xs \<union> f ` {x \<in> set xs. P x}"
  by (induction xs) auto

lemma upd_first_id: "find_first P xs = None \<Longrightarrow> upd_first P f xs = xs"
  by (induction xs) (auto split: if_splits)

lemma find_first_upd_first:
  "(\<And>x. P (f x) = P x) \<Longrightarrow> find_first P (upd_first P f xs) = map_option f (find_first P xs)"
  by (induction xs) auto

lemma find_first_upd_first_other:
  "(\<And>x. P x \<Longrightarrow> \<not> Q x) \<Longrightarrow> (\<And>x. Q (f x) = Q x) \<Longrightarrow>
     find_first Q (upd_first P f xs) = find_first Q xs"
  by (induction xs) auto

text \<open>The counting loop that stops after \<open>c\<close> elements; a negative bound takes none.\<close>

definition take_int :: "int \<Rightarrow> 'a list \<Rightarrow> 'a list" where
  "take_int c xs = take (nat c) xs"

lemma take_int_Cons [simp]:
  "take_int c (x # xs) = (if c \<le> 0 then [] else x # take_int (c - 1) xs)"
  by (simp add: take_int_def take_Cons' nat_diff_distrib)

lemma take_int_Nil [simp]: "take_int c [] = []"
  by (simp add: take_int_def)

lemma length_take_int: "length (take_int c xs) = min (nat c) (length xs)"
  by (simp add: take_int_def)

lemma set_take_int: "set (take_int c xs) \<subseteq> set xs"
  by (simp add: take_int_def set_take_subset)

text \<open>Append unless an element with the same key is already there.\<close>

definition add_unique :: "('a \<Rightarrow> 'k) \<Rightarrow> 'a list \<Rightarrow> 'a \<Rightarrow> 'a list" where
  "add_unique key xs x = (if \<exists>e \<in> set xs. key e = key x then xs else xs @ [x])"

lemma add_unique_set:
  "set xs \<subseteq> set (add_unique key xs x)" "set (add_unique key xs x) \<subseteq> insert x (set xs)"
  by (auto simp: add_unique_def)

lemma keys_add_unique: "key ` set (add_unique key xs x) = insert (key x) (key ` set xs)"
  by (auto simp: add_unique_def) (metis imageI)

lemma distinct_add_unique: "distinct (map key xs) \<Longrightarrow> distinct (map key (add_unique key xs x))"
  by (auto simp: add_unique_def)

definition add_uniques :: "('a \<Rightarrow> 'k) \<Rightarrow> 'a list \<Rightarrow> 'a list \<Rightarrow> 'a list" where
  "add_uniques key xs ys = foldl (add_unique key) xs ys"

lemma add_uniques_simps [simp]:
  "add_uniques key xs [] = xs"
  "add_uniques key xs (y # ys) = add_uniques key (add_unique key xs y) ys"
  by (simp_all add: add_uniques_def)

lemma add_uniques_append:
  "add_uniques key xs (ys @ zs) = add_uniques key (add_uniques key xs ys) zs"
  by (simp add: add_uniques_def)

lemma add_uniques_mono: "set xs \<subseteq> set (add_uniques key xs ys)"
  by (induction ys arbitrary: xs) (use add_unique_set(1) in fastforce)+

lemma add_uniques_upper: "set (add_uniques key xs ys) \<subseteq> set xs \<union> set ys"
  by (induction ys arbitrary: xs) (use add_unique_set(2) in fastforce)+

lemma keys_add_uniques: "key ` set (add_uniques key xs ys) = key ` set xs \<union> key ` set ys"
  by (induction ys arbitrary: xs) (auto simp: keys_add_unique)

lemma distinct_add_uniques:
  "distinct (map key xs) \<Longrightarrow> distinct (map key (add_uniques key xs ys))"
  by (induction ys arbitrary: xs) (auto simp: distinct_add_unique)

lemma length_add_uniques: "length (add_uniques key xs ys) \<le> length xs + length ys"
proof (induction ys arbitrary: xs)
  case (Cons y ys)
  have "length (add_unique key xs y) \<le> Suc (length xs)" by (simp add: add_unique_def)
  with Cons [of "add_unique key xs y"] show ?case by simp
qed simp

lemma add_uniques_distinct:
  "distinct (map key (xs @ ys)) \<Longrightarrow> add_uniques key xs ys = xs @ ys"
proof (induction ys arbitrary: xs)
  case (Cons y ys)
  then have "key y \<notin> key ` set xs" by simp
  then have "add_unique key xs y = xs @ [y]" unfolding add_unique_def by (metis imageI)
  with Cons show ?case by simp
qed simp

lemma add_uniques_member:
  assumes "inj_on key (set xs \<union> set ys)" and "y \<in> set xs \<union> set ys"
  shows "y \<in> set (add_uniques key xs ys)"
proof -
  have "key y \<in> key ` set (add_uniques key xs ys)"
    using assms(2) by (auto simp: keys_add_uniques)
  then obtain z where z: "z \<in> set (add_uniques key xs ys)" "key z = key y" by auto
  then have "z \<in> set xs \<union> set ys" using add_uniques_upper by fast
  with z assms have "z = y" by (auto dest: inj_onD)
  with z show ?thesis by simp
qed

lemma add_uniques_set:
  "inj_on key (set xs \<union> set ys) \<Longrightarrow> set (add_uniques key xs ys) = set xs \<union> set ys"
  using add_uniques_member add_uniques_upper by (metis subsetI subset_antisym)

section \<open>Sorting: the contract of slices.SortFunc\<close>

text \<open>A comparison function that Go's sort accepts: a strict weak ordering, read by its sign.\<close>

definition cmp_ok :: "('a \<Rightarrow> 'a \<Rightarrow> int) \<Rightarrow> bool" where
  "cmp_ok cmp \<longleftrightarrow> (\<forall>a b. (cmp a b < 0) = (cmp b a > 0)) \<and>
     (\<forall>a b c. cmp a b \<le> 0 \<longrightarrow> cmp b c \<le> 0 \<longrightarrow> cmp a c \<le> 0)"

lemma cmp_ok_flip: "cmp_ok cmp \<Longrightarrow> \<not> cmp a b < 0 \<Longrightarrow> cmp b a \<le> 0"
  unfolding cmp_ok_def by (meson not_le)

lemma cmp_ok_refl: "cmp_ok cmp \<Longrightarrow> cmp a a \<le> 0"
  using cmp_ok_flip [of cmp a a] by (cases "cmp a a < 0") simp_all

lemma cmp_ok_trans: "cmp_ok cmp \<Longrightarrow> cmp a b \<le> 0 \<Longrightarrow> cmp b c \<le> 0 \<Longrightarrow> cmp a c \<le> 0"
  unfolding cmp_ok_def by blast

locale sort_contract =
  fixes srt :: "('a \<Rightarrow> 'a \<Rightarrow> int) \<Rightarrow> 'a list \<Rightarrow> 'a list"
  assumes srt_mset: "mset (srt cmp xs) = mset xs"
    and srt_sorted: "cmp_ok cmp \<Longrightarrow> sorted_wrt (\<lambda>a b. cmp a b \<le> 0) (srt cmp xs)"
begin

lemma srt_set: "set (srt cmp xs) = set xs"
  using srt_mset by (metis set_mset_mset)

lemma srt_length: "length (srt cmp xs) = length xs"
  using srt_mset by (metis size_mset)

lemma srt_distinct_map: "distinct (map key (srt cmp xs)) = distinct (map key xs)"
proof -
  have "mset (map key (srt cmp xs)) = mset (map key xs)" by (simp add: srt_mset)
  then show ?thesis by (rule mset_eq_imp_distinct_iff)
qed

lemma srt_filter_length: "length (filter P (srt cmp xs)) = length (filter P xs)"
  by (metis mset_filter size_mset srt_mset)

lemma srt_find_first_least:
  assumes "cmp_ok cmp" and "find_first P (srt cmp xs) = Some x" and "y \<in> set xs" and "P y"
  shows "cmp x y \<le> 0"
proof -
  have least: "find_first P ys = Some x \<Longrightarrow> y \<in> set ys \<Longrightarrow>
      sorted_wrt (\<lambda>a b. cmp a b \<le> 0) ys \<Longrightarrow> cmp x y \<le> 0" for ys
  proof (induction ys)
    case (Cons z ys)
    from Cons assms(4) cmp_ok_refl [OF assms(1)] show ?case by (auto split: if_splits)
  qed simp
  show ?thesis
    by (rule least [OF assms(2)]) (use assms srt_set srt_sorted in auto)
qed

end

text \<open>
  The insertion sort of Go's \<open>slices\<close> package (the routine it runs on slices of up to 12
  elements): element after element is moved left while it compares smaller than its left
  neighbour. \<open>sift\<close> works on the reversed sorted prefix.
\<close>

primrec sift :: "('a \<Rightarrow> 'a \<Rightarrow> int) \<Rightarrow> 'a \<Rightarrow> 'a list \<Rightarrow> 'a list" where
  "sift cmp x [] = [x]"
| "sift cmp x (y # ys) = (if cmp x y < 0 then y # sift cmp x ys else x # y # ys)"

definition SortFunc :: "('a \<Rightarrow> 'a \<Rightarrow> int) \<Rightarrow> 'a list \<Rightarrow> 'a list" where
  "SortFunc cmp xs = rev (foldl (\<lambda>r x. sift cmp x r) [] xs)"

lemma mset_sift [simp]: "mset (sift cmp x ys) = add_mset x (mset ys)"
  by (induction ys) auto

lemma set_sift [simp]: "set (sift cmp x ys) = insert x (set ys)"
  by (induction ys) auto

lemma mset_foldl_sift: "mset (foldl (\<lambda>r x. sift cmp x r) r xs) = mset r + mset xs"
  by (induction xs arbitrary: r) auto

lemma sift_sorted:
  assumes "cmp_ok cmp" and "sorted_wrt (\<lambda>a b. cmp b a \<le> 0) ys"
  shows "sorted_wrt (\<lambda>a b. cmp b a \<le> 0) (sift cmp x ys)"
  using assms(2)
proof (induction ys)
  case (Cons y ys)
  show ?case
  proof (cases "cmp x y < 0")
    case True
    with Cons show ?thesis by auto
  next
    case False
    with assms(1) have "cmp y x \<le> 0" by (rule cmp_ok_flip)
    with False Cons.prems show ?thesis by (auto intro: cmp_ok_trans [OF assms(1)])
  qed
qed simp

lemma foldl_sift_sorted:
  assumes "cmp_ok cmp"
  shows "sorted_wrt (\<lambda>a b. cmp b a \<le> 0) r \<Longrightarrow>
    sorted_wrt (\<lambda>a b. cmp b a \<le> 0) (foldl (\<lambda>r x. sift cmp x r) r xs)"
  by (induction xs arbitrary: r) (auto intro: sift_sorted [OF assms])

interpretation gosort: sort_contract SortFunc
proof unfold_locales
  show "mset (SortFunc cmp xs) = mset xs" for cmp :: "'a \<Rightarrow> 'a \<Rightarrow> int" and xs
    by (simp add: SortFunc_def mset_foldl_sift)
  show "sorted_wrt (\<lambda>a b. cmp a b \<le> 0) (SortFunc cmp xs)"
    if "cmp_ok cmp" for cmp :: "'a \<Rightarrow> 'a \<Rightarrow> int" and xs
    using foldl_sift_sorted [OF that, of "[]" xs] by (simp add: SortFunc_def sorted_wrt_rev)
qed

section \<open>Buffered channels with a non-blocking send\<close>

definition try_send :: "nat \<Rightarrow> 'a \<Rightarrow> 'a list \<Rightarrow> 'a list" where
  "try_send cap x ch = (if length ch < cap then ch @ [x] else ch)"

lemma try_send_bound: "length ch \<le> cap \<Longrightarrow> length (try_send cap x ch) \<le> cap"
  by (simp add: try_send_def)

lemma try_send_nonempty: "0 < cap \<Longrightarrow> try_send cap x ch \<noteq> []"
  by (auto simp: try_send_def)

section \<open>Objects looked up by their UUID\<close>

text \<open>
  \<open>get\<close> is the lookup loop over the list and \<open>put\<close> the write through the pointer it returns.
  The clients (the operations of the store) rely on these laws only.
\<close>

locale keyed_table =
  fixes key :: "'a \<Rightarrow> uuid"
    and get :: "uuid \<Rightarrow> 'a list \<Rightarrow> 'a option"
    and put :: "uuid \<Rightarrow> ('a \<Rightarrow> 'a) \<Rightarrow> 'a list \<Rightarrow> 'a list"
  assumes get_find: "get u xs = find_first (\<lambda>x. key x = u) xs"
    and put_upd: "put u f xs = upd_first (\<lambda>x. key x = u) f xs"
begin

lemma get_key: "get u xs = Some x \<Longrightarrow> key x = u"
  using find_first_Some by (fastforce simp: get_find)

lemma get_member: "get u xs = Some x \<Longrightarrow> x \<in> set xs"
  using find_first_Some by (fastforce simp: get_find)

lemma get_None: "get u xs = None \<longleftrightarrow> u \<notin> key ` set xs"
  by (auto simp: get_find find_first_None)

lemma get_distinct: "distinct (map key xs) \<Longrightarrow> x \<in> set xs \<Longrightarrow> get (key x) xs = Some x"
  unfolding get_find by (rule find_first_eqI) (auto simp: distinct_map inj_on_def)

lemma put_keys: "(\<And>x. key (f x) = key x) \<Longrightarrow> map key (put u f xs) = map key xs"
  by (simp add: put_upd map_upd_first)

lemma get_put_same: "(\<And>x. key (f x) = key x) \<Longrightarrow> get u (put u f xs) = map_option f (get u xs)"
  by (simp add: get_find put_upd find_first_upd_first)

lemma get_put_other:
  "(\<And>x. key (f x) = key x) \<Longrightarrow> v \<noteq> u \<Longrightarrow> get v (put u f xs) = get v xs"
  unfolding get_find put_upd by (rule find_first_upd_first_other) auto

lemma put_set_other:
  "x \<in> set (put u f xs) \<Longrightarrow> x \<in> set xs \<or> (\<exists>y \<in> set xs. key y = u \<and> x = f y)"
  using set_upd_first [of "\<lambda>x. key x = u" f xs] by (auto simp: put_upd)

end

section \<open>Loops of goroutines as transition systems\<close>

inductive reachable :: "('s \<Rightarrow> bool) \<Rightarrow> ('s \<Rightarrow> 's \<Rightarrow> bool) \<Rightarrow> 's \<Rightarrow> bool"
  for init :: "'s \<Rightarrow> bool" and step :: "'s \<Rightarrow> 's \<Rightarrow> bool" where
  reachable_init: "init s \<Longrightarrow> reachable init step s"
| reachable_step: "reachable init step s \<Longrightarrow> step s t \<Longrightarrow> reachable init step t"

text \<open>
  The interface between a component's operations and its safety properties: the initial states
  satisfy the invariant and every step keeps it.
\<close>

locale invariant_of =
  fixes init :: "'s \<Rightarrow> bool" and step :: "'s \<Rightarrow> 's \<Rightarrow> bool" and inv :: "'s \<Rightarrow> bool"
  assumes inv_init: "init s \<Longrightarrow> inv s"
    and inv_step: "inv s \<Longrightarrow> step s t \<Longrightarrow> inv t"
begin

lemma reachable_inv: "reachable init step s \<Longrightarrow> inv s"
  by (induction rule: reachable.induct) (auto intro: inv_init inv_step)

lemma star_inv: "step\<^sup>*\<^sup>* s t \<Longrightarrow> inv s \<Longrightarrow> inv t"
  by (induction rule: rtranclp_induct) (auto intro: inv_step)

end

text \<open>
  Runs with the labels of their steps, latest first: the history of a run. A labelled system is
  the plain one when the labels are forgotten.
\<close>

inductive trace :: "('s \<Rightarrow> bool) \<Rightarrow> ('a \<Rightarrow> 's \<Rightarrow> 's \<Rightarrow> bool) \<Rightarrow> 'a list \<Rightarrow> 's \<Rightarrow> bool"
  for init :: "'s \<Rightarrow> bool" and act :: "'a \<Rightarrow> 's \<Rightarrow> 's \<Rightarrow> bool" where
  trace_init: "init s \<Longrightarrow> trace init act [] s"
| trace_act: "trace init act as s \<Longrightarrow> act a s t \<Longrightarrow> trace init act (a # as) t"

lemma reachable_trace: "reachable init (\<lambda>s t. \<exists>a. act a s t) s \<longleftrightarrow> (\<exists>as. trace init act as s)"
proof
  assume "reachable init (\<lambda>s t. \<exists>a. act a s t) s"
  then show "\<exists>as. trace init act as s" by induction (blast intro: trace_init trace_act)+
next
  assume "\<exists>as. trace init act as s"
  then obtain as where "trace init act as s" by blast
  then show "reachable init (\<lambda>s t. \<exists>a. act a s t) s"
    by induction (blast intro: reachable_init reachable_step)+
qed

text \<open>What the state owes to the history of its run.\<close>

locale history_of =
  fixes init :: "'s \<Rightarrow> bool" and act :: "'a \<Rightarrow> 's \<Rightarrow> 's \<Rightarrow> bool" and inv :: "'a list \<Rightarrow> 's \<Rightarrow> bool"
  assumes hist_init: "init s \<Longrightarrow> inv [] s"
    and hist_act: "inv as s \<Longrightarrow> act a s t \<Longrightarrow> inv (a # as) t"
begin

lemma trace_inv: "trace init act as s \<Longrightarrow> inv as s"
  by (induction rule: trace.induct) (auto intro: hist_init hist_act)

end

text \<open>
  Refinement: an abstraction function takes every step of the concrete system, in a state where the
  invariant holds, to a step of the abstract one or to no step at all. Every run then has an
  abstract run, and an invariant of the abstract system holds of the abstraction.
\<close>

locale simulation = invariant_of init step inv
  for init :: "'s \<Rightarrow> bool" and step :: "'s \<Rightarrow> 's \<Rightarrow> bool" and inv :: "'s \<Rightarrow> bool" +
  fixes abs :: "'s \<Rightarrow> 'b" and ainit :: "'b \<Rightarrow> bool" and astep :: "'b \<Rightarrow> 'b \<Rightarrow> bool"
  assumes sim_init: "init s \<Longrightarrow> ainit (abs s)"
    and sim_step: "inv s \<Longrightarrow> step s t \<Longrightarrow> abs t = abs s \<or> astep (abs s) (abs t)"
begin

lemma reachable_abs: "reachable init step s \<Longrightarrow> reachable ainit astep (abs s)"
proof (induction rule: reachable.induct)
  case (reachable_init s)
  then show ?case by (intro reachable.reachable_init sim_init)
next
  case (reachable_step s t)
  from sim_step [OF reachable_inv [OF reachable_step(1)] reachable_step(2)] reachable_step.IH
  show ?case by (auto intro: reachable.reachable_step)
qed

lemma abstract_inv:
  assumes "invariant_of ainit astep ainv" and "reachable init step s"
  shows "ainv (abs s)"
  using invariant_of.reachable_inv [OF assms(1) reachable_abs [OF assms(2)]] .

end

end
