(* ===== verification/Protobuf.thy ===== *)
theory Protobuf
  imports Prelude
begin

text \<open>
  The messages of \<open>pkg/protobuf/services.pb.go\<close> that the agent keeps, persists and publishes,
  and the helpers of \<open>pkg/protobuf/extend.go\<close>. A message is a record whose fields carry the Go
  field names behind a short prefix; a nil message or wrapper is \<open>None\<close>; the oneof of an event
  is the datatype \<open>event_type\<close>. An event carries the value its object has when it is published.
\<close>

section \<open>Git sources and generations\<close>

record Git =
  git_RepositorySubdir :: string
  git_SystemAttr :: string
  git_Hostname :: string
  git_SelectedRemoteUrl :: string
  git_SelectedRemoteName :: string
  git_SelectedBranchName :: string
  git_SelectedCommitId :: string
  git_SelectedCommitMsg :: string
  git_SelectedBranchIsTesting :: boolvalue
  git_MainCommitId :: string
  git_MainRemoteName :: string
  git_MainBranchName :: string

definition Git0 :: Git where
  "Git0 = \<lparr>git_RepositorySubdir = [], git_SystemAttr = [], git_Hostname = [],
     git_SelectedRemoteUrl = [], git_SelectedRemoteName = [], git_SelectedBranchName = [],
     git_SelectedCommitId = [], git_SelectedCommitMsg = [], git_SelectedBranchIsTesting = None,
     git_MainCommitId = [], git_MainRemoteName = [], git_MainBranchName = []\<rparr>"

text \<open>The oneof \<open>source\<close> of the message Source has the single alternative Git.\<close>

datatype Source = Source "Git option"

fun GetGit :: "Source option \<Rightarrow> Git option" where
  "GetGit (Some (Source g)) = g"
| "GetGit None = None"

text \<open>
  The fields after \<open>g_BuildErr\<close> are the deprecated ones older store files have; the migration
  of the store moves them into \<open>g_Source\<close>.
\<close>

record Generation =
  g_Uuid :: uuid
  g_Source :: "Source option"
  g_EvalStatus :: string
  g_EvalStartedAt :: timestamp
  g_EvalEndedAt :: timestamp
  g_EvalErr :: string
  g_OutPath :: string
  g_DrvPath :: string
  g_MachineId :: string
  g_BuildStatus :: string
  g_BuildReason :: string
  g_BuildStartedAt :: timestamp
  g_BuildEndedAt :: timestamp
  g_BuildErr :: string
  g_RepositoryPath :: string
  g_RepositorySubdir :: string
  g_SystemAttr :: string
  g_Hostname :: string
  g_SelectedRemoteUrl :: string
  g_SelectedRemoteName :: string
  g_SelectedBranchName :: string
  g_SelectedCommitId :: string
  g_SelectedCommitMsg :: string
  g_SelectedBranchIsTesting :: boolvalue
  g_MainCommitId :: string
  g_MainRemoteName :: string
  g_MainBranchName :: string

definition Generation0 :: Generation where
  "Generation0 = \<lparr>g_Uuid = [], g_Source = None, g_EvalStatus = [], g_EvalStartedAt = None,
     g_EvalEndedAt = None, g_EvalErr = [], g_OutPath = [], g_DrvPath = [], g_MachineId = [],
     g_BuildStatus = [], g_BuildReason = [], g_BuildStartedAt = None, g_BuildEndedAt = None,
     g_BuildErr = [], g_RepositoryPath = [], g_RepositorySubdir = [], g_SystemAttr = [],
     g_Hostname = [], g_SelectedRemoteUrl = [], g_SelectedRemoteName = [],
     g_SelectedBranchName = [], g_SelectedCommitId = [], g_SelectedCommitMsg = [],
     g_SelectedBranchIsTesting = None, g_MainCommitId = [], g_MainRemoteName = [],
     g_MainBranchName = []\<rparr>"

section \<open>Deployments and the persisted store\<close>

record Deployment =
  d_Uuid :: uuid
  d_Reason :: string
  d_Generation :: Generation
  d_StartedAt :: timestamp
  d_EndedAt :: timestamp
  d_ErrorMsg :: string
  d_RestartComin :: boolvalue
  d_ProfilePath :: string
  d_Status :: string
  d_OperationSubmitted :: string
  d_Operation :: string
  d_OperationReason :: string
  d_CreatedAt :: timestamp
  d_CurrentInhibitors :: "(string \<times> string) list"
  d_NewInhibitors :: "(string \<times> string) list"

definition Deployment0 :: Deployment where
  "Deployment0 = \<lparr>d_Uuid = [], d_Reason = [], d_Generation = Generation0, d_StartedAt = None,
     d_EndedAt = None, d_ErrorMsg = [], d_RestartComin = None, d_ProfilePath = [], d_Status = [],
     d_OperationSubmitted = [], d_Operation = [], d_OperationReason = [], d_CreatedAt = None,
     d_CurrentInhibitors = [], d_NewInhibitors = []\<rparr>"

record DeployerState =
  ds_IsSuspended :: bool
  ds_SuspendReason :: string

record PStore =
  ps_Deployments :: "Deployment list"
  ps_Generations :: "Generation list"
  ps_DeploymentSwitched :: uuid
  ps_DeploymentBooted :: uuid
  ps_DeploymentsBootEntry :: "uuid list"
  ps_DeploymentsSuccessful :: "uuid list"
  ps_DeploymentsAny :: "uuid list"
  ps_Deployer :: "DeployerState option"
  ps_DeploymentBootEntryCapacity :: int
  ps_DeploymentSuccessfulCapacity :: int
  ps_DeploymentAnyCapacity :: int

definition DeployerState0 :: DeployerState where
  "DeployerState0 = \<lparr>ds_IsSuspended = False, ds_SuspendReason = []\<rparr>"

definition PStore0 :: PStore where
  "PStore0 = \<lparr>ps_Deployments = [], ps_Generations = [], ps_DeploymentSwitched = [],
     ps_DeploymentBooted = [], ps_DeploymentsBootEntry = [], ps_DeploymentsSuccessful = [],
     ps_DeploymentsAny = [], ps_Deployer = None, ps_DeploymentBootEntryCapacity = 0,
     ps_DeploymentSuccessfulCapacity = 0, ps_DeploymentAnyCapacity = 0\<rparr>"

section \<open>Repository status\<close>

record Branch =
  br_Name :: string
  br_CommitId :: string
  br_CommitMsg :: string
  br_ErrorMsg :: string
  br_OnTopOf :: string

record Remote =
  rm_Name :: string
  rm_Url :: string
  rm_FetchErrorMsg :: string
  rm_Main :: Branch
  rm_Testing :: Branch
  rm_FetchedAt :: timestamp
  rm_Fetched :: boolvalue

record GitRepositoryStatus =
  rs_SelectedCommitId :: string
  rs_SelectedCommitMsg :: string
  rs_SelectedRemoteName :: string
  rs_SelectedBranchName :: string
  rs_SelectedBranchIsTesting :: boolvalue
  rs_SelectedCommitSigned :: boolvalue
  rs_SelectedCommitSignedBy :: string
  rs_SelectedCommitShouldBeSigned :: boolvalue
  rs_MainCommitId :: string
  rs_MainRemoteName :: string
  rs_MainBranchName :: string
  rs_Remotes :: "Remote list"
  rs_ErrorMsg :: string

definition Branch0 :: Branch where
  "Branch0 = \<lparr>br_Name = [], br_CommitId = [], br_CommitMsg = [], br_ErrorMsg = [],
     br_OnTopOf = []\<rparr>"

definition Remote0 :: Remote where
  "Remote0 = \<lparr>rm_Name = [], rm_Url = [], rm_FetchErrorMsg = [], rm_Main = Branch0,
     rm_Testing = Branch0, rm_FetchedAt = None, rm_Fetched = None\<rparr>"

definition GitRepositoryStatus0 :: GitRepositoryStatus where
  "GitRepositoryStatus0 = \<lparr>rs_SelectedCommitId = [], rs_SelectedCommitMsg = [],
     rs_SelectedRemoteName = [], rs_SelectedBranchName = [], rs_SelectedBranchIsTesting = None,
     rs_SelectedCommitSigned = None, rs_SelectedCommitSignedBy = [],
     rs_SelectedCommitShouldBeSigned = None, rs_MainCommitId = [], rs_MainRemoteName = [],
     rs_MainBranchName = [], rs_Remotes = [], rs_ErrorMsg = []\<rparr>"

section \<open>The state of the agent as it is sent to clients\<close>

record pbConfirmer =
  cf_Mode :: int
  cf_Submitted :: uuid
  cf_Confirmed :: uuid
  cf_AutoconfirmDuration :: int
  cf_AutoconfirmStartedAt :: timestamp
  cf_AutoconfirmStarted :: boolvalue

record pbFetcher =
  pf_IsFetching :: boolvalue
  pf_GitRepositoryStatus :: "GitRepositoryStatus option"

record pbBuilder =
  pbb_IsEvaluating :: boolvalue
  pbb_IsBuilding :: boolvalue
  pbb_Generation :: "Generation option"
  pbb_GenerationUuid :: uuid
  pbb_IsSuspended :: boolvalue
  pbb_Hostname :: string
  pbb_RepositoryPath :: string

record pbDeployer =
  pd_IsDeploying :: boolvalue
  pd_Deployment :: "Deployment option"
  pd_GenerationToDeploy :: "Generation option"
  pd_Operation :: string
  pd_PreviousDeployment :: "Deployment option"
  pd_IsSuspended :: boolvalue

record pbState =
  sm_NeedToReboot :: boolvalue
  sm_IsSuspended :: boolvalue
  sm_Builder :: "pbBuilder option"
  sm_Deployer :: "pbDeployer option"
  sm_Fetcher :: "pbFetcher option"
  sm_Store :: "PStore option"
  sm_BuildConfirmer :: "pbConfirmer option"
  sm_DeployConfirmer :: "pbConfirmer option"

section \<open>Events\<close>

datatype log_type = Log_Open | Log_Close | Log_Line string string

datatype event_type =
    Event_EvalStarted Generation
  | Event_EvalFinished Generation
  | Event_BuildStarted Generation
  | Event_BuildFinished Generation
  | Event_ConfirmationSubmitted string uuid
  | Event_ConfirmationCancelled uuid
  | Event_ConfirmationConfirmed string uuid
  | Event_Resume
  | Event_Suspend
  | Event_DeploymentStarted Deployment
  | Event_DeploymentFinished Deployment
  | Event_RebootRequired Deployment
  | Event_ManagerState pbState
  | Event_Fetched bool bool "GitRepositoryStatus option"
  | Event_Log string uuid log_type

record Event =
  ev_Type :: "event_type option"
  ev_CreatedAt :: timestamp

definition mk_event :: "event_type \<Rightarrow> time \<Rightarrow> Event" where
  "mk_event t now = \<lparr>ev_Type = Some t, ev_CreatedAt = Some now\<rparr>"

section \<open>Helpers of extend.go\<close>

text \<open>
  \<open>None\<close> is the nil Git of a source without one; reading a field of it panics, which is
  \<open>None\<close> in \<open>Event_Short\<close>.
\<close>

definition getGitFromGeneration :: "Generation option \<Rightarrow> Git option" where
  "getGitFromGeneration g =
     (case g of
        None \<Rightarrow> Some Git0
      | Some g' \<Rightarrow> if g_Source g' \<noteq> None then GetGit (g_Source g') else Some Git0)"

definition short_ref :: "Generation \<Rightarrow> Git \<Rightarrow> string" where
  "short_ref g git = ''gen-uuid='' @ g_Uuid g @ '' ref-id='' @ git_SelectedRemoteName git @ ''/'' @
     git_SelectedBranchName git @ ''/'' @ git_SelectedCommitId git"

definition short_generation :: "Generation \<Rightarrow> string \<Rightarrow> string option" where
  "short_generation g suffix =
     map_option (\<lambda>git. short_ref g git @ suffix) (getGitFromGeneration (Some g))"

fun short_log :: "log_type \<Rightarrow> string" where
  "short_log Log_Open = ''open''"
| "short_log Log_Close = ''close''"
| "short_log (Log_Line src msg) = ''src='' @ src @ '' msg='' @ msg"

fun short_parts :: "event_type option \<Rightarrow> (string \<times> string option)" where
  "short_parts (Some (Event_EvalStarted g)) = (''eval-started   '', short_generation g [])"
| "short_parts (Some (Event_EvalFinished g)) =
     (''eval-finished  '', short_generation g ('' status='' @ g_EvalStatus g))"
| "short_parts (Some (Event_BuildStarted g)) = (''build-started  '', short_generation g [])"
| "short_parts (Some (Event_BuildFinished g)) =
     (''build-finished '', short_generation g ('' status='' @ g_BuildStatus g))"
| "short_parts (Some (Event_ConfirmationSubmitted _ _)) = (''cf-submitted   '', Some [])"
| "short_parts (Some (Event_ConfirmationCancelled _)) = (''cf-cancelled   '', Some [])"
| "short_parts (Some (Event_ConfirmationConfirmed _ _)) = (''cf-confirmed   '', Some [])"
| "short_parts (Some Event_Resume) = (''resume         '', Some [])"
| "short_parts (Some Event_Suspend) = (''suspend        '', Some [])"
| "short_parts (Some (Event_DeploymentStarted d)) =
     (''dpl-started    '', short_generation (d_Generation d) ('' op='' @ d_Operation d))"
| "short_parts (Some (Event_DeploymentFinished d)) =
     (''dpl-finished   '', short_generation (d_Generation d)
        ('' op='' @ d_Operation d @ '' status='' @ d_Status d))"
| "short_parts (Some (Event_RebootRequired _)) = (''reboot-required'', Some [])"
| "short_parts (Some (Event_ManagerState _)) = (''manager-state  '', Some [])"
| "short_parts (Some (Event_Fetched _ _ _)) = (''fetched        '', Some [])"
| "short_parts (Some (Event_Log _ _ l)) = (''log            '', Some (short_log l))"
| "short_parts None = (''unknown'', Some [])"

definition Event_Short :: "Event \<Rightarrow> string option" where
  "Event_Short e = (case short_parts (ev_Type e) of
     (eventType, payload) \<Rightarrow> map_option (\<lambda>p. eventType @ '' '' @ p) payload)"

lemma short_tag_width:
  "ev_Type e \<noteq> None \<Longrightarrow> length (fst (short_parts (ev_Type e))) = 15"
  by (cases "ev_Type e" rule: short_parts.cases) simp_all

lemma short_generation_panic:
  "short_generation g s = None \<longleftrightarrow> g_Source g = Some (Source None)"
proof -
  have "GetGit (g_Source g) = None \<longleftrightarrow> g_Source g \<in> {None, Some (Source None)}"
    by (cases "g_Source g" rule: GetGit.cases) auto
  then show ?thesis
    by (auto simp: short_generation_def getGitFromGeneration_def)
qed

end
