(* ===== verification/Store_Base.thy ===== *)
theory Store_Base
  imports Protobuf
begin

text \<open>
  The store of \<open>internal/store\<close>: its state, its constructor and the operations on generations
  (\<open>store.go\<close>, \<open>generation.go\<close>).

  The record \<open>store\<close> holds the persisted message, the pointers to the last evaluated and built
  generations, the content of the state file, the target of the GC root symbolic link and the list of
  the events published so far. Pointers into the lists of generations and deployments are UUIDs:
  every object is created with a UUID of its own and found again by it.

  What the operations read from outside is the record \<open>env\<close>, one per call: the successive values
  of \<open>time.Now\<close> and \<open>uuid.New\<close>, the JSON codec of the protobuf library, the outcomes of the file
  operations, the targets of \<open>/run/booted-system\<close> and \<open>/run/current-system\<close>, and the
  switch inhibitor files. Every operation locks the mutex of the store for its whole body, so
  one operation is one atomic step.
\<close>

section \<open>The outside world\<close>

datatype file_content = Missing | Unreadable | BadJson | JsonMap "(string \<times> string) list"

record env =
  clk :: "nat \<Rightarrow> time"
  newUuid :: "nat \<Rightarrow> uuid"
  Marshal :: "PStore \<Rightarrow> string option"
  Unmarshal :: "string \<Rightarrow> PStore option"
  MkdirOk :: bool
  WriteFileOk :: bool
  ReadFileErr :: "string option"
  RemoveOk :: bool
  SymlinkOk :: bool
  BootedLink :: "string option"
  CurrentLink :: "string option"
  SwitchInhibitors :: "string \<Rightarrow> file_content"

text \<open>\<open>utils.GetBootedAndCurrentStorepaths\<close>: an unreadable link leaves the empty string, and a
  failure on the first one skips the second.\<close>

definition GetBootedAndCurrentStorepaths :: "env \<Rightarrow> string \<times> string" where
  "GetBootedAndCurrentStorepaths E =
     (case BootedLink E of
        None \<Rightarrow> ([], [])
      | Some booted \<Rightarrow>
          (case CurrentLink E of None \<Rightarrow> (booted, []) | Some current \<Rightarrow> (booted, current)))"

section \<open>Status strings\<close>

datatype EvalStatus = EvalInit | Evaluating | Evaluated | EvalFailed

fun EvalStatus_String :: "EvalStatus \<Rightarrow> string" where
  "EvalStatus_String EvalInit = ''initialized''"
| "EvalStatus_String Evaluating = ''evaluating''"
| "EvalStatus_String Evaluated = ''evaluated''"
| "EvalStatus_String EvalFailed = ''failed''"

definition StringToEvalStatus :: "string \<Rightarrow> EvalStatus" where
  "StringToEvalStatus s =
     (if s = ''initialized'' then EvalInit
      else if s = ''evaluating'' then Evaluating
      else if s = ''evaluated'' then Evaluated
      else if s = ''failed'' then EvalFailed
      else EvalInit)"

datatype BuildStatus = BuildInit | Building | Built | BuildFailed

fun BuildStatus_String :: "BuildStatus \<Rightarrow> string" where
  "BuildStatus_String BuildInit = ''initialized''"
| "BuildStatus_String Building = ''building''"
| "BuildStatus_String Built = ''built''"
| "BuildStatus_String BuildFailed = ''failed''"

definition StringToBuildStatus :: "string \<Rightarrow> BuildStatus" where
  "StringToBuildStatus s =
     (if s = ''initialized'' then BuildInit
      else if s = ''building'' then Building
      else if s = ''built'' then Built
      else if s = ''failed'' then BuildFailed
      else BuildInit)"

datatype Status = Init | Running | Done | Failed

fun StatusToString :: "Status \<Rightarrow> string" where
  "StatusToString Init = ''init''"
| "StatusToString Running = ''running''"
| "StatusToString Done = ''done''"
| "StatusToString Failed = ''failed''"

definition StringToStatus :: "string \<Rightarrow> Status" where
  "StringToStatus s =
     (if s = ''init'' then Init
      else if s = ''running'' then Running
      else if s = ''done'' then Done
      else if s = ''failed'' then Failed
      else Init)"

section \<open>The store\<close>

record store =
  st_persisted :: PStore
  st_file :: "string option"
  st_gcRoot :: "string option"
  st_bootEntryCapacity :: int
  st_successfulCapacity :: int
  st_anyCapacity :: int
  st_lastEvalStarted :: "uuid option"
  st_lastEvalFinished :: "uuid option"
  st_lastBuildStarted :: "uuid option"
  st_lastBuildFinished :: "uuid option"
  st_events :: "Event list"

datatype store_error =
    CapacityTooSmall string
  | MkdirFailed
  | NoGeneration uuid
  | NoDeployment uuid
  | ReadFailed string
  | UnmarshalFailed

abbreviation st_Generations :: "store \<Rightarrow> Generation list" where
  "st_Generations s \<equiv> ps_Generations (st_persisted s)"

abbreviation st_Deployments :: "store \<Rightarrow> Deployment list" where
  "st_Deployments s \<equiv> ps_Deployments (st_persisted s)"

text \<open>The capacities are checked as Go ints and stored as int32.\<close>

definition store_New ::
  "env \<Rightarrow> string option \<Rightarrow> string option \<Rightarrow> int \<Rightarrow> int \<Rightarrow> int \<Rightarrow> store_error + store" where
  "store_New E file gcRoot bootEntryCapacity successfulCapacity anyCapacity =
     (if bootEntryCapacity < 1 then Inl (CapacityTooSmall ''bootEntryCapacity'')
      else if successfulCapacity < 1 then Inl (CapacityTooSmall ''successfulCapacity'')
      else if anyCapacity < 1 then Inl (CapacityTooSmall ''anyCapacity'')
      else if \<not> MkdirOk E then Inl MkdirFailed
      else Inr \<lparr>st_persisted = PStore0\<lparr>ps_Deployer := Some DeployerState0,
                   ps_DeploymentBootEntryCapacity := to_int32 bootEntryCapacity,
                   ps_DeploymentSuccessfulCapacity := to_int32 successfulCapacity,
                   ps_DeploymentAnyCapacity := to_int32 anyCapacity\<rparr>,
                 st_file = file, st_gcRoot = gcRoot,
                 st_bootEntryCapacity = bootEntryCapacity,
                 st_successfulCapacity = successfulCapacity,
                 st_anyCapacity = anyCapacity,
                 st_lastEvalStarted = None, st_lastEvalFinished = None,
                 st_lastBuildStarted = None, st_lastBuildFinished = None, st_events = []\<rparr>)"

text \<open>\<open>broker.Publish\<close>: the events in the order they are handed to the broker.\<close>

definition publish :: "event_type \<Rightarrow> time \<Rightarrow> store \<Rightarrow> store" where
  "publish t now s = s\<lparr>st_events := st_events s @ [mk_event t now]\<rparr>"

definition upd_generations :: "(Generation list \<Rightarrow> Generation list) \<Rightarrow> store \<Rightarrow> store" where
  "upd_generations f s =
     s\<lparr>st_persisted := (st_persisted s)\<lparr>ps_Generations := f (st_Generations s)\<rparr>\<rparr>"

text \<open>A marshalling or writing error is logged and leaves the file as it is.\<close>

definition Commit :: "env \<Rightarrow> store \<Rightarrow> store" where
  "Commit E s =
     (case Marshal E (st_persisted s) of
        None \<Rightarrow> s
      | Some buf \<Rightarrow> if WriteFileOk E then s\<lparr>st_file := Some buf\<rparr> else s)"

definition DeployerUpdate :: "env \<Rightarrow> DeployerState \<Rightarrow> store \<Rightarrow> store" where
  "DeployerUpdate E state s =
     Commit E (s\<lparr>st_persisted := (st_persisted s)\<lparr>ps_Deployer := Some state\<rparr>\<rparr>)"

section \<open>Generations\<close>

definition selected_remote_url :: "GitRepositoryStatus \<Rightarrow> string" where
  "selected_remote_url rs =
     (case find_first (\<lambda>r. rm_Name r = rs_SelectedRemoteName rs) (rs_Remotes rs) of
        None \<Rightarrow> [] | Some r \<Rightarrow> rm_Url r)"

definition NewGeneration ::
  "env \<Rightarrow> string \<Rightarrow> string \<Rightarrow> string \<Rightarrow> GitRepositoryStatus \<Rightarrow> store \<Rightarrow> Generation \<times> store" where
  "NewGeneration E hostname repositoryDir systemAttr rs s =
     (let g = Generation0\<lparr>g_Uuid := newUuid E 0,
            g_Source := Some (Source (Some
              \<lparr>git_RepositorySubdir = repositoryDir,
               git_SystemAttr = systemAttr,
               git_Hostname = hostname,
               git_SelectedRemoteUrl = selected_remote_url rs,
               git_SelectedRemoteName = rs_SelectedRemoteName rs,
               git_SelectedBranchName = rs_SelectedBranchName rs,
               git_SelectedCommitId = rs_SelectedCommitId rs,
               git_SelectedCommitMsg = rs_SelectedCommitMsg rs,
               git_SelectedBranchIsTesting = rs_SelectedBranchIsTesting rs,
               git_MainCommitId = rs_MainCommitId rs,
               git_MainRemoteName = rs_MainRemoteName rs,
               git_MainBranchName = rs_MainBranchName rs\<rparr>)),
            g_EvalStatus := EvalStatus_String EvalInit,
            g_BuildStatus := BuildStatus_String BuildInit\<rparr>
      in (g, upd_generations (\<lambda>gs. gs @ [g]) s))"

definition generationGet :: "uuid \<Rightarrow> Generation list \<Rightarrow> Generation option" where
  "generationGet u gs = find_first (\<lambda>g. g_Uuid g = u) gs"

definition generationPut :: "uuid \<Rightarrow> (Generation \<Rightarrow> Generation) \<Rightarrow> Generation list \<Rightarrow> Generation list" where
  "generationPut u f gs = upd_first (\<lambda>g. g_Uuid g = u) f gs"

definition GenerationGet :: "uuid \<Rightarrow> store \<Rightarrow> store_error + Generation" where
  "GenerationGet u s =
     (case generationGet u (st_Generations s) of None \<Rightarrow> Inl (NoGeneration u) | Some g \<Rightarrow> Inr g)"

definition is_last :: "store \<Rightarrow> Generation \<Rightarrow> bool" where
  "is_last s g \<longleftrightarrow> Some (g_Uuid g) = st_lastEvalStarted s \<or> Some (g_Uuid g) = st_lastEvalFinished s \<or>
     Some (g_Uuid g) = st_lastBuildStarted s \<or> Some (g_Uuid g) = st_lastBuildFinished s"

definition generationsGC :: "store \<Rightarrow> store" where
  "generationsGC s = upd_generations (filter (is_last s)) s"

text \<open>
  The shape the four state-changing operations share: find the generation, write it through the
  pointer, record it as the last one of its kind, collect the others and publish the result.
\<close>

definition change_generation ::
  "(Generation \<Rightarrow> Generation) \<Rightarrow> (store \<Rightarrow> store) \<Rightarrow> (Generation \<Rightarrow> event_type) \<Rightarrow> time \<Rightarrow> uuid \<Rightarrow>
     store \<Rightarrow> store_error + store" where
  "change_generation f record_last ev now u s =
     (case generationGet u (st_Generations s) of
        None \<Rightarrow> Inl (NoGeneration u)
      | Some g \<Rightarrow> Inr (publish (ev (f g)) now
                    (generationsGC (record_last (upd_generations (generationPut u f) s)))))"

definition GenerationEvalStarted :: "env \<Rightarrow> uuid \<Rightarrow> store \<Rightarrow> store_error + store" where
  "GenerationEvalStarted E u s =
     change_generation
       (\<lambda>g. g\<lparr>g_EvalStartedAt := Some (clk E 0), g_EvalStatus := EvalStatus_String Evaluating\<rparr>)
       (\<lambda>s. s\<lparr>st_lastEvalStarted := Some u\<rparr>) Event_EvalStarted (clk E 1) u s"

definition eval_finished ::
  "env \<Rightarrow> string \<Rightarrow> string \<Rightarrow> string \<Rightarrow> string option \<Rightarrow> Generation \<Rightarrow> Generation" where
  "eval_finished E drvPath outPath machineId evalErr g =
     (case evalErr of
        Some e \<Rightarrow> g\<lparr>g_EvalErr := e, g_EvalStatus := EvalStatus_String EvalFailed\<rparr>
      | None \<Rightarrow> g\<lparr>g_EvalStatus := EvalStatus_String Evaluated\<rparr>)
     \<lparr>g_DrvPath := drvPath, g_OutPath := outPath, g_MachineId := machineId,
      g_EvalEndedAt := Some (clk E 0)\<rparr>"

definition GenerationEvalFinished ::
  "env \<Rightarrow> uuid \<Rightarrow> string \<Rightarrow> string \<Rightarrow> string \<Rightarrow> string option \<Rightarrow> store \<Rightarrow> store_error + store" where
  "GenerationEvalFinished E u drvPath outPath machineId evalErr s =
     change_generation (eval_finished E drvPath outPath machineId evalErr)
       (\<lambda>s. s\<lparr>st_lastEvalFinished := Some u\<rparr>) Event_EvalFinished (clk E 1) u s"

definition GenerationBuildStart :: "env \<Rightarrow> uuid \<Rightarrow> string \<Rightarrow> store \<Rightarrow> store_error + store" where
  "GenerationBuildStart E u reason s =
     change_generation
       (\<lambda>g. g\<lparr>g_BuildStartedAt := Some (clk E 0), g_BuildStatus := BuildStatus_String Building,
              g_BuildReason := reason\<rparr>)
       (\<lambda>s. s\<lparr>st_lastBuildStarted := Some u\<rparr>) Event_BuildStarted (clk E 1) u s"

text \<open>
  The GC root of the last built generation: an existing link is removed first; the link is only
  created when none is left.
\<close>

definition link_gcroot :: "env \<Rightarrow> string \<Rightarrow> store \<Rightarrow> store" where
  "link_gcroot E outPath s =
     (let old = (if st_gcRoot s \<noteq> None \<and> RemoveOk E then None else st_gcRoot s)
      in s\<lparr>st_gcRoot := (if old = None \<and> SymlinkOk E then Some outPath else old)\<rparr>)"

definition build_finished :: "env \<Rightarrow> string option \<Rightarrow> Generation \<Rightarrow> Generation" where
  "build_finished E buildErr g =
     (case buildErr of
        None \<Rightarrow> g\<lparr>g_BuildEndedAt := Some (clk E 0), g_BuildErr := [],
                  g_BuildStatus := BuildStatus_String Built\<rparr>
      | Some e \<Rightarrow> g\<lparr>g_BuildEndedAt := Some (clk E 0),
                    g_BuildStatus := BuildStatus_String BuildFailed, g_BuildErr := e\<rparr>)"

definition GenerationBuildFinished ::
  "env \<Rightarrow> uuid \<Rightarrow> string option \<Rightarrow> store \<Rightarrow> store_error + store" where
  "GenerationBuildFinished E u buildErr s =
     (case generationGet u (st_Generations s) of
        None \<Rightarrow> Inl (NoGeneration u)
      | Some g \<Rightarrow>
          change_generation (build_finished E buildErr)
            (\<lambda>s. s\<lparr>st_lastBuildFinished := Some u\<rparr>) Event_BuildFinished (clk E 1) u
            (if buildErr = None then link_gcroot E (g_OutPath g) s else s))"

definition GenerationHasToBeBuilt :: "Generation \<Rightarrow> bool" where
  "GenerationHasToBeBuilt g \<longleftrightarrow> g_EvalStatus g = EvalStatus_String Evaluated \<and>
     g_BuildStatus g \<noteq> BuildStatus_String Built"

interpretation gen_table: keyed_table g_Uuid generationGet generationPut
  by unfold_locales (simp_all add: generationGet_def generationPut_def)

section \<open>Invariant of the generations\<close>

definition last_uuids :: "store \<Rightarrow> uuid set" where
  "last_uuids s = set_option (st_lastEvalStarted s) \<union> set_option (st_lastEvalFinished s) \<union>
     set_option (st_lastBuildStarted s) \<union> set_option (st_lastBuildFinished s)"

text \<open>UUIDs are unique and the four "last" pointers point into the list.\<close>

definition generations_inv :: "store \<Rightarrow> bool" where
  "generations_inv s \<longleftrightarrow> distinct (map g_Uuid (st_Generations s)) \<and>
     last_uuids s \<subseteq> g_Uuid ` set (st_Generations s)"

lemma is_last_iff: "is_last s g \<longleftrightarrow> g_Uuid g \<in> last_uuids s"
  by (cases "st_lastEvalStarted s"; cases "st_lastEvalFinished s"; cases "st_lastBuildStarted s";
      cases "st_lastBuildFinished s") (auto simp: is_last_def last_uuids_def)

lemma card_last_uuids: "finite (last_uuids s)" "card (last_uuids s) \<le> 4"
proof -
  have opt: "finite (set_option x)" "card (set_option x) \<le> 1" for x :: "uuid option"
    by (cases x; simp)+
  have un: "card (A \<union> B) \<le> n + 1" if "card A \<le> n" "card B \<le> 1" for A B :: "uuid set" and n
    using card_Un_le [of A B] that by linarith
  show "finite (last_uuids s)" by (simp add: last_uuids_def opt)
  have "card (last_uuids s) \<le> 1 + 1 + 1 + 1"
    unfolding last_uuids_def by (intro un opt)
  then show "card (last_uuids s) \<le> 4" by simp
qed

lemma store_frames [simp]:
  "st_Generations (publish t now s) = st_Generations s"
  "st_Deployments (publish t now s) = st_Deployments s"
  "last_uuids (publish t now s) = last_uuids s"
  "st_Generations (upd_generations f s) = f (st_Generations s)"
  "st_Deployments (upd_generations f s) = st_Deployments s"
  "last_uuids (upd_generations f s) = last_uuids s"
  "st_Generations (Commit E s) = st_Generations s"
  "st_Deployments (Commit E s) = st_Deployments s"
  "st_persisted (Commit E s) = st_persisted s"
  "last_uuids (Commit E s) = last_uuids s"
  "st_Generations (link_gcroot E p s) = st_Generations s"
  "st_Deployments (link_gcroot E p s) = st_Deployments s"
  "st_persisted (link_gcroot E p s) = st_persisted s"
  "st_file (link_gcroot E p s) = st_file s"
  "last_uuids (link_gcroot E p s) = last_uuids s"
  "last_uuids (s\<lparr>st_persisted := q\<rparr>) = last_uuids s"
  "st_file (publish t now s) = st_file s"
  "st_persisted (publish t now s) = st_persisted s"
  by (auto simp: publish_def upd_generations_def Commit_def link_gcroot_def last_uuids_def Let_def
      split: option.split)

lemma generationsGC_Generations [simp]:
  "st_Generations (generationsGC s) = filter (\<lambda>g. g_Uuid g \<in> last_uuids s) (st_Generations s)"
  "st_Deployments (generationsGC s) = st_Deployments s"
  "last_uuids (generationsGC s) = last_uuids s"
  by (simp_all add: generationsGC_def is_last_iff cong: filter_cong)

lemma generationsGC_inv: "generations_inv s \<Longrightarrow> generations_inv (generationsGC s)"
  by (auto simp: generations_inv_def distinct_map_filter)

lemma generationsGC_bound:
  assumes "distinct (map g_Uuid (st_Generations s))"
  shows "length (st_Generations (generationsGC s)) \<le> 4"
proof -
  let ?gs = "st_Generations (generationsGC s)"
  have "distinct (map g_Uuid ?gs)" using assms by (simp add: distinct_map_filter)
  then have "length ?gs = card (g_Uuid ` set ?gs)" by (metis distinct_card length_map set_map)
  also have "\<dots> \<le> card (last_uuids s)"
    by (rule card_mono) (auto simp: card_last_uuids)
  finally show ?thesis using card_last_uuids(2) [of s] by linarith
qed

section \<open>The contract of the operations on a generation\<close>

text \<open>
  What an operation of the shape \<open>change_generation\<close> promises to the builder and the manager, from
  what its parts do: the write keeps the UUID, and only the operation's own "last" pointer moves,
  to the changed generation.
\<close>

locale generation_change =
  fixes f :: "Generation \<Rightarrow> Generation" and record_last :: "store \<Rightarrow> store" and u :: uuid
  assumes f_uuid [simp]: "g_Uuid (f g) = g_Uuid g"
    and last_persisted [simp]: "st_persisted (record_last s) = st_persisted s"
    and last_file [simp]: "st_file (record_last s) = st_file s"
    and last_in: "u \<in> last_uuids (record_last s)"
    and last_sub: "last_uuids (record_last s) \<subseteq> insert u (last_uuids s)"
begin

lemma fails_iff:
  "change_generation f record_last ev now u s = Inl e \<longleftrightarrow>
     generationGet u (st_Generations s) = None \<and> e = NoGeneration u"
  by (auto simp: change_generation_def split: option.split)

lemma ok_generations:
  assumes "change_generation f record_last ev now u s = Inr s'"
  shows "st_Generations s' =
      filter (\<lambda>g. g_Uuid g \<in> last_uuids s') (generationPut u f (st_Generations s))"
    and "st_Deployments s' = st_Deployments s"
    and "u \<in> last_uuids s'" and "last_uuids s' \<subseteq> insert u (last_uuids s)"
  using assms last_in last_sub [of "upd_generations (generationPut u f) s"]
  by (auto simp: change_generation_def split: option.splits)

lemma ok_frame:
  assumes "change_generation f record_last ev now u s = Inr s'"
  shows "st_persisted s' = (st_persisted s)\<lparr>ps_Generations := st_Generations s'\<rparr>"
    and "st_file s' = st_file s"
  using assms by (auto simp: change_generation_def generationsGC_def upd_generations_def publish_def
      split: option.splits)

lemma ok_get:
  assumes "change_generation f record_last ev now u s = Inr s'"
  shows "\<exists>g. generationGet u (st_Generations s) = Some g \<and>
    generationGet u (st_Generations s') = Some (f g)"
proof -
  obtain g where g: "generationGet u (st_Generations s) = Some g"
    using assms by (auto simp: change_generation_def split: option.splits)
  have keep: "find_first (\<lambda>g. g_Uuid g = u) (filter (\<lambda>g. g_Uuid g \<in> last_uuids s') gs) =
      find_first (\<lambda>g. g_Uuid g = u) gs" for gs
    using ok_generations(3) [OF assms] by (induction gs) auto
  have "generationGet u (st_Generations s') = generationGet u (generationPut u f (st_Generations s))"
    unfolding gen_table.get_find ok_generations(1) [OF assms] by (rule keep)
  with g show ?thesis by (simp add: gen_table.get_put_same)
qed

lemma ok_inv:
  assumes "change_generation f record_last ev now u s = Inr s'" and "generations_inv s"
  shows "generations_inv s'"
proof -
  let ?gs = "generationPut u f (st_Generations s)"
  have keys: "map g_Uuid ?gs = map g_Uuid (st_Generations s)" by (simp add: gen_table.put_keys)
  then have set_keys: "g_Uuid ` set ?gs = g_Uuid ` set (st_Generations s)" by (metis set_map)
  have "u \<in> g_Uuid ` set (st_Generations s)"
    using ok_get [OF assms(1)] gen_table.get_None by (metis option.distinct(1))
  then have "last_uuids s' \<subseteq> g_Uuid ` set ?gs"
    using ok_generations(4) [OF assms(1)] assms(2) set_keys by (auto simp: generations_inv_def)
  moreover have "distinct (map g_Uuid ?gs)" using assms(2) keys by (simp add: generations_inv_def)
  ultimately show ?thesis
    unfolding generations_inv_def ok_generations(1) [OF assms(1)]
    by (auto simp: distinct_map_filter)
qed

lemma ok_bound:
  assumes "change_generation f record_last ev now u s = Inr s'" and "generations_inv s"
  shows "length (st_Generations s') \<le> 4"
proof -
  have "generations_inv s'" using assms by (rule ok_inv)
  then have d: "distinct (map g_Uuid (st_Generations s'))" by (simp add: generations_inv_def)
  have "st_Generations (generationsGC s') = st_Generations s'"
    using ok_generations(1) [OF assms(1)] by simp
  with generationsGC_bound [OF d] show ?thesis by simp
qed

end

lemma eval_finished_uuid [simp]: "g_Uuid (eval_finished E d p m e g) = g_Uuid g"
  by (simp add: eval_finished_def split: option.split)

lemma build_finished_uuid [simp]: "g_Uuid (build_finished E e g) = g_Uuid g"
  by (simp add: build_finished_def split: option.split)

interpretation eval_started: generation_change
  "\<lambda>g. g\<lparr>g_EvalStartedAt := Some (clk E 0), g_EvalStatus := EvalStatus_String Evaluating\<rparr>"
  "\<lambda>s. s\<lparr>st_lastEvalStarted := Some u\<rparr>" u for E u
  by unfold_locales (auto simp: last_uuids_def)

interpretation eval_done: generation_change
  "eval_finished E drvPath outPath machineId evalErr"
  "\<lambda>s. s\<lparr>st_lastEvalFinished := Some u\<rparr>" u for E drvPath outPath machineId evalErr u
  by unfold_locales (auto simp: last_uuids_def)

interpretation build_started: generation_change
  "\<lambda>g. g\<lparr>g_BuildStartedAt := Some (clk E 0), g_BuildStatus := BuildStatus_String Building,
          g_BuildReason := reason\<rparr>"
  "\<lambda>s. s\<lparr>st_lastBuildStarted := Some u\<rparr>" u for E reason u
  by unfold_locales (auto simp: last_uuids_def)

interpretation build_done: generation_change
  "build_finished E buildErr" "\<lambda>s. s\<lparr>st_lastBuildFinished := Some u\<rparr>" u for E buildErr u
  by unfold_locales (auto simp: last_uuids_def)

lemma link_gcroot_inv [simp]: "generations_inv (link_gcroot E p s) = generations_inv s"
  by (simp add: generations_inv_def)

lemma GenerationEvalStarted_inv [inv_intros]:
  "GenerationEvalStarted E u s = Inr s' \<Longrightarrow> generations_inv s \<Longrightarrow> generations_inv s'"
  unfolding GenerationEvalStarted_def by (rule eval_started.ok_inv)

lemma GenerationEvalFinished_inv [inv_intros]:
  "GenerationEvalFinished E u d p m e s = Inr s' \<Longrightarrow> generations_inv s \<Longrightarrow> generations_inv s'"
  unfolding GenerationEvalFinished_def by (rule eval_done.ok_inv)

lemma GenerationBuildStart_inv [inv_intros]:
  "GenerationBuildStart E u r s = Inr s' \<Longrightarrow> generations_inv s \<Longrightarrow> generations_inv s'"
  unfolding GenerationBuildStart_def by (rule build_started.ok_inv)

lemma GenerationBuildFinished_change:
  assumes "GenerationBuildFinished E u e s = Inr s'"
  obtains t where "change_generation (build_finished E e) (\<lambda>s. s\<lparr>st_lastBuildFinished := Some u\<rparr>)
      Event_BuildFinished (clk E 1) u t = Inr s'"
    and "st_Generations t = st_Generations s" and "st_Deployments t = st_Deployments s"
    and "generations_inv t = generations_inv s" and "last_uuids t = last_uuids s"
    and "st_persisted t = st_persisted s" and "st_file t = st_file s"
  using assms unfolding GenerationBuildFinished_def
  by (cases "generationGet u (st_Generations s)"; cases e) auto

lemma GenerationBuildFinished_inv [inv_intros]:
  "GenerationBuildFinished E u e s = Inr s' \<Longrightarrow> generations_inv s \<Longrightarrow> generations_inv s'"
  by (erule GenerationBuildFinished_change) (auto intro: build_done.ok_inv)

lemma GenerationEvalStarted_fails:
  "GenerationEvalStarted E u s = Inl e \<longleftrightarrow>
     generationGet u (st_Generations s) = None \<and> e = NoGeneration u"
  unfolding GenerationEvalStarted_def by (rule eval_started.fails_iff)

lemma NewGeneration_inv [inv_intros]:
  "NewGeneration E h d a rs s = (g, s') \<Longrightarrow> newUuid E 0 \<notin> g_Uuid ` set (st_Generations s) \<Longrightarrow>
     generations_inv s \<Longrightarrow> generations_inv s'"
  by (auto simp: NewGeneration_def Let_def generations_inv_def)

end
