(* ===== verification/Retention.thy ===== *)
theory Retention
  imports Store_Base
begin

text \<open>
  The retention policy and the switch inhibitors of \<open>internal/store/deployment.go\<close>: which
  deployments stay in the store (\<open>retention\<close>) and which operation a deployment really runs
  (\<open>compareSwitchInhibitors\<close>, \<open>computeOperation\<close>).

  The loops are recursive functions with the source's guards in the source's order. Each of them
  is proved equal to a reference description over the sorted history: the boot entries are the
  newest successful boot or switch deployments with pairwise different store paths, the
  successful and the plain history are prefixes. The properties of the whole policy follow.
\<close>

section \<open>Switch inhibitors\<close>

type_synonym inhibitors = "(string \<times> string) list"

datatype inhibitorChange = inhibitorChange (ic_old: string) (ic_new: string)

text \<open>A Go map is an association list with distinct keys; \<open>nil\<close> and the empty map read alike.\<close>

fun inhibitors_current :: "inhibitors \<Rightarrow> inhibitors \<Rightarrow> (string \<times> inhibitorChange) list" where
  "inhibitors_current [] new = []"
| "inhibitors_current ((k, v) # current) new =
     (if map_of new k \<noteq> None then (k, inhibitorChange v []) # inhibitors_current current new
      else inhibitors_current current new)"

fun inhibitors_new ::
  "(string \<times> inhibitorChange) list \<Rightarrow> inhibitors \<Rightarrow> (string \<times> inhibitorChange) list" where
  "inhibitors_new diff [] = diff"
| "inhibitors_new diff ((k, v) # new) =
     inhibitors_new
       (case map_of diff k of
          None \<Rightarrow> diff
        | Some existing \<Rightarrow>
            if ic_old existing \<noteq> v
            then map (\<lambda>(k', c). if k' = k then (k', inhibitorChange (ic_old existing) v) else (k', c)) diff
            else filter (\<lambda>(k', c). k' \<noteq> k) diff) new"

definition compareSwitchInhibitors ::
  "inhibitors \<Rightarrow> inhibitors \<Rightarrow> (string \<times> inhibitorChange) list" where
  "compareSwitchInhibitors current new = inhibitors_new (inhibitors_current current new) new"

definition OperationTest :: string where "OperationTest = ''test''"
definition OperationSwitch :: string where "OperationSwitch = ''switch''"
definition OperationBoot :: string where "OperationBoot = ''boot''"
definition OperationNull :: string where "OperationNull = ''null''"

lemmas operation_defs = OperationTest_def OperationSwitch_def OperationBoot_def OperationNull_def

definition computeOperation ::
  "string \<Rightarrow> inhibitors \<Rightarrow> inhibitors \<Rightarrow> string \<times> string" where
  "computeOperation operation currentInhibitors newInhibitors =
     (let diff = compareSwitchInhibitors currentInhibitors newInhibitors
      in if operation = OperationTest \<and> diff \<noteq> [] then
           (OperationNull, ''The test operation is not possible because of different switch inhibitors'')
         else if operation = OperationSwitch \<and> diff \<noteq> [] then
           (OperationBoot, ''Using the boot operation instead of switch operation because of diffrent switch inhibitors'')
         else (operation, []))"

definition loadInhibitors :: "env \<Rightarrow> string \<Rightarrow> inhibitors" where
  "loadInhibitors E dir = (case SwitchInhibitors E dir of JsonMap m \<Rightarrow> m | _ \<Rightarrow> [])"

section \<open>The retention policy\<close>

definition IsTesting :: "Deployment \<Rightarrow> bool" where
  "IsTesting d \<longleftrightarrow> d_Operation d = ''test''"

definition isBootEntry :: "Deployment \<Rightarrow> bool" where
  "isBootEntry d \<longleftrightarrow> d_Operation d = ''boot'' \<or> d_Operation d = ''switch''"

text \<open>Newer deployments first.\<close>

definition endedAtCmp :: "Deployment \<Rightarrow> Deployment \<Rightarrow> int" where
  "endedAtCmp a b = - time_Compare (AsTime (d_CreatedAt a)) (AsTime (d_CreatedAt b))"

abbreviation d_OutPath :: "Deployment \<Rightarrow> string" where
  "d_OutPath d \<equiv> g_OutPath (d_Generation d)"

fun boot_loop ::
  "int \<Rightarrow> string list \<Rightarrow> Deployment list \<Rightarrow> Deployment list \<Rightarrow> Deployment list \<Rightarrow>
     Deployment list \<times> Deployment list" where
  "boot_loop bootEntryCapacity storepaths result entries [] = (result, entries)"
| "boot_loop bootEntryCapacity storepaths result entries (d # dpls) =
     (if int (length storepaths) \<ge> bootEntryCapacity then (result, entries)
      else if \<not> isBootEntry d \<or> d_Status d \<noteq> ''done'' then
        boot_loop bootEntryCapacity storepaths result entries dpls
      else if d_OutPath d \<in> set storepaths then
        boot_loop bootEntryCapacity storepaths result entries dpls
      else boot_loop bootEntryCapacity (d_OutPath d # storepaths)
             (add_unique d_Uuid result d) (add_unique d_Uuid entries d) dpls)"

fun successful_loop ::
  "int \<Rightarrow> int \<Rightarrow> Deployment list \<Rightarrow> Deployment list \<Rightarrow> Deployment list \<Rightarrow>
     Deployment list \<times> Deployment list" where
  "successful_loop successfulCapacity counter result successful [] = (result, successful)"
| "successful_loop successfulCapacity counter result successful (d # dpls) =
     (if d_Status d \<noteq> ''done'' then
        successful_loop successfulCapacity counter result successful dpls
      else if counter \<ge> successfulCapacity then (result, successful)
      else successful_loop successfulCapacity (counter + 1)
             (add_unique d_Uuid result d) (add_unique d_Uuid successful d) dpls)"

fun any_loop ::
  "int \<Rightarrow> int \<Rightarrow> Deployment list \<Rightarrow> Deployment list \<Rightarrow> Deployment list \<Rightarrow>
     Deployment list \<times> Deployment list" where
  "any_loop allCapacity counter result any [] = (result, any)"
| "any_loop allCapacity counter result any (d # dpls) =
     (if counter \<ge> allCapacity then (result, any)
      else any_loop allCapacity (counter + 1)
             (add_unique d_Uuid result d) (add_unique d_Uuid any d) dpls)"

definition is_booted :: "string \<Rightarrow> Deployment \<Rightarrow> bool" where
  "is_booted bootedStorepath d \<longleftrightarrow>
     isBootEntry d \<and> d_Status d = ''done'' \<and> d_OutPath d = bootedStorepath"

definition is_switched :: "string \<Rightarrow> Deployment \<Rightarrow> bool" where
  "is_switched switchedStorepath d \<longleftrightarrow> d_Status d = ''done'' \<and> d_OutPath d = switchedStorepath"

definition dummy_booted :: "uuid \<Rightarrow> string \<Rightarrow> Deployment" where
  "dummy_booted u storepath = Deployment0\<lparr>d_Uuid := u,
     d_Generation := Generation0\<lparr>g_OutPath := storepath\<rparr>,
     d_Operation := OperationBoot,
     d_Reason := ''Empty deployment because the booted storepath '' @ storepath @
       '' has not be found in the deployment list'',
     d_Status := StatusToString Done\<rparr>"

definition dummy_switched :: "uuid \<Rightarrow> string \<Rightarrow> Deployment" where
  "dummy_switched u storepath = Deployment0\<lparr>d_Uuid := u,
     d_Generation := Generation0\<lparr>g_OutPath := storepath\<rparr>,
     d_Operation := OperationSwitch,
     d_Reason := ''Empty deployment because the switched storepath '' @ storepath @
       '' has not be found in the deployment list'',
     d_Status := StatusToString Done\<rparr>"

record retained =
  r_result :: "Deployment list"
  r_current :: Deployment
  r_booted :: Deployment
  r_bootEntries :: "Deployment list"
  r_successful :: "Deployment list"
  r_any :: "Deployment list"

text \<open>Step 1: the booted system, with a dummy deployment when the history does not know it.\<close>

definition keep_booted ::
  "uuid \<Rightarrow> string \<Rightarrow> Deployment list \<Rightarrow> Deployment \<times> Deployment list \<times> Deployment list" where
  "keep_booted u bootedStorepath dpls =
     (case find_first (is_booted bootedStorepath) dpls of
        Some d \<Rightarrow> (d, add_unique d_Uuid [] d, dpls)
      | None \<Rightarrow>
          let d = dummy_booted u bootedStorepath
          in (d, [d], SortFunc endedAtCmp (dpls @ [d])))"

text \<open>Step 2: the switched system.\<close>

definition keep_switched ::
  "uuid \<Rightarrow> string \<Rightarrow> Deployment list \<Rightarrow> Deployment list \<Rightarrow>
     Deployment \<times> Deployment list \<times> Deployment list" where
  "keep_switched u switchedStorepath result dpls =
     (case find_first (is_switched switchedStorepath) dpls of
        Some d \<Rightarrow> (d, add_unique d_Uuid result d, dpls)
      | None \<Rightarrow>
          let d = dummy_switched u switchedStorepath
          in (d, result @ [d], SortFunc endedAtCmp (dpls @ [d])))"

text \<open>\<open>ub\<close> and \<open>us\<close> are the UUIDs drawn for the dummy deployments of the two steps.\<close>

definition retention ::
  "uuid \<Rightarrow> uuid \<Rightarrow> Deployment list \<Rightarrow> Deployment option \<Rightarrow> string \<Rightarrow> string \<Rightarrow> int \<Rightarrow> int \<Rightarrow> int \<Rightarrow>
     retained" where
  "retention ub us dpls new bootedStorepath switchedStorepath
     bootEntryCapacity successfulCapacity allCapacity =
     (let dpls1 = SortFunc endedAtCmp (case new of None \<Rightarrow> dpls | Some d \<Rightarrow> dpls @ [d]);
          (booted, result1, dpls2) = keep_booted ub bootedStorepath dpls1;
          (current, result2, dpls3) = keep_switched us switchedStorepath result1 dpls2;
          (result3, entries) = boot_loop bootEntryCapacity [] result2 [] dpls3;
          (result4, successful) = successful_loop successfulCapacity 0 result3 [] dpls3;
          (result5, any) = any_loop allCapacity 0 result4 [] dpls3
      in \<lparr>r_result = SortFunc endedAtCmp result5, r_current = current, r_booted = booted,
          r_bootEntries = entries, r_successful = successful, r_any = any\<rparr>)"

section \<open>Reference description of the loops\<close>

text \<open>The first element of every key, for the keys not in \<open>seen\<close>.\<close>

fun firsts :: "('a \<Rightarrow> 'k) \<Rightarrow> 'k list \<Rightarrow> 'a list \<Rightarrow> 'a list" where
  "firsts key seen [] = []"
| "firsts key seen (x # xs) =
     (if key x \<in> set seen then firsts key seen xs else x # firsts key (key x # seen) xs)"

lemma set_firsts: "set (firsts key seen xs) \<subseteq> set xs"
proof (induction xs arbitrary: seen)
  case (Cons x xs)
  from Cons [of seen] Cons [of "key x # seen"] show ?case by auto
qed simp

lemma keys_firsts: "key ` set (firsts key seen xs) = key ` set xs - set seen"
  by (induction xs arbitrary: seen) auto

lemma distinct_firsts: "distinct (map key (firsts key seen xs))"
  by (induction xs arbitrary: seen) (auto simp: keys_firsts)

definition boot_candidates :: "Deployment list \<Rightarrow> Deployment list" where
  "boot_candidates dpls = filter (\<lambda>d. isBootEntry d \<and> d_Status d = ''done'') dpls"

definition boot_picks :: "int \<Rightarrow> Deployment list \<Rightarrow> Deployment list" where
  "boot_picks cap dpls = take_int cap (firsts d_OutPath [] (boot_candidates dpls))"

definition successful_picks :: "int \<Rightarrow> Deployment list \<Rightarrow> Deployment list" where
  "successful_picks cap dpls = take_int cap (filter (\<lambda>d. d_Status d = ''done'') dpls)"

lemma boot_loop_eq_gen:
  "boot_loop cap paths result entries dpls =
     (let picks = take_int (cap - int (length paths)) (firsts d_OutPath paths (boot_candidates dpls))
      in (add_uniques d_Uuid result picks, add_uniques d_Uuid entries picks))"
proof (induction cap paths result entries dpls rule: boot_loop.induct)
  case (2 cap paths result entries d dpls)
  show ?case
  proof (cases "int (length paths) \<ge> cap")
    case True
    then show ?thesis by (simp add: take_int_def Let_def)
  next
    case False
    with 2 show ?thesis by (auto simp: boot_candidates_def Let_def algebra_simps)
  qed
qed (simp add: boot_candidates_def Let_def)

lemma boot_loop_eq:
  "boot_loop cap [] result [] dpls =
     (add_uniques d_Uuid result (boot_picks cap dpls), add_uniques d_Uuid [] (boot_picks cap dpls))"
  by (simp add: boot_loop_eq_gen boot_picks_def Let_def)

lemma successful_loop_eq_gen:
  "successful_loop cap n result successful dpls =
     (let picks = take_int (cap - n) (filter (\<lambda>d. d_Status d = ''done'') dpls)
      in (add_uniques d_Uuid result picks, add_uniques d_Uuid successful picks))"
  by (induction cap n result successful dpls rule: successful_loop.induct)
    (auto simp: Let_def algebra_simps)

lemma successful_loop_eq:
  "successful_loop cap 0 result [] dpls =
     (add_uniques d_Uuid result (successful_picks cap dpls),
      add_uniques d_Uuid [] (successful_picks cap dpls))"
  by (simp add: successful_loop_eq_gen successful_picks_def Let_def)

lemma any_loop_eq_gen:
  "any_loop cap n result any dpls =
     (let picks = take_int (cap - n) dpls
      in (add_uniques d_Uuid result picks, add_uniques d_Uuid any picks))"
  by (induction cap n result any dpls rule: any_loop.induct) (auto simp: Let_def algebra_simps)

lemma any_loop_eq:
  "any_loop cap 0 result [] dpls =
     (add_uniques d_Uuid result (take_int cap dpls), add_uniques d_Uuid [] (take_int cap dpls))"
  by (simp add: any_loop_eq_gen Let_def)

lemmas loop_eqs = boot_loop_eq successful_loop_eq any_loop_eq

section \<open>The history the loops run over\<close>

definition with_new :: "Deployment list \<Rightarrow> Deployment option \<Rightarrow> Deployment list" where
  "with_new dpls new = (case new of None \<Rightarrow> dpls | Some d \<Rightarrow> dpls @ [d])"

text \<open>The sorted history with the dummy deployments of the first two steps.\<close>

definition history ::
  "uuid \<Rightarrow> uuid \<Rightarrow> Deployment list \<Rightarrow> Deployment option \<Rightarrow> string \<Rightarrow> string \<Rightarrow> Deployment list" where
  "history ub us dpls new bootedStorepath switchedStorepath =
     (let (booted, result1, dpls2) =
            keep_booted ub bootedStorepath (SortFunc endedAtCmp (with_new dpls new));
          (current, result2, dpls3) = keep_switched us switchedStorepath result1 dpls2
      in dpls3)"

text \<open>
  What the callers guarantee: a UUID identifies a deployment of the history (the new deployment
  may be one of the history already), and the drawn UUIDs are fresh.
\<close>

definition uuids_ok :: "uuid \<Rightarrow> uuid \<Rightarrow> Deployment list \<Rightarrow> Deployment option \<Rightarrow> bool" where
  "uuids_ok ub us dpls new \<longleftrightarrow> inj_on d_Uuid (set (with_new dpls new)) \<and>
     ub \<notin> d_Uuid ` set (with_new dpls new) \<and> us \<notin> d_Uuid ` set (with_new dpls new) \<and> ub \<noteq> us"

lemma endedAtCmp_ok: "cmp_ok endedAtCmp"
  by (auto simp: cmp_ok_def endedAtCmp_def time_Compare_def split: if_splits)

lemma endedAtCmp_le: "endedAtCmp a b \<le> 0 \<longleftrightarrow> AsTime (d_CreatedAt b) \<le> AsTime (d_CreatedAt a)"
  by (auto simp: endedAtCmp_def time_Compare_def)

abbreviation newest_first :: "Deployment list \<Rightarrow> bool" where
  "newest_first \<equiv> sorted_wrt (\<lambda>a b. AsTime (d_CreatedAt b) \<le> AsTime (d_CreatedAt a))"

lemma newest_first_SortFunc: "newest_first (SortFunc endedAtCmp xs)"
  using gosort.srt_sorted [OF endedAtCmp_ok] by (simp add: endedAtCmp_le)

lemma dummy_booted_simps [simp]:
  "d_Uuid (dummy_booted u p) = u" "is_booted p (dummy_booted u p)"
  "d_CreatedAt (dummy_booted u p) = None"
  by (simp_all add: dummy_booted_def is_booted_def isBootEntry_def operation_defs Deployment0_def)

lemma dummy_switched_simps [simp]:
  "d_Uuid (dummy_switched u p) = u" "is_switched p (dummy_switched u p)"
  "d_CreatedAt (dummy_switched u p) = None"
  by (simp_all add: dummy_switched_def is_switched_def operation_defs Deployment0_def)

text \<open>Steps 1 and 2, each with what it establishes for the next ones.\<close>

lemma keep_booted_props:
  assumes "keep_booted ub bp dpls = (booted, result, dpls')" and "newest_first dpls"
  shows "is_booted bp booted" and "result = [booted]" and "booted \<in> set dpls'"
    and "set dpls \<subseteq> set dpls'" and "set dpls' \<subseteq> insert (dummy_booted ub bp) (set dpls)"
    and "newest_first dpls'"
  using assms find_first_Some [of "is_booted bp" dpls]
  by (auto simp: keep_booted_def Let_def add_unique_def gosort.srt_set newest_first_SortFunc
      split: option.splits)

lemma keep_switched_props:
  assumes "keep_switched us sp result dpls = (current, result', dpls')" and "newest_first dpls"
  shows "is_switched sp current" and "set result \<subseteq> set result'" and "current \<in> set dpls'"
    and "set dpls \<subseteq> set dpls'" and "set dpls' \<subseteq> insert (dummy_switched us sp) (set dpls)"
    and "newest_first dpls'" and "set result' \<subseteq> insert current (set result)"
    and "d_Uuid current \<in> d_Uuid ` set result'"
    and "distinct (map d_Uuid result) \<Longrightarrow> us \<notin> d_Uuid ` set result \<Longrightarrow> distinct (map d_Uuid result')"
    and "length result' \<le> Suc (length result)"
  using assms find_first_Some [of "is_switched sp" dpls] add_unique_set [where xs = result and key = d_Uuid and x = current]
    distinct_add_unique [of d_Uuid result current] keys_add_unique [of d_Uuid result current]
  by (auto simp: keep_switched_def Let_def add_unique_def gosort.srt_set newest_first_SortFunc
      split: option.splits)

text \<open>The result of the policy in terms of the history, whatever the UUIDs are.\<close>

lemma retention_shape:
  fixes ub us dpls new bp sp c1 c2 c3
  defines "H \<equiv> history ub us dpls new bp sp" and "R \<equiv> retention ub us dpls new bp sp c1 c2 c3"
  obtains kept where
    "r_bootEntries R = add_uniques d_Uuid [] (boot_picks c1 H)"
    "r_successful R = add_uniques d_Uuid [] (successful_picks c2 H)"
    "r_any R = add_uniques d_Uuid [] (take_int c3 H)"
    "r_result R = SortFunc endedAtCmp
       (add_uniques d_Uuid kept (boot_picks c1 H @ successful_picks c2 H @ take_int c3 H))"
    "is_booted bp (r_booted R)" "is_switched sp (r_current R)"
    "r_booted R \<in> set H" "r_current R \<in> set H" "newest_first H"
    "r_booted R \<in> set kept" "set kept \<subseteq> {r_booted R, r_current R}"
    "d_Uuid (r_current R) \<in> d_Uuid ` set kept" "length kept \<le> 2"
    "set (with_new dpls new) \<subseteq> set H"
    "set H \<subseteq> set (with_new dpls new) \<union> {dummy_booted ub bp, dummy_switched us sp}"
    "us \<noteq> ub \<Longrightarrow> us \<notin> d_Uuid ` set (with_new dpls new) \<Longrightarrow> distinct (map d_Uuid kept)"
proof -
  let ?d1 = "SortFunc endedAtCmp (with_new dpls new)"
  obtain booted result1 dpls2 where b: "keep_booted ub bp ?d1 = (booted, result1, dpls2)"
    by (cases "keep_booted ub bp ?d1") auto
  obtain current result2 dpls3 where c: "keep_switched us sp result1 dpls2 = (current, result2, dpls3)"
    by (cases "keep_switched us sp result1 dpls2") auto
  note bp = keep_booted_props [OF b newest_first_SortFunc]
  note cp = keep_switched_props [OF c bp(6)]
  have H: "H = dpls3" by (simp add: H_def history_def b c)
  have R: "R = \<lparr>r_result = SortFunc endedAtCmp (add_uniques d_Uuid result2
       (boot_picks c1 H @ successful_picks c2 H @ take_int c3 H)),
      r_current = current, r_booted = booted,
      r_bootEntries = add_uniques d_Uuid [] (boot_picks c1 H),
      r_successful = add_uniques d_Uuid [] (successful_picks c2 H),
      r_any = add_uniques d_Uuid [] (take_int c3 H)\<rparr>"
    using b c by (simp add: R_def retention_def with_new_def [symmetric] H loop_eqs add_uniques_append)
  have fresh: "us \<noteq> ub \<Longrightarrow> us \<notin> d_Uuid ` set (with_new dpls new) \<Longrightarrow> us \<notin> d_Uuid ` set result1"
    using bp(2,3,5) by (auto simp: gosort.srt_set)
  show thesis
    by (rule that [of result2]) (use R H bp cp fresh in \<open>auto simp: gosort.srt_set\<close>)
qed

lemma uuids_ok_history:
  "uuids_ok ub us dpls new \<Longrightarrow> inj_on d_Uuid (set (history ub us dpls new bp sp))"
proof -
  assume ok: "uuids_ok ub us dpls new"
  then have "inj_on d_Uuid (insert (dummy_booted ub bp) (insert (dummy_switched us sp)
      (set (with_new dpls new))))"
    by (auto simp: uuids_ok_def inj_on_insert)
  then show ?thesis
    by (rule inj_on_subset)
      (rule retention_shape [of ub us dpls new bp sp 0 0 0], auto)
qed

lemma picks_subset:
  "set (boot_picks c H) \<subseteq> set H" "set (successful_picks c H) \<subseteq> set H" "set (take_int c H) \<subseteq> set H"
  using set_firsts [of d_OutPath "[]" "boot_candidates H"]
  by (auto simp: boot_picks_def successful_picks_def boot_candidates_def dest: subsetD [OF set_take_int])

section \<open>Properties of the retention policy\<close>

lemma retention_result_set:
  fixes ub us dpls new bp sp c1 c2 c3
  assumes "uuids_ok ub us dpls new"
  defines "H \<equiv> history ub us dpls new bp sp" and "R \<equiv> retention ub us dpls new bp sp c1 c2 c3"
  shows "set (r_result R) = {r_booted R, r_current R} \<union> set (boot_picks c1 H) \<union>
    set (successful_picks c2 H) \<union> set (take_int c3 H)"
proof -
  obtain kept where k:
    "r_result R = SortFunc endedAtCmp
       (add_uniques d_Uuid kept (boot_picks c1 H @ successful_picks c2 H @ take_int c3 H))"
    "r_booted R \<in> set H" "r_current R \<in> set H" "r_booted R \<in> set kept"
    "set kept \<subseteq> {r_booted R, r_current R}" "d_Uuid (r_current R) \<in> d_Uuid ` set kept"
    unfolding H_def R_def by (rule retention_shape [of ub us dpls new bp sp c1 c2 c3]) blast
  have inj: "inj_on d_Uuid (set H)" unfolding H_def using assms(1) by (rule uuids_ok_history)
  then have "r_current R \<in> set kept" using k(2-6) by (auto dest: inj_onD)
  with k(4,5) have kept: "set kept = {r_booted R, r_current R}" by blast
  have "inj_on d_Uuid (set kept \<union> set (boot_picks c1 H @ successful_picks c2 H @ take_int c3 H))"
    using picks_subset [of _ H] kept k(2,3) by (intro inj_on_subset [OF inj]) auto
  from add_uniques_set [OF this] show ?thesis by (auto simp: k(1) gosort.srt_set kept)
qed

text \<open>What every run of the policy gives, whatever the UUIDs are.\<close>

lemma retention_picks:
  fixes ub us dpls new bp sp c1 c2 c3
  defines "R \<equiv> retention ub us dpls new bp sp c1 c2 c3"
  shows "is_booted bp (r_booted R)" "is_switched sp (r_current R)"
    "r_booted R \<in> set (r_result R)" "newest_first (r_result R)"
  unfolding R_def
  by (rule retention_shape [of ub us dpls new bp sp c1 c2 c3],
      use add_uniques_mono in \<open>fastforce simp: gosort.srt_set newest_first_SortFunc\<close>)+

text \<open>
  The deployments of the booted and of the switched system are always kept: after the
  policy ran, the store still holds a successful boot or switch deployment of the booted store
  path and a successful deployment of the switched store path, and these are the ones the policy
  reports as booted and current.
\<close>

lemma retention_keeps_booted_and_switched:
  assumes "uuids_ok ub us dpls new"
  shows "r_booted (retention ub us dpls new bp sp c1 c2 c3) \<in>
           set (r_result (retention ub us dpls new bp sp c1 c2 c3)) \<and>
         is_booted bp (r_booted (retention ub us dpls new bp sp c1 c2 c3)) \<and>
         r_current (retention ub us dpls new bp sp c1 c2 c3) \<in>
           set (r_result (retention ub us dpls new bp sp c1 c2 c3)) \<and>
         is_switched sp (r_current (retention ub us dpls new bp sp c1 c2 c3))"
  using retention_result_set [OF assms, of bp sp c1 c2 c3]
    retention_picks [where ub = ub and us = us and dpls = dpls and new = new and bp = bp and sp = sp]
  by auto

text \<open>The history of the store's own retention test, on four deployments of two store paths.\<close>

definition mk_dpl :: "uuid \<Rightarrow> string \<Rightarrow> string \<Rightarrow> string \<Rightarrow> time \<Rightarrow> Deployment" where
  "mk_dpl u operation status storepath created = Deployment0\<lparr>d_Uuid := u, d_Operation := operation,
     d_Status := status, d_Generation := Generation0\<lparr>g_OutPath := storepath\<rparr>,
     d_CreatedAt := Some created\<rparr>"

definition example_history :: "Deployment list" where
  "example_history =
     [mk_dpl ''4'' ''test'' ''done'' ''st1'' 4, mk_dpl ''3'' ''boot'' ''done'' ''st1'' 3,
      mk_dpl ''2'' ''test'' ''failed'' ''st1'' 2, mk_dpl ''1'' ''switch'' ''done'' ''st2'' 1]"

lemmas example_simps = example_history_def mk_dpl_def Deployment0_def Generation0_def
  retention_def keep_booted_def keep_switched_def SortFunc_def endedAtCmp_def time_Compare_def
  is_booted_def is_switched_def isBootEntry_def add_unique_def with_new_def

text \<open>
  The kept history is well formed: newest first, without two deployments of the same
  UUID, and made only of deployments that were there, the new one, and the two dummy deployments
  for a booted or switched store path the history does not know.
\<close>

lemma retention_result_wellformed:
  assumes "uuids_ok ub us dpls new"
  shows "newest_first (r_result (retention ub us dpls new bp sp c1 c2 c3)) \<and>
         distinct (map d_Uuid (r_result (retention ub us dpls new bp sp c1 c2 c3))) \<and>
         set (r_result (retention ub us dpls new bp sp c1 c2 c3)) \<subseteq>
           set (with_new dpls new) \<union> {dummy_booted ub bp, dummy_switched us sp}"
proof -
  let ?R = "retention ub us dpls new bp sp c1 c2 c3" and ?H = "history ub us dpls new bp sp"
  obtain kept where k: "r_result ?R = SortFunc endedAtCmp
       (add_uniques d_Uuid kept (boot_picks c1 ?H @ successful_picks c2 ?H @ take_int c3 ?H))"
    and d: "us \<noteq> ub \<Longrightarrow> us \<notin> d_Uuid ` set (with_new dpls new) \<Longrightarrow> distinct (map d_Uuid kept)"
    and H: "r_booted ?R \<in> set ?H" "r_current ?R \<in> set ?H"
      "set ?H \<subseteq> set (with_new dpls new) \<union> {dummy_booted ub bp, dummy_switched us sp}"
    by (rule retention_shape [of ub us dpls new bp sp c1 c2 c3]) blast
  have "distinct (map d_Uuid kept)" using d assms by (auto simp: uuids_ok_def)
  then have "distinct (map d_Uuid (r_result ?R))"
    unfolding k gosort.srt_distinct_map by (rule distinct_add_uniques)
  moreover have "set (r_result ?R) \<subseteq> set ?H"
    unfolding retention_result_set [OF assms] using H picks_subset [of _ ?H] by blast
  ultimately show ?thesis using H(3) newest_first_SortFunc k by auto
qed

lemma length_picks:
  "length (boot_picks c H) \<le> nat c" "length (successful_picks c H) \<le> nat c"
  "length (take_int c H) \<le> nat c"
  by (simp_all add: boot_picks_def successful_picks_def length_take_int)

text \<open>
  Bounds: the boot entries, the successful history and the plain history never exceed
  their capacities, and the store never keeps more than the three capacities plus the booted and
  the switched deployment.
\<close>

lemma retention_bounds:
  "length (r_bootEntries (retention ub us dpls new bp sp c1 c2 c3)) \<le> nat c1 \<and>
   length (r_successful (retention ub us dpls new bp sp c1 c2 c3)) \<le> nat c2 \<and>
   length (r_any (retention ub us dpls new bp sp c1 c2 c3)) \<le> nat c3 \<and>
   length (r_result (retention ub us dpls new bp sp c1 c2 c3)) \<le> 2 + nat c1 + nat c2 + nat c3"
proof -
  let ?R = "retention ub us dpls new bp sp c1 c2 c3" and ?H = "history ub us dpls new bp sp"
  obtain kept where k: "r_bootEntries ?R = add_uniques d_Uuid [] (boot_picks c1 ?H)"
    "r_successful ?R = add_uniques d_Uuid [] (successful_picks c2 ?H)"
    "r_any ?R = add_uniques d_Uuid [] (take_int c3 ?H)"
    "r_result ?R = SortFunc endedAtCmp
       (add_uniques d_Uuid kept (boot_picks c1 ?H @ successful_picks c2 ?H @ take_int c3 ?H))"
    "length kept \<le> 2"
    by (rule retention_shape [of ub us dpls new bp sp c1 c2 c3]) blast
  note le = length_add_uniques [of d_Uuid "[]" "boot_picks c1 ?H"]
    length_add_uniques [of d_Uuid "[]" "successful_picks c2 ?H"]
    length_add_uniques [of d_Uuid "[]" "take_int c3 ?H"]
    length_add_uniques [of d_Uuid kept "boot_picks c1 ?H @ successful_picks c2 ?H @ take_int c3 ?H"]
  show ?thesis
    using le k length_picks [of c1 ?H] length_picks [of c2 ?H] length_picks [of c3 ?H]
    by (simp add: gosort.srt_length)
qed

text \<open>
  The UUIDs the store records for its retention lists always denote deployments it
  keeps: the booted, the switched, the boot entry, the successful and the plain history.
\<close>

lemma retention_lists_resolve:
  "d_Uuid ` ({r_booted (retention ub us dpls new bp sp c1 c2 c3),
              r_current (retention ub us dpls new bp sp c1 c2 c3)} \<union>
             set (r_bootEntries (retention ub us dpls new bp sp c1 c2 c3)) \<union>
             set (r_successful (retention ub us dpls new bp sp c1 c2 c3)) \<union>
             set (r_any (retention ub us dpls new bp sp c1 c2 c3)))
   \<subseteq> d_Uuid ` set (r_result (retention ub us dpls new bp sp c1 c2 c3))"
proof -
  let ?R = "retention ub us dpls new bp sp c1 c2 c3" and ?H = "history ub us dpls new bp sp"
  obtain kept where k: "r_bootEntries ?R = add_uniques d_Uuid [] (boot_picks c1 ?H)"
    "r_successful ?R = add_uniques d_Uuid [] (successful_picks c2 ?H)"
    "r_any ?R = add_uniques d_Uuid [] (take_int c3 ?H)"
    "r_result ?R = SortFunc endedAtCmp
       (add_uniques d_Uuid kept (boot_picks c1 ?H @ successful_picks c2 ?H @ take_int c3 ?H))"
    "r_booted ?R \<in> set kept" "d_Uuid (r_current ?R) \<in> d_Uuid ` set kept"
    by (rule retention_shape [of ub us dpls new bp sp c1 c2 c3]) blast
  have res: "d_Uuid ` set (r_result ?R) = d_Uuid ` set kept \<union> d_Uuid ` set (boot_picks c1 ?H) \<union>
      d_Uuid ` set (successful_picks c2 ?H) \<union> d_Uuid ` set (take_int c3 ?H)"
    by (simp add: k(4) gosort.srt_set keys_add_uniques image_Un Un_assoc)
  show ?thesis
    using k(5,6) by (simp add: image_Un k(1-3) keys_add_uniques res) blast
qed

text \<open>
  In a newest-first list, what the boot loop takes is at least as new as every candidate whose
  store path it does not take.
\<close>

lemma firsts_newest:
  assumes "newest_first xs" and "d \<in> set xs" and "key d \<notin> set seen"
    and "key d \<notin> key ` set (take n (firsts key seen xs))"
  shows "length (take n (firsts key seen xs)) = n \<and>
    (\<forall>e \<in> set (take n (firsts key seen xs)). AsTime (d_CreatedAt d) \<le> AsTime (d_CreatedAt e))"
  using assms
proof (induction xs arbitrary: seen n)
  case (Cons x xs)
  show ?case
  proof (cases "key x \<in> set seen")
    case True
    with Cons.prems have "d \<in> set xs" by auto
    with True Cons.IH [of seen n] Cons.prems show ?thesis by simp
  next
    case False
    show ?thesis
    proof (cases n)
      case (Suc m)
      with False Cons.prems have "key d \<noteq> key x" by auto
      then have "d \<in> set xs" "AsTime (d_CreatedAt d) \<le> AsTime (d_CreatedAt x)"
        using Cons.prems by auto
      with Suc False Cons.prems Cons.IH [of "key x # seen" m] \<open>key d \<noteq> key x\<close>
      show ?thesis by auto
    qed simp
  qed
qed simp



text \<open>
  A deployment that is strictly newer than all others stands first in a newest-first list, with
  all its copies.
\<close>

lemma newest_first_split:
  assumes "newest_first xs" and "\<forall>x \<in> set xs. x \<noteq> d \<longrightarrow> AsTime (d_CreatedAt x) < AsTime (d_CreatedAt d)"
  shows "xs = filter ((=) d) xs @ filter ((\<noteq>) d) xs"
  using assms
proof (induction xs)
  case (Cons x xs)
  show ?case
  proof (cases "x = d")
    case False
    with Cons.prems have "d \<notin> set xs" by force
    then have "filter ((=) d) xs = []" "filter ((\<noteq>) d) xs = xs"
      by (auto simp: filter_empty_conv filter_id_conv)
    with False show ?thesis by simp
  qed (use Cons in auto)
qed simp

lemma history_count:
  "length (filter P (with_new dpls new)) \<le> length (filter P (history ub us dpls new bp sp))"
proof -
  have b: "keep_booted u bp ds = (b, r, ds') \<Longrightarrow> length (filter P ds) \<le> length (filter P ds')"
    for u ds b r ds'
    by (auto simp: keep_booted_def Let_def gosort.srt_filter_length split: option.splits)
  have c: "keep_switched u sp res ds = (b, r, ds') \<Longrightarrow> length (filter P ds) \<le> length (filter P ds')"
    for u res ds b r ds'
    by (auto simp: keep_switched_def Let_def gosort.srt_filter_length split: option.splits)
  show ?thesis
    unfolding history_def Let_def
    using b c gosort.srt_filter_length [of P endedAtCmp "with_new dpls new"]
    by (auto split: prod.split) (metis order_trans)
qed

lemma history_newest_twice:
  assumes "d \<in> set dpls" and "0 < AsTime (d_CreatedAt d)"
    and "\<forall>x \<in> set dpls. x \<noteq> d \<longrightarrow> AsTime (d_CreatedAt x) < AsTime (d_CreatedAt d)"
  obtains rest where "history ub us dpls (Some d) bp sp = d # d # rest"
proof -
  let ?H = "history ub us dpls (Some d) bp sp"
  obtain nf: "newest_first ?H" and sub: "set ?H \<subseteq> set (with_new dpls (Some d)) \<union>
      {dummy_booted ub bp, dummy_switched us sp}"
    by (rule retention_shape [of ub us dpls "Some d" bp sp 0 0 0]) blast
  have "AsTime (d_CreatedAt x) < AsTime (d_CreatedAt d)" if "x \<in> set ?H" "x \<noteq> d" for x
    using that sub assms by (fastforce simp: with_new_def)
  then have split: "?H = filter ((=) d) ?H @ filter ((\<noteq>) d) ?H"
    using nf by (intro newest_first_split) auto
  have "filter ((=) d) dpls \<noteq> []" using assms(1) by (auto simp: filter_empty_conv)
  then have "Suc (Suc 0) \<le> length (filter ((=) d) (with_new dpls (Some d)))"
    by (cases "filter ((=) d) dpls") (auto simp: with_new_def)
  also have "\<dots> \<le> length (filter ((=) d) ?H)" by (rule history_count)
  finally obtain a b zs where f: "filter ((=) d) ?H = a # b # zs"
    by (metis Suc_le_length_iff)
  have "x = d" if "x \<in> set (filter ((=) d) ?H)" for x using that by simp
  with f have "a = d" "b = d" by (metis list.set_intros)+
  with f split that show thesis by (metis append_Cons)
qed

text \<open>A strictly newest deployment is kept, as soon as the plain history has room for one.\<close>

lemma history_newest_hd:
  assumes "d \<in> set (with_new dpls new)" and "0 < AsTime (d_CreatedAt d)"
    and "\<forall>x \<in> set (with_new dpls new). x \<noteq> d \<longrightarrow> AsTime (d_CreatedAt x) < AsTime (d_CreatedAt d)"
  obtains rest where "history ub us dpls new bp sp = d # rest"
proof -
  let ?H = "history ub us dpls new bp sp"
  obtain nf: "newest_first ?H" and sub: "set (with_new dpls new) \<subseteq> set ?H"
    "set ?H \<subseteq> set (with_new dpls new) \<union> {dummy_booted ub bp, dummy_switched us sp}"
    by (rule retention_shape [of ub us dpls new bp sp 0 0 0]) blast
  have "AsTime (d_CreatedAt x) < AsTime (d_CreatedAt d)" if "x \<in> set ?H" "x \<noteq> d" for x
    using that sub assms by fastforce
  then have "?H = filter ((=) d) ?H @ filter ((\<noteq>) d) ?H"
    using nf by (intro newest_first_split) auto
  moreover have "filter ((=) d) ?H \<noteq> []" using assms(1) sub by (auto simp: filter_empty_conv)
  moreover have "x = d" if "x \<in> set (filter ((=) d) ?H)" for x using that by simp
  ultimately show thesis using that by (cases "filter ((=) d) ?H") (metis append_Cons list.set_intros(1))+
qed

lemma retention_keeps_newest:
  assumes "uuids_ok ub us dpls new" and "1 \<le> c3" and "d \<in> set (with_new dpls new)"
    and "0 < AsTime (d_CreatedAt d)"
    and "\<forall>x \<in> set (with_new dpls new). x \<noteq> d \<longrightarrow> AsTime (d_CreatedAt x) < AsTime (d_CreatedAt d)"
  shows "d \<in> set (r_result (retention ub us dpls new bp sp c1 c2 c3))"
proof -
  obtain rest where "history ub us dpls new bp sp = d # rest"
    using history_newest_hd [OF assms(3-5)] .
  with assms(2) show ?thesis unfolding retention_result_set [OF assms(1)] by simp
qed

lemma length_add_uniques_twice:
  "2 \<le> c \<Longrightarrow> length (add_uniques d_Uuid [] (take_int c (d # d # rest))) \<le> nat c - 1"
  using length_add_uniques [of d_Uuid "[d]" "take_int (c - 2) rest"]
  by (simp add: add_unique_def length_take_int nat_diff_distrib)

text \<open>
  When a deployment is started or finished, the policy runs with the deployment as
  the new one although the history holds it already. As the newest deployment it is then counted
  twice: the plain history, and for a successful deployment the successful history too, only
  keep one deployment less than the configured capacity.
\<close>

theorem retention_counts_update_twice:
  assumes "d \<in> set dpls" and "0 < AsTime (d_CreatedAt d)"
    and "\<forall>x \<in> set dpls. x \<noteq> d \<longrightarrow> AsTime (d_CreatedAt x) < AsTime (d_CreatedAt d)"
  shows "(2 \<le> c3 \<longrightarrow> length (r_any (retention ub us dpls (Some d) bp sp c1 c2 c3)) \<le> nat c3 - 1) \<and>
    (2 \<le> c2 \<and> d_Status d = ''done'' \<longrightarrow>
       length (r_successful (retention ub us dpls (Some d) bp sp c1 c2 c3)) \<le> nat c2 - 1)"
proof -
  let ?R = "retention ub us dpls (Some d) bp sp c1 c2 c3" and ?H = "history ub us dpls (Some d) bp sp"
  obtain rest where H: "?H = d # d # rest" using history_newest_twice [OF assms] .
  obtain k: "r_successful ?R = add_uniques d_Uuid [] (successful_picks c2 ?H)"
    "r_any ?R = add_uniques d_Uuid [] (take_int c3 ?H)"
    by (rule retention_shape [of ub us dpls "Some d" bp sp c1 c2 c3]) blast
  show ?thesis
    unfolding k H successful_picks_def
    using length_add_uniques_twice [of c3 d rest]
      length_add_uniques_twice [of c2 d "filter (\<lambda>d. d_Status d = ''done'') rest"]
    by (simp del: take_int_Cons)
qed

theorem retention_counts_update_twice_witness:
  "map d_Uuid (r_successful (retention ''b'' ''s'' example_history None ''st1'' ''st1'' 1 2 2)) =
     [''4'', ''3''] \<and>
   length (r_successful (retention ''b'' ''s'' example_history
     (Some (mk_dpl ''4'' ''test'' ''done'' ''st1'' 4)) ''st1'' ''st1'' 1 2 2)) \<le> nat 2 - 1"
proof -
  let ?d = "mk_dpl ''4'' ''test'' ''done'' ''st1'' 4"
  have h: "?d \<in> set example_history" "0 < AsTime (d_CreatedAt ?d)"
    "\<forall>x \<in> set example_history. x \<noteq> ?d \<longrightarrow> AsTime (d_CreatedAt x) < AsTime (d_CreatedAt ?d)"
    "d_Status ?d = ''done''"
    by (simp_all add: example_history_def mk_dpl_def)
  have "map d_Uuid (r_successful (retention ''b'' ''s'' example_history None ''st1'' ''st1'' 1 2 2)) =
     [''4'', ''3'']"
    by (simp add: example_simps)
  with h(4) retention_counts_update_twice [OF h(1-3), of 2 "''b''" "''s''" "''st1''" "''st1''" 1 2]
  show ?thesis by simp
qed

section \<open>Properties of the switch inhibitors\<close>

lemma map_of_inhibitors_current:
  "map_of (inhibitors_current current new) k =
     (if map_of new k = None then None else map_option (\<lambda>v. inhibitorChange v []) (map_of current k))"
  by (induction current new rule: inhibitors_current.induct) auto

lemma map_of_map_key:
  "map_of (map (\<lambda>(k', c). if k' = k then (k', c') else (k', c)) m) j =
     (if j = k then map_option (\<lambda>_. c') (map_of m k) else map_of m j)"
  by (induction m) auto

lemma map_of_filter_key: "map_of (filter (\<lambda>(k', c). k' \<noteq> k) m) j = (if j = k then None else map_of m j)"
  by (induction m) auto

lemma map_of_inhibitors_new:
  assumes "distinct (map fst new)"
  shows "map_of (inhibitors_new diff new) k =
     (case map_of diff k of
        None \<Rightarrow> None
      | Some c \<Rightarrow> (case map_of new k of
          None \<Rightarrow> Some c
        | Some v \<Rightarrow> if ic_old c \<noteq> v then Some (inhibitorChange (ic_old c) v) else None))"
  using assms
proof (induction diff new rule: inhibitors_new.induct)
  case (2 diff k' v new)
  have "map_of new k' = None" using 2 by (auto simp: map_of_eq_None_iff)
  with 2 show ?case
    by (auto simp: map_of_map_key map_of_filter_key split: option.splits if_splits)
qed (auto split: option.split)

lemma map_of_compareSwitchInhibitors:
  assumes "distinct (map fst new)"
  shows "map_of (compareSwitchInhibitors current new) k =
    (case map_of current k of
       None \<Rightarrow> None
     | Some old \<Rightarrow> (case map_of new k of
         None \<Rightarrow> None
       | Some v \<Rightarrow> if old \<noteq> v then Some (inhibitorChange old v) else None))"
  by (auto simp: compareSwitchInhibitors_def map_of_inhibitors_new [OF assms]
      map_of_inhibitors_current split: option.split)

text \<open>
  Property C28. The operation that is really run: a switch becomes a boot, and a test is not run at
  all, exactly when some switch inhibitor is present in both systems with different values; every
  other operation is run as submitted.
\<close>

theorem computeOperation_spec:
  assumes "distinct (map fst new)"
  shows "fst (computeOperation operation current new) =
    (if (\<exists>k a b. map_of current k = Some a \<and> map_of new k = Some b \<and> a \<noteq> b)
     then (if operation = ''test'' then ''null'' else if operation = ''switch'' then ''boot'' else operation)
     else operation)"
proof -
  have "(compareSwitchInhibitors current new \<noteq> []) = (\<exists>k. map_of (compareSwitchInhibitors current new) k \<noteq> None)"
    by (auto simp: map_of_eq_None_iff neq_Nil_conv)
  also have "\<dots> = (\<exists>k a b. map_of current k = Some a \<and> map_of new k = Some b \<and> a \<noteq> b)"
    by (auto simp: map_of_compareSwitchInhibitors [OF assms] split: option.splits if_splits) blast
  finally show ?thesis by (auto simp: computeOperation_def Let_def operation_defs)
qed

theorem computeOperation_spec_witness:
  "distinct (map fst [(''dbus'', ''2''), (''new'', ''1'')]) \<and>
   fst (computeOperation ''switch'' [(''dbus'', ''1''), (''old'', ''1'')] [(''dbus'', ''2''), (''new'', ''1'')])
     = ''boot''"
proof -
  have d: "distinct (map fst [(''dbus'', ''2''), (''new'', ''1'')])" by simp
  have "\<exists>k a b. map_of [(''dbus'', ''1''), (''old'', ''1'')] k = Some a \<and>
      map_of [(''dbus'', ''2''), (''new'', ''1'')] k = Some b \<and> a \<noteq> b"
    by (rule exI [of _ "''dbus''"]) simp
  with computeOperation_spec [OF d, of "''switch''" "[(''dbus'', ''1''), (''old'', ''1'')]"] d
  show ?thesis by simp
qed

end
