(* ===== verification/Store.thy ===== *)
theory Store
  imports Retention
begin

text \<open>
  The operations of the store on deployments and on the state file (\<open>store.go\<close>,
  \<open>deployment.go\<close>): the update of the persisted retention lists, the life cycle of a deployment,
  the lookups, loading with the migration of old generations; and the invariant of the whole
  store with its reachable states.
\<close>

section \<open>Lookups\<close>

definition deploymentGet :: "uuid \<Rightarrow> Deployment list \<Rightarrow> Deployment option" where
  "deploymentGet u ds = find_first (\<lambda>d. d_Uuid d = u) ds"

definition deploymentPut :: "uuid \<Rightarrow> (Deployment \<Rightarrow> Deployment) \<Rightarrow> Deployment list \<Rightarrow> Deployment list" where
  "deploymentPut u f ds = upd_first (\<lambda>d. d_Uuid d = u) f ds"

interpretation dpl_table: keyed_table d_Uuid deploymentGet deploymentPut
  by unfold_locales (simp_all add: deploymentGet_def deploymentPut_def)

definition GetDeployment :: "uuid \<Rightarrow> store \<Rightarrow> store_error + Deployment" where
  "GetDeployment u s =
     (case deploymentGet u (st_Deployments s) of None \<Rightarrow> Inl (NoDeployment u) | Some d \<Rightarrow> Inr d)"

definition GetDeploymentByOutpath :: "string \<Rightarrow> store \<Rightarrow> Deployment option" where
  "GetDeploymentByOutpath outpath s = find_first (\<lambda>d. d_OutPath d = outpath) (st_Deployments s)"

definition LastDeployment :: "store \<Rightarrow> bool \<times> Deployment option" where
  "LastDeployment s =
     (if length (st_Deployments s) > 1 then (True, Some (st_Deployments s ! 0)) else (False, None))"

fun latest_loop :: "Deployment option \<Rightarrow> Deployment list \<Rightarrow> Deployment option" where
  "latest_loop latest [] = latest"
| "latest_loop latest (d # ds) =
     latest_loop
       (case latest of
          None \<Rightarrow> Some d
        | Some l \<Rightarrow> if d_EndedAt d \<noteq> None \<and> AsTime (d_CreatedAt d) > AsTime (d_CreatedAt l)
                    then Some d else latest) ds"

definition GetDeploymentLastest :: "store \<Rightarrow> Deployment option" where
  "GetDeploymentLastest s = latest_loop None (st_Deployments s)"

text \<open>The keys of a Go map, each once; the order is not specified.\<close>

definition GetDeploymentProfilePaths :: "store \<Rightarrow> string list" where
  "GetDeploymentProfilePaths s =
     remdups (filter (\<lambda>p. p \<noteq> []) (map d_ProfilePath (st_Deployments s)))"

section \<open>Updating the deployments\<close>

text \<open>\<open>ub\<close> and \<open>us\<close>: the UUIDs drawn inside \<open>retention\<close>.\<close>

definition updateDataDeployments ::
  "env \<Rightarrow> uuid \<Rightarrow> uuid \<Rightarrow> string \<Rightarrow> string \<Rightarrow> Deployment option \<Rightarrow> store \<Rightarrow> store" where
  "updateDataDeployments E ub us bootedStorepath currentStorepath new s =
     (let p = st_persisted s;
          r = retention ub us (ps_Deployments p) new bootedStorepath currentStorepath
                (ps_DeploymentBootEntryCapacity p) (ps_DeploymentSuccessfulCapacity p)
                (ps_DeploymentAnyCapacity p)
      in Commit E (s\<lparr>st_persisted := p\<lparr>
           ps_Deployments := r_result r,
           ps_DeploymentSwitched := d_Uuid (r_current r),
           ps_DeploymentBooted := d_Uuid (r_booted r),
           ps_DeploymentsBootEntry := map d_Uuid (r_bootEntries r),
           ps_DeploymentsSuccessful := map d_Uuid (r_successful r),
           ps_DeploymentsAny := map d_Uuid (r_any r)\<rparr>\<rparr>))"

definition new_deployment ::
  "env \<Rightarrow> Generation \<Rightarrow> string \<Rightarrow> string \<Rightarrow> string \<Rightarrow> Deployment" where
  "new_deployment E g operationSubmitted reason currentStorepath =
     (let currentInhibitors = loadInhibitors E currentStorepath;
          newInhibitors = loadInhibitors E (g_OutPath g);
          (operation, operationreason) =
            computeOperation operationSubmitted currentInhibitors newInhibitors
      in Deployment0\<lparr>d_Uuid := newUuid E 0, d_Generation := g,
           d_OperationSubmitted := operationSubmitted, d_Operation := operation,
           d_OperationReason := operationreason, d_Reason := reason,
           d_Status := StatusToString Init, d_CreatedAt := Some (clk E 0),
           d_CurrentInhibitors := currentInhibitors, d_NewInhibitors := newInhibitors\<rparr>)"

definition NewDeployment ::
  "env \<Rightarrow> Generation \<Rightarrow> string \<Rightarrow> string \<Rightarrow> string \<Rightarrow> string \<Rightarrow> store \<Rightarrow> Deployment \<times> store" where
  "NewDeployment E g operationSubmitted reason bootedStorepath currentStorepath s =
     (let d = new_deployment E g operationSubmitted reason currentStorepath
      in (d, Commit E (updateDataDeployments E (newUuid E 1) (newUuid E 2)
               bootedStorepath currentStorepath (Some d) s)))"

text \<open>
  The update of a deployment: the write through the pointer changes the entry of the list, the
  event carries the changed deployment, and the policy runs with it as the new deployment. The
  changed deployment is returned: the pointer of the deployer denotes it.
\<close>

definition change_deployment ::
  "env \<Rightarrow> (Deployment \<Rightarrow> Deployment) \<Rightarrow> (Deployment \<Rightarrow> event_type) \<Rightarrow> uuid \<Rightarrow> string \<Rightarrow> string \<Rightarrow> store \<Rightarrow>
     store_error + (Deployment \<times> store)" where
  "change_deployment E f ev u bootedStorepath currentStorepath s =
     (case deploymentGet u (st_Deployments s) of
        None \<Rightarrow> Inl (NoDeployment u)
      | Some d \<Rightarrow>
          let s1 = s\<lparr>st_persisted := (st_persisted s)
                      \<lparr>ps_Deployments := deploymentPut u f (st_Deployments s)\<rparr>\<rparr>;
              s2 = publish (ev (f d)) (clk E 1) s1
          in Inr (f d, updateDataDeployments E (newUuid E 0) (newUuid E 1)
                         bootedStorepath currentStorepath (Some (f d)) s2))"

definition deployment_started :: "env \<Rightarrow> Deployment \<Rightarrow> Deployment" where
  "deployment_started E d =
     d\<lparr>d_StartedAt := Some (clk E 0), d_Status := StatusToString Running\<rparr>"

definition DeploymentStarted ::
  "env \<Rightarrow> uuid \<Rightarrow> string \<Rightarrow> string \<Rightarrow> store \<Rightarrow> store_error + (Deployment \<times> store)" where
  "DeploymentStarted E u bootedStorepath currentStorepath s =
     change_deployment E (deployment_started E) Event_DeploymentStarted u
       bootedStorepath currentStorepath s"

definition deployment_finished ::
  "env \<Rightarrow> string option \<Rightarrow> bool \<Rightarrow> string \<Rightarrow> Deployment \<Rightarrow> Deployment" where
  "deployment_finished E deploymentErr cominNeedRestart profilePath d =
     (case deploymentErr of
        Some e \<Rightarrow> d\<lparr>d_ErrorMsg := e, d_Status := StatusToString Failed\<rparr>
      | None \<Rightarrow> d\<lparr>d_Status := StatusToString Done\<rparr>)
     \<lparr>d_EndedAt := Some (clk E 0), d_RestartComin := Some cominNeedRestart,
      d_ProfilePath := profilePath\<rparr>"

definition DeploymentFinished ::
  "env \<Rightarrow> uuid \<Rightarrow> string option \<Rightarrow> bool \<Rightarrow> string \<Rightarrow> string \<Rightarrow> string \<Rightarrow> store \<Rightarrow>
     store_error + (Deployment \<times> store)" where
  "DeploymentFinished E u deploymentErr cominNeedRestart profilePath
     bootedStorepath currentStorepath s =
     change_deployment E (deployment_finished E deploymentErr cominNeedRestart profilePath)
       Event_DeploymentFinished u bootedStorepath currentStorepath s"

section \<open>Loading and migrating\<close>

text \<open>A generation of an older store file: no source, but some of the old fields.\<close>

definition has_old_fields :: "Generation \<Rightarrow> bool" where
  "has_old_fields g \<longleftrightarrow> g_RepositorySubdir g \<noteq> [] \<or> g_SystemAttr g \<noteq> [] \<or> g_Hostname g \<noteq> [] \<or>
     g_SelectedRemoteUrl g \<noteq> [] \<or> g_SelectedRemoteName g \<noteq> [] \<or> g_SelectedBranchName g \<noteq> [] \<or>
     g_SelectedCommitId g \<noteq> [] \<or> g_SelectedCommitMsg g \<noteq> [] \<or> g_MainCommitId g \<noteq> [] \<or>
     g_MainRemoteName g \<noteq> [] \<or> g_MainBranchName g \<noteq> []"

definition migrate_generation :: "Generation \<Rightarrow> Generation" where
  "migrate_generation g =
     (if g_Source g = None \<and> has_old_fields g
      then g\<lparr>g_Source := Some (Source (Some
             \<lparr>git_RepositorySubdir = g_RepositorySubdir g,
              git_SystemAttr = g_SystemAttr g,
              git_Hostname = g_Hostname g,
              git_SelectedRemoteUrl = g_SelectedRemoteUrl g,
              git_SelectedRemoteName = g_SelectedRemoteName g,
              git_SelectedBranchName = g_SelectedBranchName g,
              git_SelectedCommitId = g_SelectedCommitId g,
              git_SelectedCommitMsg = g_SelectedCommitMsg g,
              git_SelectedBranchIsTesting = g_SelectedBranchIsTesting g,
              git_MainCommitId = g_MainCommitId g,
              git_MainRemoteName = g_MainRemoteName g,
              git_MainBranchName = g_MainBranchName g\<rparr>))\<rparr>
      else g)"

definition migrateGenerationsToSource :: "store \<Rightarrow> store" where
  "migrateGenerationsToSource s =
     s\<lparr>st_persisted := (st_persisted s)
        \<lparr>ps_Generations := map migrate_generation (st_Generations s),
         ps_Deployments := map (\<lambda>d. d\<lparr>d_Generation := migrate_generation (d_Generation d)\<rparr>)
                               (st_Deployments s)\<rparr>\<rparr>"

definition read_store :: "env \<Rightarrow> store \<Rightarrow> store_error + PStore" where
  "read_store E s =
     (case ReadFileErr E of
        Some e \<Rightarrow> Inl (ReadFailed e)
      | None \<Rightarrow>
          (case st_file s of
             None \<Rightarrow> Inr PStore0
           | Some content \<Rightarrow>
               (case Unmarshal E content of None \<Rightarrow> Inl UnmarshalFailed | Some p \<Rightarrow> Inr p)))"

definition dummy_load :: "uuid \<Rightarrow> string \<Rightarrow> string \<Rightarrow> Deployment" where
  "dummy_load u operation storepath = Deployment0\<lparr>d_Uuid := u,
     d_Generation := Generation0\<lparr>g_OutPath := storepath\<rparr>, d_Operation := operation,
     d_Reason := ''Dummy deployment because not found in the deployment list'',
     d_Status := StatusToString Done\<rparr>"

definition ensure_deployment :: "uuid \<Rightarrow> string \<Rightarrow> string \<Rightarrow> store \<Rightarrow> store" where
  "ensure_deployment u operation storepath s =
     (if GetDeploymentByOutpath storepath s = None
      then s\<lparr>st_persisted := (st_persisted s)
              \<lparr>ps_Deployments := st_Deployments s @ [dummy_load u operation storepath]\<rparr>\<rparr>
      else s)"

definition Load :: "env \<Rightarrow> store \<Rightarrow> store_error + store" where
  "Load E s =
     (case read_store E s of
        Inl e \<Rightarrow> Inl e
      | Inr data \<Rightarrow>
          let caps = data
                \<lparr>ps_DeploymentAnyCapacity := ps_DeploymentAnyCapacity (st_persisted s),
                 ps_DeploymentBootEntryCapacity := ps_DeploymentBootEntryCapacity (st_persisted s),
                 ps_DeploymentSuccessfulCapacity := ps_DeploymentSuccessfulCapacity (st_persisted s)\<rparr>;
              s1 = s\<lparr>st_persisted := caps\<lparr>ps_Deployer :=
                      (case ps_Deployer caps of None \<Rightarrow> Some DeployerState0 | Some d \<Rightarrow> Some d)\<rparr>\<rparr>;
              (booted, current) = GetBootedAndCurrentStorepaths E;
              s2 = ensure_deployment (newUuid E 0) OperationBoot booted s1;
              s3 = ensure_deployment (newUuid E 1) OperationSwitch current s2
          in Inr (migrateGenerationsToSource
                    (updateDataDeployments E (newUuid E 2) (newUuid E 3) booted current None s3)))"

section \<open>Invariant of the deployments\<close>

text \<open>The UUIDs of the persisted retention lists.\<close>

definition list_uuids :: "PStore \<Rightarrow> uuid set" where
  "list_uuids p = set (ps_DeploymentsBootEntry p) \<union> set (ps_DeploymentsSuccessful p) \<union>
     set (ps_DeploymentsAny p)"

definition capacity_bound :: "PStore \<Rightarrow> nat" where
  "capacity_bound p = 2 + nat (ps_DeploymentBootEntryCapacity p) +
     nat (ps_DeploymentSuccessfulCapacity p) + nat (ps_DeploymentAnyCapacity p)"

definition deployments_wf :: "PStore \<Rightarrow> bool" where
  "deployments_wf p \<longleftrightarrow> distinct (map d_Uuid (ps_Deployments p)) \<and> newest_first (ps_Deployments p) \<and>
     length (ps_Deployments p) \<le> capacity_bound p \<and>
     list_uuids p \<subseteq> d_Uuid ` set (ps_Deployments p) \<and>
     (ps_Deployments p \<noteq> [] \<longrightarrow>
        {ps_DeploymentSwitched p, ps_DeploymentBooted p} \<subseteq> d_Uuid ` set (ps_Deployments p))"

text \<open>What the state file may hold: nothing, or an earlier state of the store.\<close>

definition pstore_wf :: "PStore \<Rightarrow> bool" where
  "pstore_wf p \<longleftrightarrow> distinct (map g_Uuid (ps_Generations p)) \<and> deployments_wf p"

definition file_wf :: "(PStore \<Rightarrow> string option) \<Rightarrow> store \<Rightarrow> bool" where
  "file_wf M s \<longleftrightarrow> (\<forall>c. st_file s = Some c \<longrightarrow> (\<exists>p. M p = Some c \<and> pstore_wf p))"

definition store_inv :: "(PStore \<Rightarrow> string option) \<Rightarrow> store \<Rightarrow> bool" where
  "store_inv M s \<longleftrightarrow> generations_inv s \<and> deployments_wf (st_persisted s) \<and> file_wf M s"

text \<open>The contract of \<open>uuid.New\<close> for one call: pairwise different UUIDs no object has yet.\<close>

definition fresh_uuids :: "env \<Rightarrow> PStore \<Rightarrow> bool" where
  "fresh_uuids E p \<longleftrightarrow> inj (newUuid E) \<and> range (newUuid E) \<inter> d_Uuid ` set (ps_Deployments p) = {} \<and>
     range (newUuid E) \<inter> g_Uuid ` set (ps_Generations p) = {}"

text \<open>The contract of the JSON codec: reading back what was written.\<close>

definition codec_ok :: "(PStore \<Rightarrow> string option) \<Rightarrow> (string \<Rightarrow> PStore option) \<Rightarrow> bool" where
  "codec_ok M U \<longleftrightarrow> (\<forall>p c. M p = Some c \<longrightarrow> U c = Some p)"

lemma updateDataDeployments_frames [simp]:
  "st_Generations (updateDataDeployments E ub us bp sp new s) = st_Generations s"
  "last_uuids (updateDataDeployments E ub us bp sp new s) = last_uuids s"
  "capacity_bound (st_persisted (updateDataDeployments E ub us bp sp new s)) =
     capacity_bound (st_persisted s)"
  by (simp_all add: updateDataDeployments_def Let_def capacity_bound_def)

lemma updateDataDeployments_retention:
  "st_Deployments (updateDataDeployments E ub us bp sp new s) =
     r_result (retention ub us (st_Deployments s) new bp sp
       (ps_DeploymentBootEntryCapacity (st_persisted s))
       (ps_DeploymentSuccessfulCapacity (st_persisted s)) (ps_DeploymentAnyCapacity (st_persisted s)))"
  by (simp add: updateDataDeployments_def Let_def)

lemma uuids_ok_fresh:
  assumes "distinct (map d_Uuid ds)" and "ub \<noteq> us" and "{ub, us} \<inter> d_Uuid ` set ds = {}"
  shows "uuids_ok ub us ds None"
    and "d \<in> set ds \<Longrightarrow> uuids_ok ub us ds (Some d)"
    and "d_Uuid d \<notin> {ub, us} \<union> d_Uuid ` set ds \<Longrightarrow> uuids_ok ub us ds (Some d)"
  using assms by (auto simp: uuids_ok_def with_new_def distinct_map inj_on_insert insert_absorb)

text \<open>Whatever the store held before, the policy leaves well-formed deployments behind.\<close>

lemma updateDataDeployments_wf:
  assumes "uuids_ok ub us (st_Deployments s) new"
  shows "deployments_wf (st_persisted (updateDataDeployments E ub us bp sp new s))"
proof -
  let ?p = "st_persisted s"
  note w = retention_result_wellformed [OF assms, of bp sp "ps_DeploymentBootEntryCapacity ?p"
      "ps_DeploymentSuccessfulCapacity ?p" "ps_DeploymentAnyCapacity ?p"]
  note b = retention_bounds [of ub us "st_Deployments s" new bp sp "ps_DeploymentBootEntryCapacity ?p"
      "ps_DeploymentSuccessfulCapacity ?p" "ps_DeploymentAnyCapacity ?p"]
  note l = retention_lists_resolve [of ub us "st_Deployments s" new bp sp
      "ps_DeploymentBootEntryCapacity ?p" "ps_DeploymentSuccessfulCapacity ?p"
      "ps_DeploymentAnyCapacity ?p"]
  show ?thesis
    using w b l by (auto simp: deployments_wf_def list_uuids_def capacity_bound_def
        updateDataDeployments_def Let_def image_Un)
qed

lemma file_wf_Commit: "file_wf (Marshal E) s \<Longrightarrow> pstore_wf (st_persisted s) \<Longrightarrow>
    file_wf (Marshal E) (Commit E s)"
  by (auto simp: file_wf_def Commit_def split: option.split)

lemma file_wf_eq: "st_file t = st_file s \<Longrightarrow> file_wf M t = file_wf M s"
  by (simp add: file_wf_def)

lemma updateDataDeployments_file:
  "st_file (updateDataDeployments E ub us bp sp new s) =
     st_file (Commit E (s\<lparr>st_persisted := st_persisted (updateDataDeployments E ub us bp sp new s)\<rparr>))"
  by (simp add: updateDataDeployments_def Let_def)

lemma generations_inv_eq:
  "st_Generations t = st_Generations s \<Longrightarrow> last_uuids t = last_uuids s \<Longrightarrow>
     generations_inv t = generations_inv s"
  by (simp add: generations_inv_def)

lemma store_inv_update:
  assumes "uuids_ok ub us (st_Deployments s) new" and "generations_inv s" and "file_wf (Marshal E) s"
  shows "store_inv (Marshal E) (updateDataDeployments E ub us bp sp new s)"
proof -
  let ?t = "updateDataDeployments E ub us bp sp new s"
  have p: "pstore_wf (st_persisted ?t)"
    using updateDataDeployments_wf [OF assms(1)] assms(2) by (simp add: pstore_wf_def generations_inv_def)
  then have "file_wf (Marshal E) (Commit E (s\<lparr>st_persisted := st_persisted ?t\<rparr>))"
    using assms(3) by (intro file_wf_Commit) (simp_all add: file_wf_def)
  with p assms(2) show ?thesis
    using file_wf_eq [OF updateDataDeployments_file]
      generations_inv_eq [of ?t s] by (simp add: store_inv_def pstore_wf_def)
qed

lemma store_inv_Commit:
  "store_inv (Marshal E) s \<Longrightarrow> store_inv (Marshal E) (Commit E s)"
  using generations_inv_eq [of "Commit E s" s]
  by (simp add: store_inv_def generations_inv_def pstore_wf_def file_wf_Commit)

lemma deployments_wf_Generations [simp]:
  "deployments_wf (p\<lparr>ps_Generations := gs\<rparr>) = deployments_wf p"
  "deployments_wf (p\<lparr>ps_Deployer := d\<rparr>) = deployments_wf p"
  by (simp_all add: deployments_wf_def capacity_bound_def list_uuids_def)

text \<open>An operation on the generations keeps the invariant.\<close>

lemma store_inv_generations:
  assumes "store_inv M s" and "generations_inv t" and "st_file t = st_file s"
    and "st_persisted t = (st_persisted s)\<lparr>ps_Generations := st_Generations t\<rparr>"
  shows "store_inv M t"
proof -
  have "deployments_wf (st_persisted t)"
    using assms(1) by (subst assms(4)) (simp add: store_inv_def)
  with assms file_wf_eq [of t s M] show ?thesis by (simp add: store_inv_def)
qed

lemma generation_ops_inv:
  assumes "store_inv M s"
  shows "GenerationEvalStarted E u s = Inr t \<Longrightarrow> store_inv M t"
    and "GenerationEvalFinished E u dp op m e s = Inr t \<Longrightarrow> store_inv M t"
    and "GenerationBuildStart E u r s = Inr t \<Longrightarrow> store_inv M t"
    and "GenerationBuildFinished E u e s = Inr t \<Longrightarrow> store_inv M t"
    and "NewGeneration E h d a rs s = (g, t) \<Longrightarrow> newUuid E 0 \<notin> g_Uuid ` set (st_Generations s) \<Longrightarrow>
      store_inv M t"
proof -
  have g: "generations_inv s" using assms by (simp add: store_inv_def)
  show "store_inv M t" if "GenerationEvalStarted E u s = Inr t"
    using assms GenerationEvalStarted_inv [OF that g]
      eval_started.ok_frame(2,1) [OF that [unfolded GenerationEvalStarted_def]]
    by (rule store_inv_generations)
  show "store_inv M t" if "GenerationEvalFinished E u dp op m e s = Inr t"
    using assms GenerationEvalFinished_inv [OF that g]
      eval_done.ok_frame(2,1) [OF that [unfolded GenerationEvalFinished_def]]
    by (rule store_inv_generations)
  show "store_inv M t" if "GenerationBuildStart E u r s = Inr t"
    using assms GenerationBuildStart_inv [OF that g]
      build_started.ok_frame(2,1) [OF that [unfolded GenerationBuildStart_def]]
    by (rule store_inv_generations)
  show "store_inv M t" if "GenerationBuildFinished E u e s = Inr t"
    using that
  proof (rule GenerationBuildFinished_change)
    fix s1
    assume c: "change_generation (build_finished E e) (\<lambda>s. s\<lparr>st_lastBuildFinished := Some u\<rparr>)
        Event_BuildFinished (clk E 1) u s1 = Inr t"
      and eq: "st_persisted s1 = st_persisted s" "st_file s1 = st_file s"
    show ?thesis
      using assms GenerationBuildFinished_inv [OF that g] build_done.ok_frame(2,1) [OF c]
      unfolding eq by (rule store_inv_generations)
  qed
  show "store_inv M t" if "NewGeneration E h d a rs s = (g, t)"
    "newUuid E 0 \<notin> g_Uuid ` set (st_Generations s)"
  proof -
    have t: "t = snd (NewGeneration E h d a rs s)" using that(1) by simp
    show ?thesis
      using assms NewGeneration_inv [OF that g]
      by (rule store_inv_generations) (simp_all add: t NewGeneration_def Let_def upd_generations_def)
  qed
qed

lemma fresh_uuidsD:
  assumes "fresh_uuids E p"
  shows "newUuid E i = newUuid E j \<longleftrightarrow> i = j" and "newUuid E i \<notin> d_Uuid ` set (ps_Deployments p)"
    and "newUuid E i \<notin> g_Uuid ` set (ps_Generations p)"
  using assms unfolding fresh_uuids_def by (simp add: inj_eq, blast+)

lemma store_inv_distinct: "store_inv M s \<Longrightarrow> distinct (map d_Uuid (st_Deployments s))"
  by (simp add: store_inv_def deployments_wf_def)

lemma NewDeployment_inv:
  assumes "store_inv (Marshal E) s" and "fresh_uuids E (st_persisted s)"
  shows "store_inv (Marshal E) (snd (NewDeployment E g op r bp sp s))"
proof -
  let ?d = "new_deployment E g op r sp"
  have u: "d_Uuid ?d = newUuid E 0" by (simp add: new_deployment_def Let_def split: prod.split)
  have "uuids_ok (newUuid E 1) (newUuid E 2) (st_Deployments s) (Some ?d)"
    using fresh_uuidsD [OF assms(2)] store_inv_distinct [OF assms(1)]
    by (intro uuids_ok_fresh(3)) (simp_all add: u)
  with assms(1) show ?thesis
    unfolding NewDeployment_def Let_def snd_conv store_inv_def [of _ s]
    by (intro store_inv_Commit store_inv_update) auto
qed

lemma change_deployment_inv:
  assumes "store_inv (Marshal E) s" and "fresh_uuids E (st_persisted s)"
    and f: "\<And>d. d_Uuid (f d) = d_Uuid d"
    and c: "change_deployment E f ev u bp sp s = Inr (d, t)"
  shows "store_inv (Marshal E) t"
proof -
  let ?ds = "deploymentPut u f (st_Deployments s)"
  let ?s1 = "s\<lparr>st_persisted := (st_persisted s)\<lparr>ps_Deployments := ?ds\<rparr>\<rparr>"
  obtain d0 where d0: "deploymentGet u (st_Deployments s) = Some d0" and d: "d = f d0"
    and t: "t = updateDataDeployments E (newUuid E 0) (newUuid E 1) bp sp (Some d)
      (publish (ev d) (clk E 1) ?s1)"
    using c by (auto simp: change_deployment_def Let_def split: option.splits)
  have "deploymentGet u ?ds = Some d" using d0 d by (simp add: dpl_table.get_put_same f)
  then have mem: "d \<in> set ?ds" by (rule dpl_table.get_member)
  have keys: "map d_Uuid ?ds = map d_Uuid (st_Deployments s)" by (rule dpl_table.put_keys) (rule f)
  then have set_keys: "d_Uuid ` set ?ds = d_Uuid ` set (st_Deployments s)" by (metis set_map)
  have "uuids_ok (newUuid E 0) (newUuid E 1) ?ds (Some d)"
    using fresh_uuidsD [OF assms(2)] store_inv_distinct [OF assms(1)] mem set_keys keys
    by (intro uuids_ok_fresh(2)) simp_all
  moreover have "generations_inv (publish (ev d) (clk E 1) ?s1)"
    using assms(1) by (simp add: store_inv_def generations_inv_def)
  moreover have "file_wf (Marshal E) (publish (ev d) (clk E 1) ?s1)"
    using assms(1) by (simp add: store_inv_def file_wf_def)
  ultimately show ?thesis unfolding t by (intro store_inv_update) simp_all
qed

lemma migrate_uuid [simp]: "g_Uuid (migrate_generation g) = g_Uuid g"
  by (simp add: migrate_generation_def)

lemma migrate_wf:
  "deployments_wf (st_persisted (migrateGenerationsToSource s)) = deployments_wf (st_persisted s)"
  "generations_inv (migrateGenerationsToSource s) = generations_inv s"
  "st_file (migrateGenerationsToSource s) = st_file s"
  by (simp_all add: migrateGenerationsToSource_def deployments_wf_def list_uuids_def capacity_bound_def
      generations_inv_def sorted_wrt_map comp_def image_image)

lemma ensure_deployment_frames [simp]:
  "st_Generations (ensure_deployment u op p s) = st_Generations s"
  "last_uuids (ensure_deployment u op p s) = last_uuids s"
  "st_file (ensure_deployment u op p s) = st_file s"
  "set (map d_Uuid (st_Deployments (ensure_deployment u op p s))) \<subseteq>
     insert u (d_Uuid ` set (st_Deployments s))"
  by (auto simp: ensure_deployment_def dummy_load_def)

lemma ensure_deployment_distinct:
  "distinct (map d_Uuid (st_Deployments s)) \<Longrightarrow> u \<notin> d_Uuid ` set (st_Deployments s) \<Longrightarrow>
     distinct (map d_Uuid (st_Deployments (ensure_deployment u op p s)))"
  by (simp add: ensure_deployment_def dummy_load_def)

text \<open>The result of \<open>Load\<close> in terms of the message read from the file.\<close>

lemma Load_cases:
  assumes "Load E s = Inr t"
  obtains p s1 where "read_store E s = Inr p"
    and "st_Deployments s1 = ps_Deployments p" and "st_Generations s1 = ps_Generations p"
    and "st_file s1 = st_file s" and "last_uuids s1 = last_uuids s"
    and "capacity_bound (st_persisted s1) = capacity_bound (st_persisted s)"
    and "t = migrateGenerationsToSource (updateDataDeployments E (newUuid E 2) (newUuid E 3)
        (fst (GetBootedAndCurrentStorepaths E)) (snd (GetBootedAndCurrentStorepaths E)) None
        (ensure_deployment (newUuid E 1) OperationSwitch (snd (GetBootedAndCurrentStorepaths E))
          (ensure_deployment (newUuid E 0) OperationBoot (fst (GetBootedAndCurrentStorepaths E)) s1)))"
proof -
  obtain p where p: "read_store E s = Inr p"
    using assms by (auto simp: Load_def split: sum.splits)
  let ?caps = "p\<lparr>ps_DeploymentAnyCapacity := ps_DeploymentAnyCapacity (st_persisted s),
      ps_DeploymentBootEntryCapacity := ps_DeploymentBootEntryCapacity (st_persisted s),
      ps_DeploymentSuccessfulCapacity := ps_DeploymentSuccessfulCapacity (st_persisted s)\<rparr>"
  let ?s1 = "s\<lparr>st_persisted := ?caps\<lparr>ps_Deployer :=
      (case ps_Deployer ?caps of None \<Rightarrow> Some DeployerState0 | Some d \<Rightarrow> Some d)\<rparr>\<rparr>"
  show thesis
    by (rule that [of p ?s1])
      (use assms p in \<open>simp_all add: Load_def Let_def capacity_bound_def split: prod.splits\<close>)
qed

lemma Load_inv:
  assumes "Load E s = Inr t" and "read_store E s = Inr p" and "pstore_wf p" and "fresh_uuids E p"
    and "file_wf (Marshal E) s" and "last_uuids s = {}"
  shows "store_inv (Marshal E) t"
  using assms(1)
proof (rule Load_cases)
  fix p' s1
  let ?b = "fst (GetBootedAndCurrentStorepaths E)" and ?c = "snd (GetBootedAndCurrentStorepaths E)"
  let ?s2 = "ensure_deployment (newUuid E 0) OperationBoot ?b s1"
  let ?s3 = "ensure_deployment (newUuid E 1) OperationSwitch ?c ?s2"
  assume r: "read_store E s = Inr p'" and s1: "st_Deployments s1 = ps_Deployments p'"
    "st_Generations s1 = ps_Generations p'" "st_file s1 = st_file s" "last_uuids s1 = last_uuids s"
    and t: "t = migrateGenerationsToSource
      (updateDataDeployments E (newUuid E 2) (newUuid E 3) ?b ?c None ?s3)"
  have [simp]: "p' = p" using r assms(2) by simp
  note f = fresh_uuidsD [OF assms(4)]
  have d1: "distinct (map d_Uuid (st_Deployments s1))"
    using assms(3) by (simp add: s1 pstore_wf_def deployments_wf_def)
  have sub2: "d_Uuid ` set (st_Deployments ?s2) \<subseteq> insert (newUuid E 0) (d_Uuid ` set (ps_Deployments p))"
    using ensure_deployment_frames(4) [of "newUuid E 0" OperationBoot ?b s1] by (simp add: s1)
  have d2: "distinct (map d_Uuid (st_Deployments ?s2))"
    by (rule ensure_deployment_distinct [OF d1]) (simp add: s1 f)
  have sub3: "d_Uuid ` set (st_Deployments ?s3) \<subseteq>
      {newUuid E 0, newUuid E 1} \<union> d_Uuid ` set (ps_Deployments p)"
    using ensure_deployment_frames(4) [of "newUuid E 1" OperationSwitch ?c ?s2] sub2 by auto
  have d3: "distinct (map d_Uuid (st_Deployments ?s3))"
    by (rule ensure_deployment_distinct [OF d2], rule contra_subsetD [OF sub2]) (simp add: f)
  have "uuids_ok (newUuid E 2) (newUuid E 3) (st_Deployments ?s3) None"
    using contra_subsetD [OF sub3, of "newUuid E 2"] contra_subsetD [OF sub3, of "newUuid E 3"]
    by (intro uuids_ok_fresh(1) [OF d3]) (simp_all add: f)
  moreover have "generations_inv ?s3" "file_wf (Marshal E) ?s3"
    using assms(3,5,6) s1 by (simp_all add: generations_inv_def pstore_wf_def file_wf_def)
  ultimately have "store_inv (Marshal E)
      (updateDataDeployments E (newUuid E 2) (newUuid E 3) ?b ?c None ?s3)"
    by (rule store_inv_update)
  then show ?thesis by (simp add: store_inv_def t migrate_wf file_wf_def)
qed

section \<open>The store as a transition system\<close>

text \<open>
  Every operation that changes the store is a step, and so is a restart of comin, which creates
  the store anew with the configured capacities and loads the state file. \<open>M\<close> and \<open>U\<close> are the JSON
  codec; everything else of the environment is arbitrary in every step.
\<close>

inductive store_step ::
  "(PStore \<Rightarrow> string option) \<Rightarrow> (string \<Rightarrow> PStore option) \<Rightarrow> store \<Rightarrow> store \<Rightarrow> bool"
  for M :: "PStore \<Rightarrow> string option" and U :: "string \<Rightarrow> PStore option" where
  step_NewGeneration: "Marshal E = M \<Longrightarrow> fresh_uuids E (st_persisted s) \<Longrightarrow>
    NewGeneration E h d a rs s = (g, t) \<Longrightarrow> store_step M U s t"
| step_EvalStarted: "Marshal E = M \<Longrightarrow> GenerationEvalStarted E u s = Inr t \<Longrightarrow> store_step M U s t"
| step_EvalFinished: "Marshal E = M \<Longrightarrow> GenerationEvalFinished E u dp op m err s = Inr t \<Longrightarrow>
    store_step M U s t"
| step_BuildStart: "Marshal E = M \<Longrightarrow> GenerationBuildStart E u r s = Inr t \<Longrightarrow> store_step M U s t"
| step_BuildFinished: "Marshal E = M \<Longrightarrow> GenerationBuildFinished E u err s = Inr t \<Longrightarrow>
    store_step M U s t"
| step_DeployerUpdate: "Marshal E = M \<Longrightarrow> t = DeployerUpdate E ds s \<Longrightarrow> store_step M U s t"
| step_NewDeployment: "Marshal E = M \<Longrightarrow> fresh_uuids E (st_persisted s) \<Longrightarrow>
    NewDeployment E gen op r bp sp s = (dpl, t) \<Longrightarrow> store_step M U s t"
| step_DeploymentStarted: "Marshal E = M \<Longrightarrow> fresh_uuids E (st_persisted s) \<Longrightarrow>
    DeploymentStarted E u bp sp s = Inr (dpl, t) \<Longrightarrow> store_step M U s t"
| step_DeploymentFinished: "Marshal E = M \<Longrightarrow> fresh_uuids E (st_persisted s) \<Longrightarrow>
    DeploymentFinished E u err restart prof bp sp s = Inr (dpl, t) \<Longrightarrow> store_step M U s t"
| step_restart: "Marshal E = M \<Longrightarrow> Unmarshal E = U \<Longrightarrow>
    store_New E (st_file s) (st_gcRoot s) b c a = Inr s0 \<Longrightarrow> read_store E s0 = Inr p \<Longrightarrow>
    fresh_uuids E p \<Longrightarrow> Load E s0 = Inr t \<Longrightarrow> store_step M U s t"

text \<open>The first start: there is no state file yet.\<close>

definition store_init :: "store \<Rightarrow> bool" where
  "store_init s \<longleftrightarrow> (\<exists>E gcRoot b c a. store_New E None gcRoot b c a = Inr s)"

lemma PStore0_wf: "pstore_wf PStore0"
  by (simp add: pstore_wf_def deployments_wf_def PStore0_def list_uuids_def)

lemma store_New_frames:
  assumes "store_New E file gcRoot b c a = Inr s"
  shows "st_file s = file" "last_uuids s = {}" "st_Generations s = []" "st_Deployments s = []"
    "deployments_wf (st_persisted s)"
  using assms by (auto simp: store_New_def last_uuids_def PStore0_def deployments_wf_def list_uuids_def
      split: if_splits)

lemma read_store_wf:
  assumes "read_store E s = Inr p" and "file_wf (Marshal E) s" and "codec_ok (Marshal E) (Unmarshal E)"
  shows "pstore_wf p"
  using assms PStore0_wf
  by (fastforce simp: read_store_def file_wf_def codec_ok_def split: option.splits)

lemma deployment_update_uuid [simp]:
  "d_Uuid (deployment_started E d) = d_Uuid d"
  "d_Uuid (deployment_finished E err restart prof d) = d_Uuid d"
  by (simp_all add: deployment_started_def deployment_finished_def split: option.split)

lemma store_step_inv:
  assumes "codec_ok M U" and "store_step M U s t" and "store_inv M s"
  shows "store_inv M t"
  using assms(2,3)
proof (cases rule: store_step.cases)
  case step_NewDeployment
  with NewDeployment_inv assms(3) show ?thesis by (metis snd_conv)
next
  case (step_DeploymentStarted E)
  with change_deployment_inv [of E s "deployment_started E"] assms(3) show ?thesis
    by (simp add: DeploymentStarted_def)
next
  case (step_DeploymentFinished E u err restart prof)
  with change_deployment_inv [of E s "deployment_finished E err restart prof"] assms(3) show ?thesis
    by (simp add: DeploymentFinished_def)
next
  case (step_DeployerUpdate E ds)
  have "store_inv M (s\<lparr>st_persisted := (st_persisted s)\<lparr>ps_Deployer := Some ds\<rparr>\<rparr>)"
    using assms(3) by (simp add: store_inv_def generations_inv_def file_wf_def)
  with step_DeployerUpdate store_inv_Commit show ?thesis by (auto simp: DeployerUpdate_def)
next
  case (step_restart E b c a s0 p)
  have "file_wf (Marshal E) s0"
    using step_restart assms(3) store_New_frames(1) by (auto simp: store_inv_def file_wf_def)
  moreover have "pstore_wf p"
    using read_store_wf [OF step_restart(4) calculation] assms(1) step_restart by simp
  ultimately show ?thesis
    using Load_inv [OF step_restart(6,4)] step_restart store_New_frames(2) by blast
next
  case step_NewGeneration
  with generation_ops_inv(5) [OF assms(3)] fresh_uuidsD(3) show ?thesis by metis
qed (use generation_ops_inv(1-4) [OF assms(3)] in \<open>blast+\<close>)

lemma store_init_inv: "store_init s \<Longrightarrow> store_inv M s"
  using store_New_frames by (fastforce simp: store_init_def store_inv_def generations_inv_def file_wf_def)

end
