(* ===== verification/Store_Correct.thy ===== *)
theory Store_Correct
  imports Store
begin

text \<open>
  What the store promises to the rest of comin: the invariant of all its reachable states, over
  restarts; the running systems stay in the history; the life cycle of generations and
  deployments; the content after a restart.
\<close>

section \<open>Reachable states\<close>

interpretation store_runs: invariant_of store_init "store_step M U"
  "\<lambda>s. codec_ok M U \<longrightarrow> store_inv M s" for M U
  by unfold_locales (auto intro: store_init_inv store_step_inv)

text \<open>An environment for examples: UUIDs of growing length, a clock at a given time.\<close>

definition example_env :: "time \<Rightarrow> nat \<Rightarrow> env" where
  "example_env now used = \<lparr>clk = (\<lambda>_. now), newUuid = (\<lambda>i. replicate (used + i) (CHR ''u'')),
     Marshal = (\<lambda>_. None), Unmarshal = (\<lambda>_. None), MkdirOk = True, WriteFileOk = True,
     ReadFileErr = None, RemoveOk = True, SymlinkOk = True, BootedLink = Some ''st1'',
     CurrentLink = Some ''st2'', SwitchInhibitors = (\<lambda>_. Missing)\<rparr>"

lemma example_env_simps [simp]:
  "clk (example_env now n) = (\<lambda>_. now)"
  "newUuid (example_env now n) 0 = replicate n (CHR ''u'')"
  "newUuid (example_env now n) (Suc i) = newUuid (example_env now (Suc n)) i"
  "Marshal (example_env now n) = (\<lambda>_. None)" "MkdirOk (example_env now n)"
  "Unmarshal (example_env now n) = (\<lambda>_. None)"
  "ReadFileErr (example_env now n) = None" "BootedLink (example_env now n) = Some ''st1''"
  "CurrentLink (example_env now n) = Some ''st2''" "RemoveOk (example_env now n)"
  "SymlinkOk (example_env now n)" "WriteFileOk (example_env now n)"
  "SwitchInhibitors (example_env now n) = (\<lambda>_. Missing)"
  by (simp_all add: example_env_def)

lemma example_uuids [simp]:
  "newUuid (example_env now n) 1 = replicate (Suc n) (CHR ''u'')"
  "newUuid (example_env now n) 2 = replicate (Suc (Suc n)) (CHR ''u'')"
  "newUuid (example_env now n) 3 = replicate (Suc (Suc (Suc n))) (CHR ''u'')"
  by (simp_all add: example_env_def numeral_2_eq_2 numeral_3_eq_3)

lemma example_env_fresh:
  assumes "\<forall>u \<in> d_Uuid ` set (ps_Deployments p) \<union> g_Uuid ` set (ps_Generations p). length u < n"
  shows "fresh_uuids (example_env now n) p"
proof -
  have new: "newUuid (example_env now n) = (\<lambda>i. replicate (n + i) (CHR ''u''))"
    by (simp add: example_env_def)
  have "inj (newUuid (example_env now n))" by (auto simp: new inj_def)
  moreover have "u \<notin> range (newUuid (example_env now n))" if "length u < n" for u
    using that by (auto simp: new)
  ultimately show ?thesis using assms unfolding fresh_uuids_def by blast
qed

definition example_new :: store where
  "example_new = (case store_New (example_env 0 0) None None 3 3 3 of Inr s \<Rightarrow> s)"

definition example_store :: store where
  "example_store = (case Load (example_env 0 1) example_new of Inr s \<Rightarrow> s)"

lemmas store_simps = example_new_def store_New_def PStore0_def to_int32_def Load_def
  example_store_def read_store_def GetBootedAndCurrentStorepaths_def ensure_deployment_def
  GetDeploymentByOutpath_def dummy_load_def operation_defs Let_def updateDataDeployments_def
  example_simps migrateGenerationsToSource_def Commit_def migrate_generation_def has_old_fields_def

lemma example_new_eq:
  "store_New (example_env 0 0) None None 3 3 3 = Inr example_new" "st_file example_new = None"
  "st_gcRoot example_new = None" "read_store (example_env now n) example_new = Inr PStore0"
  by (simp_all add: store_simps)

lemma Load_ok: "read_store E s = Inr p \<Longrightarrow> \<exists>t. Load E s = Inr t"
  by (simp add: Load_def Let_def split: prod.split)

lemma example_store_Load: "Load (example_env 0 1) example_new = Inr example_store"
  using Load_ok [OF example_new_eq(4), of 0 1] unfolding example_store_def by force

text \<open>The parts of a store the examples look at, as one value.\<close>

definition store_view :: "store \<Rightarrow> (uuid \<times> string \<times> string \<times> timestamp) list \<times> uuid list \<times> string option \<times> int" where
  "store_view s = (map (\<lambda>d. (d_Uuid d, d_OutPath d, d_Status d, d_CreatedAt d)) (st_Deployments s),
     map g_Uuid (st_Generations s), st_gcRoot s, ps_DeploymentAnyCapacity (st_persisted s))"

lemma example_store_view:
  "store_view example_store =
     ([(''u'', ''st1'', ''done'', None), (''uu'', ''st2'', ''done'', None)], [], None, 3)"
  by code_simp

lemma example_codec: "codec_ok (\<lambda>_. None) U"
  by (simp add: codec_ok_def)

lemma example_store_reachable:
  "reachable store_init (store_step (\<lambda>_. None) (\<lambda>_. None)) example_store"
proof (rule reachable_step)
  show "reachable store_init (store_step (\<lambda>_. None) (\<lambda>_. None)) example_new"
    by (rule reachable_init) (unfold store_init_def, intro exI, rule example_new_eq(1))
  have "store_New (example_env 0 1) (st_file example_new) (st_gcRoot example_new) 3 3 3 =
      Inr example_new"
    using example_new_eq(1-3) by (simp add: store_New_def)
  moreover have "fresh_uuids (example_env 0 1) PStore0"
    by (rule example_env_fresh) (simp add: PStore0_def)
  ultimately show "store_step (\<lambda>_. None) (\<lambda>_. None) example_new example_store"
    by (intro step_restart [OF _ _ _ example_new_eq(4) _ example_store_Load]) simp_all
qed

text \<open>
  Property C4. In every state the store reaches, whatever operations and restarts happened before,
  the invariant holds: generations and deployments have pairwise different UUIDs; the last
  evaluated and built generations are in the list; the deployments are ordered from newest to
  oldest and are never more than the configured capacities plus two; every UUID in the booted,
  switched, boot entry, successful and plain lists denotes a stored deployment; and the state file
  is missing or holds a state with the same guarantees.
\<close>

theorem store_reachable_inv:
  assumes "codec_ok M U" and "reachable store_init (store_step M U) s"
  shows "store_inv M s"
  using store_runs.reachable_inv [OF assms(2)] assms(1) by simp

theorem store_reachable_inv_witness:
  "store_view example_store =
     ([(''u'', ''st1'', ''done'', None), (''uu'', ''st2'', ''done'', None)], [], None, 3) \<and>
   store_inv (\<lambda>_. None) example_store"
  using store_reachable_inv [OF example_codec example_store_reachable] example_store_view by simp

section \<open>The running systems\<close>

lemma updateDataDeployments_running:
  "ps_DeploymentBooted (st_persisted (updateDataDeployments E ub us bp sp new s)) =
     d_Uuid (r_booted (retention ub us (st_Deployments s) new bp sp
       (ps_DeploymentBootEntryCapacity (st_persisted s))
       (ps_DeploymentSuccessfulCapacity (st_persisted s)) (ps_DeploymentAnyCapacity (st_persisted s))))"
  "ps_DeploymentSwitched (st_persisted (updateDataDeployments E ub us bp sp new s)) =
     d_Uuid (r_current (retention ub us (st_Deployments s) new bp sp
       (ps_DeploymentBootEntryCapacity (st_persisted s))
       (ps_DeploymentSuccessfulCapacity (st_persisted s)) (ps_DeploymentAnyCapacity (st_persisted s))))"
  by (simp_all add: updateDataDeployments_def Let_def)



section \<open>The life cycle of a deployment\<close>

text \<open>\<open>newest d s\<close>: the stored deployment \<open>d\<close> is newer than all others.\<close>

definition newest :: "Deployment \<Rightarrow> store \<Rightarrow> bool" where
  "newest d s \<longleftrightarrow> d \<in> set (st_Deployments s) \<and> 0 < AsTime (d_CreatedAt d) \<and>
     (\<forall>x \<in> set (st_Deployments s). x \<noteq> d \<longrightarrow> AsTime (d_CreatedAt x) < AsTime (d_CreatedAt d))"

lemma capacities_frame [simp]:
  "ps_DeploymentAnyCapacity (st_persisted (updateDataDeployments E ub us bp sp new s)) =
     ps_DeploymentAnyCapacity (st_persisted s)"
  by (simp add: updateDataDeployments_def Let_def)

lemma updateDataDeployments_newest:
  assumes "uuids_ok ub us (st_Deployments s) (Some d)" and "1 \<le> ps_DeploymentAnyCapacity (st_persisted s)"
    and "0 < AsTime (d_CreatedAt d)"
    and "\<forall>x \<in> set (st_Deployments s). x \<noteq> d \<longrightarrow> AsTime (d_CreatedAt x) < AsTime (d_CreatedAt d)"
  shows "newest d (updateDataDeployments E ub us bp sp (Some d) s)"
proof -
  let ?r = "st_Deployments (updateDataDeployments E ub us bp sp (Some d) s)"
  have w: "with_new (st_Deployments s) (Some d) = st_Deployments s @ [d]" by (simp add: with_new_def)
  have "d \<in> set ?r"
    unfolding updateDataDeployments_retention
    by (rule retention_keeps_newest [OF assms(1,2) _ assms(3)]) (use assms(4) in \<open>auto simp: w\<close>)
  moreover have sub: "set ?r \<subseteq> set (st_Deployments s @ [d]) \<union> {dummy_booted ub bp, dummy_switched us sp}"
    using retention_result_wellformed [OF assms(1)] by (simp add: updateDataDeployments_retention w)
  have "AsTime (d_CreatedAt x) < AsTime (d_CreatedAt d)" if "x \<in> set ?r" "x \<noteq> d" for x
  proof -
    from that sub have "x \<in> set (st_Deployments s) \<or> x = dummy_booted ub bp \<or> x = dummy_switched us sp"
      by (auto dest: subsetD)
    with assms(3,4) that(2) show ?thesis by auto
  qed
  ultimately show ?thesis using assms(3) by (simp add: newest_def)
qed

lemma new_deployment_simps [simp]:
  "d_Uuid (new_deployment E g op r sp) = newUuid E 0"
  "d_CreatedAt (new_deployment E g op r sp) = Some (clk E 0)"
  "d_Generation (new_deployment E g op r sp) = g"
  by (simp_all add: new_deployment_def Let_def split: prod.split)

lemma NewDeployment_newest:
  assumes "store_inv (Marshal E) s" and "fresh_uuids E (st_persisted s)"
    and "1 \<le> ps_DeploymentAnyCapacity (st_persisted s)"
    and "0 < clk E 0" and "\<forall>x \<in> set (st_Deployments s). AsTime (d_CreatedAt x) < clk E 0"
    and "NewDeployment E g op r bp sp s = (d, t)"
  shows "newest d t" and "ps_DeploymentAnyCapacity (st_persisted t) = ps_DeploymentAnyCapacity (st_persisted s)"
    and "d = new_deployment E g op r sp"
proof -
  show d: "d = new_deployment E g op r sp"
    using assms(6) by (simp add: NewDeployment_def Let_def)
  have t: "st_persisted t = st_persisted (updateDataDeployments E (newUuid E 1) (newUuid E 2) bp sp (Some d) s)"
  proof -
    have "t = snd (NewDeployment E g op r bp sp s)" using assms(6) by simp
    then show ?thesis by (simp add: NewDeployment_def Let_def d)
  qed
  then show "ps_DeploymentAnyCapacity (st_persisted t) = ps_DeploymentAnyCapacity (st_persisted s)" by simp
  have "uuids_ok (newUuid E 1) (newUuid E 2) (st_Deployments s) (Some d)"
    using fresh_uuidsD [OF assms(2)] store_inv_distinct [OF assms(1)]
    by (intro uuids_ok_fresh(3)) (simp_all add: d)
  then have "newest d (updateDataDeployments E (newUuid E 1) (newUuid E 2) bp sp (Some d) s)"
    using assms(3-5) by (intro updateDataDeployments_newest) (simp_all add: d)
  then show "newest d t" by (simp add: newest_def t)
qed

text \<open>An update of the newest deployment succeeds and leaves it the newest one.\<close>

lemma change_deployment_newest:
  assumes "store_inv (Marshal E) s" and "fresh_uuids E (st_persisted s)"
    and "1 \<le> ps_DeploymentAnyCapacity (st_persisted s)" and "newest d s"
    and f: "\<And>d. d_Uuid (f d) = d_Uuid d" "\<And>d. d_CreatedAt (f d) = d_CreatedAt d"
  obtains t where "change_deployment E f ev (d_Uuid d) bp sp s = Inr (f d, t)" and "newest (f d) t"
    and "ps_DeploymentAnyCapacity (st_persisted t) = ps_DeploymentAnyCapacity (st_persisted s)"
    and "store_inv (Marshal E) t"
proof -
  let ?ds = "deploymentPut (d_Uuid d) f (st_Deployments s)"
  let ?s1 = "s\<lparr>st_persisted := (st_persisted s)\<lparr>ps_Deployments := ?ds\<rparr>\<rparr>"
  let ?s2 = "publish (ev (f d)) (clk E 1) ?s1"
  let ?t = "updateDataDeployments E (newUuid E 0) (newUuid E 1) bp sp (Some (f d)) ?s2"
  have dist: "distinct (map d_Uuid (st_Deployments s))" using assms(1) by (rule store_inv_distinct)
  have mem: "d \<in> set (st_Deployments s)" using assms(4) by (simp add: newest_def)
  have get: "deploymentGet (d_Uuid d) (st_Deployments s) = Some d"
    using dist mem by (rule dpl_table.get_distinct)
  have c: "change_deployment E f ev (d_Uuid d) bp sp s = Inr (f d, ?t)"
    by (simp add: change_deployment_def get Let_def)
  have keys: "map d_Uuid ?ds = map d_Uuid (st_Deployments s)" by (rule dpl_table.put_keys) (rule f)
  then have set_keys: "d_Uuid ` set ?ds = d_Uuid ` set (st_Deployments s)" by (metis set_map)
  have "f d \<in> set ?ds"
    using dpl_table.get_member [of "d_Uuid d" ?ds] by (simp add: dpl_table.get_put_same f get)
  then have ok: "uuids_ok (newUuid E 0) (newUuid E 1) ?ds (Some (f d))"
    using fresh_uuidsD [OF assms(2)] dist set_keys keys by (intro uuids_ok_fresh(2)) simp_all
  have other: "x \<in> set (st_Deployments s) \<and> x \<noteq> d" if "x \<in> set ?ds" "x \<noteq> f d" for x
  proof -
    have "d_Uuid x \<noteq> d_Uuid d"
      using that \<open>f d \<in> set ?ds\<close> dist keys f(1) by (metis distinct_map inj_onD)
    with dpl_table.put_set_other [OF that(1)] f(1) show ?thesis by force
  qed
  have "newest (f d) ?t"
    by (rule updateDataDeployments_newest) (use ok assms(3,4) f other in \<open>auto simp: newest_def\<close>)
  with c show thesis
    using that change_deployment_inv [OF assms(1,2) f(1) c] by simp
qed

lemma newest_get:
  "store_inv M s \<Longrightarrow> newest d s \<Longrightarrow> GetDeployment (d_Uuid d) s = Inr d"
  using dpl_table.get_distinct [OF store_inv_distinct] by (simp add: newest_def GetDeployment_def)

lemma deployment_update_frames [simp]:
  "d_CreatedAt (deployment_started E d) = d_CreatedAt d"
  "d_CreatedAt (deployment_finished E err restart prof d) = d_CreatedAt d"
  by (simp_all add: deployment_started_def deployment_finished_def split: option.split)

text \<open>
  Property C26. The life cycle of a deployment: when the clock moved past the stored deployments, a
  deployment that is created, started and finished is found at every step. After the start its
  status is running; after the end the store returns it under its UUID with the status done or
  failed, the error, the end date, the restart flag and the profile path of the outcome, the
  generation and the operation of its creation.
\<close>

theorem deployment_lifecycle:
  assumes "store_inv (Marshal E) s" and "Marshal E' = Marshal E" and "Marshal E'' = Marshal E"
    and "1 \<le> ps_DeploymentAnyCapacity (st_persisted s)"
    and "0 < clk E 0" and "\<forall>x \<in> set (st_Deployments s). AsTime (d_CreatedAt x) < clk E 0"
    and "fresh_uuids E (st_persisted s)"
    and "fresh_uuids E' (st_persisted (snd (NewDeployment E g op r bp sp s)))"
    and "\<forall>d t. DeploymentStarted E' (newUuid E 0) bp sp (snd (NewDeployment E g op r bp sp s)) = Inr (d, t) \<longrightarrow>
           fresh_uuids E'' (st_persisted t)"
  shows "\<exists>d1 t1 d2 t2.
    DeploymentStarted E' (newUuid E 0) bp sp (snd (NewDeployment E g op r bp sp s)) = Inr (d1, t1) \<and>
    d_Status d1 = ''running'' \<and>
    DeploymentFinished E'' (newUuid E 0) err restart prof bp sp t1 = Inr (d2, t2) \<and>
    GetDeployment (newUuid E 0) t2 = Inr d2 \<and>
    d_Status d2 = (if err = None then ''done'' else ''failed'') \<and>
    d_ErrorMsg d2 = (case err of None \<Rightarrow> [] | Some e \<Rightarrow> e) \<and>
    d_EndedAt d2 = Some (clk E'' 0) \<and> d_RestartComin d2 = Some restart \<and> d_ProfilePath d2 = prof \<and>
    d_Generation d2 = g \<and>
    d_Operation d2 = fst (computeOperation op (loadInhibitors E sp) (loadInhibitors E (g_OutPath g)))"
proof -
  define t0 where "t0 = snd (NewDeployment E g op r bp sp s)"
  let ?d = "new_deployment E g op r sp"
  let ?d1 = "deployment_started E' ?d"
  let ?d2 = "deployment_finished E'' err restart prof ?d1"
  have nd: "NewDeployment E g op r bp sp s = (?d, t0)"
    by (simp add: t0_def NewDeployment_def Let_def)
  note n0 = NewDeployment_newest [OF assms(1,7,4-6) nd]
  have inv0: "store_inv (Marshal E') t0"
    using NewDeployment_inv [OF assms(1,7)] assms(2) by (simp add: t0_def)
  have cap0: "1 \<le> ps_DeploymentAnyCapacity (st_persisted t0)" using n0(2) assms(4) by simp
  obtain t1 where t1: "DeploymentStarted E' (newUuid E 0) bp sp t0 = Inr (?d1, t1)" "newest ?d1 t1"
    "1 \<le> ps_DeploymentAnyCapacity (st_persisted t1)" "store_inv (Marshal E'') t1"
    using change_deployment_newest [OF inv0 assms(8) [folded t0_def] cap0 n0(1),
        of "deployment_started E'" Event_DeploymentStarted bp sp] assms(2,3) cap0
    unfolding DeploymentStarted_def by (metis deployment_update_frames(1) deployment_update_uuid(1)
        new_deployment_simps(1))
  have fresh: "fresh_uuids E'' (st_persisted t1)" using assms(9) t1(1) by (simp add: t0_def)
  obtain t2 where t2: "DeploymentFinished E'' (newUuid E 0) err restart prof bp sp t1 = Inr (?d2, t2)"
    "newest ?d2 t2" "store_inv (Marshal E'') t2"
    using change_deployment_newest [OF t1(4) fresh t1(3,2),
        of "deployment_finished E'' err restart prof" Event_DeploymentFinished bp sp]
    unfolding DeploymentFinished_def by (metis deployment_update_frames(2) deployment_update_uuid
        new_deployment_simps(1))
  have "GetDeployment (newUuid E 0) t2 = Inr ?d2"
    using newest_get [OF t2(3,2)] by simp
  with t1(1) t2(1) show ?thesis
    unfolding t0_def [symmetric]
    by (auto simp: deployment_started_def deployment_finished_def new_deployment_def Let_def
        Deployment0_def split: option.split prod.split)
qed

lemma example_fresh_view:
  assumes "store_view t = (ds, gs, r, c)" and "\<forall>u \<in> fst ` set ds \<union> set gs. length u < n"
  shows "fresh_uuids (example_env now n) (st_persisted t)"
  by (rule example_env_fresh) (use assms in \<open>auto simp: store_view_def image_image\<close>)

lemma example_store_inv: "store_inv (\<lambda>_. None) example_store"
  using store_runs.reachable_inv [OF example_store_reachable] example_codec by simp

definition example_gen :: Generation where
  "example_gen = Generation0\<lparr>g_Uuid := ''g'', g_OutPath := ''st3''\<rparr>"

definition example_created :: store where
  "example_created = snd (NewDeployment (example_env 5 9) example_gen ''switch'' ''why'' ''st1'' ''st2'' example_store)"

lemma example_created_view:
  "store_view example_created =
     ([(replicate 9 (CHR ''u''), ''st3'', ''init'', Some 5), (''u'', ''st1'', ''done'', None),
       (''uu'', ''st2'', ''done'', None)], [], None, 3)"
  by code_simp

lemma example_started_view:
  "(case DeploymentStarted (example_env 6 20) (replicate 9 (CHR ''u'')) ''st1'' ''st2'' example_created of
      Inl e \<Rightarrow> None | Inr (d, t) \<Rightarrow> Some (store_view t)) =
   Some ([(replicate 9 (CHR ''u''), ''st3'', ''running'', Some 5), (''u'', ''st1'', ''done'', None),
          (''uu'', ''st2'', ''done'', None)], [], None, 3)"
  by code_simp

theorem deployment_lifecycle_witness:
  "\<exists>d1 t1 d2 t2.
    DeploymentStarted (example_env 6 20) (newUuid (example_env 5 9) 0) ''st1'' ''st2'' example_created =
      Inr (d1, t1) \<and>
    DeploymentFinished (example_env 7 30) (newUuid (example_env 5 9) 0) (Some ''boom'') False ''prof''
      ''st1'' ''st2'' t1 = Inr (d2, t2) \<and>
    d_Status d2 = ''failed'' \<and> d_ErrorMsg d2 = ''boom''"
proof -
  have "\<forall>x \<in> set (st_Deployments example_store). d_CreatedAt x = None"
    using arg_cong [OF example_store_view, of "map (snd \<circ> snd \<circ> snd) \<circ> fst"]
    by (auto simp: store_view_def comp_def map_eq_Cons_conv)
  then have created: "\<forall>x \<in> set (st_Deployments example_store). AsTime (d_CreatedAt x) < clk (example_env 5 9) 0"
    by auto
  have cap: "1 \<le> ps_DeploymentAnyCapacity (st_persisted example_store)"
    using example_store_view by (simp add: store_view_def)
  have inv: "store_inv (Marshal (example_env 5 9)) example_store" using example_store_inv by simp
  have f0: "fresh_uuids (example_env 5 9) (st_persisted example_store)"
    by (rule example_fresh_view [OF example_store_view]) simp
  have f1: "fresh_uuids (example_env 6 20) (st_persisted example_created)"
    by (rule example_fresh_view [OF example_created_view]) simp
  have f2: "\<forall>d t. DeploymentStarted (example_env 6 20) (newUuid (example_env 5 9) 0) ''st1'' ''st2''
      example_created = Inr (d, t) \<longrightarrow> fresh_uuids (example_env 7 30) (st_persisted t)"
  proof (intro allI impI)
    fix d t
    assume "DeploymentStarted (example_env 6 20) (newUuid (example_env 5 9) 0) ''st1'' ''st2''
      example_created = Inr (d, t)"
    with example_started_view have "store_view t =
        ([(replicate 9 (CHR ''u''), ''st3'', ''running'', Some 5), (''u'', ''st1'', ''done'', None),
          (''uu'', ''st2'', ''done'', None)], [], None, 3)" by simp
    then show "fresh_uuids (example_env 7 30) (st_persisted t)" by (rule example_fresh_view) simp
  qed
  show ?thesis
    using deployment_lifecycle [OF inv _ _ cap _ created f0 f1 [unfolded example_created_def]
        f2 [unfolded example_created_def], of "Some ''boom''" False "''prof''"]
    unfolding example_created_def by force
qed

section \<open>Configuration and restart\<close>

lemma to_int32_eq: "1 \<le> n \<Longrightarrow> to_int32 n = n \<longleftrightarrow> n < 2 ^ 31"
  using to_int32_id [of n] to_int32_range [of n] by auto

text \<open>
  Property C39. A store is only created with three capacities of at least one. They are stored as
  32-bit integers, so the stored capacities are the configured ones exactly when these are below
  \<open>2 ^ 31\<close>; a larger value wraps around.
\<close>

theorem store_New_capacities:
  assumes "store_New E file gcRoot b c a = Inr s"
  shows "1 \<le> b \<and> 1 \<le> c \<and> 1 \<le> a \<and>
    (ps_DeploymentBootEntryCapacity (st_persisted s) = b \<longleftrightarrow> b < 2 ^ 31) \<and>
    (ps_DeploymentSuccessfulCapacity (st_persisted s) = c \<longleftrightarrow> c < 2 ^ 31) \<and>
    (ps_DeploymentAnyCapacity (st_persisted s) = a \<longleftrightarrow> a < 2 ^ 31)"
proof -
  have ge: "1 \<le> b" "1 \<le> c" "1 \<le> a"
    using assms by (auto simp: store_New_def split: if_splits)
  have eq: "ps_DeploymentBootEntryCapacity (st_persisted s) = to_int32 b"
    "ps_DeploymentSuccessfulCapacity (st_persisted s) = to_int32 c"
    "ps_DeploymentAnyCapacity (st_persisted s) = to_int32 a"
    using assms by (auto simp: store_New_def split: if_splits)
  show ?thesis unfolding eq using ge to_int32_eq by blast
qed

theorem store_New_capacities_witness:
  "\<exists>s. store_New (example_env 0 0) None None (2 ^ 32) 1 1 = Inr s \<and>
     ps_DeploymentBootEntryCapacity (st_persisted s) \<noteq> 2 ^ 32 \<and>
     ps_DeploymentBootEntryCapacity (st_persisted s) = 0"
proof -
  obtain s where s: "store_New (example_env 0 0) None None (2 ^ 32) 1 1 = Inr s"
    by (simp add: store_New_def)
  then have "ps_DeploymentBootEntryCapacity (st_persisted s) = 0"
    by (auto simp: store_New_def to_int32_def)
  with store_New_capacities [OF s] s show ?thesis by auto
qed

lemma migrated: "g_Source (migrate_generation g) = None \<Longrightarrow> \<not> has_old_fields (migrate_generation g)"
  by (simp add: migrate_generation_def split: if_splits)

lemma load_frames [simp]:
  "ps_Deployer (st_persisted (updateDataDeployments E ub us bp sp new s)) = ps_Deployer (st_persisted s)"
  "ps_Deployer (st_persisted (ensure_deployment u op pth s)) = ps_Deployer (st_persisted s)"
  "ps_DeploymentAnyCapacity (st_persisted (ensure_deployment u op pth s)) =
     ps_DeploymentAnyCapacity (st_persisted s)"
  by (simp_all add: updateDataDeployments_def ensure_deployment_def Let_def)

lemma Load_deployer:
  assumes "Load E s = Inr t" and "read_store E s = Inr p"
  shows "ps_Deployer (st_persisted t) = (case ps_Deployer p of None \<Rightarrow> Some DeployerState0 | Some d \<Rightarrow> Some d)"
    and "ps_DeploymentAnyCapacity (st_persisted t) = ps_DeploymentAnyCapacity (st_persisted s)"
    and "st_Generations t = map migrate_generation (ps_Generations p)"
    and "\<exists>ds. st_Deployments t = map (\<lambda>d. d\<lparr>d_Generation := migrate_generation (d_Generation d)\<rparr>) ds"
  using assms by (auto simp: Load_def Let_def migrateGenerationsToSource_def split: prod.splits)


text \<open>A codec for examples: it only writes the states with a suspended deployer.\<close>

definition example_codec_env :: env where
  "example_codec_env = (example_env 0 9)\<lparr>
     Marshal := (\<lambda>p. if p = (st_persisted example_new)\<lparr>ps_Deployer := Some \<lparr>ds_IsSuspended = True, ds_SuspendReason = ''why''\<rparr>\<rparr>
                     then Some ''json'' else None),
     Unmarshal := (\<lambda>c. Some ((st_persisted example_new)\<lparr>ps_Deployer := Some \<lparr>ds_IsSuspended = True, ds_SuspendReason = ''why''\<rparr>\<rparr>))\<rparr>"


section \<open>Generations and lookups\<close>



lemma latest_loop_newest_first:
  "newest_first (d # ds) \<Longrightarrow> latest_loop (Some d) ds = Some d"
  by (induction ds) auto

text \<open>
  The latest deployment a client can resubmit is the first one of the list, the one
  created last, whether it ended or not, in every state the store reaches.
\<close>

theorem latest_is_newest:
  assumes "codec_ok M U" and "reachable store_init (store_step M U) s"
  shows "GetDeploymentLastest s = (case st_Deployments s of [] \<Rightarrow> None | d # _ \<Rightarrow> Some d) \<and>
    (\<forall>d \<in> set (st_Deployments s). \<exists>l. GetDeploymentLastest s = Some l \<and>
       AsTime (d_CreatedAt d) \<le> AsTime (d_CreatedAt l))"
proof -
  have "newest_first (st_Deployments s)"
    using store_runs.reachable_inv [OF assms(2)] assms(1) by (simp add: store_inv_def deployments_wf_def)
  then show ?thesis
    by (cases "st_Deployments s") (auto simp: GetDeploymentLastest_def latest_loop_newest_first)
qed

theorem latest_is_newest_witness:
  "map_option d_Uuid (GetDeploymentLastest example_store) = Some ''u''"
proof -
  have "map d_Uuid (st_Deployments example_store) = [''u'', ''uu'']"
    using arg_cong [OF example_store_view, of "map fst \<circ> fst"] by (simp add: store_view_def comp_def)
  with latest_is_newest [OF example_codec example_store_reachable] show ?thesis
    by (auto split: list.splits)
qed

text \<open>The status strings of the wire format are read back.\<close>

lemma status_strings [simp]:
  "StringToStatus (StatusToString st) = st" "StringToEvalStatus (EvalStatus_String es) = es"
  "StringToBuildStatus (BuildStatus_String bs) = bs"
  by (cases st; cases es; cases bs; simp add: StringToStatus_def StringToEvalStatus_def
      StringToBuildStatus_def)+

end
