(* ===== verification/Deployer.thy ===== *)
theory Deployer
  imports Store_Correct
begin

text \<open>
  The deployer of \<open>internal/deployer\<close>: its state, the operations other goroutines call
  (\<open>Submit\<close>, \<open>Suspend\<close>, \<open>Resume\<close>, \<open>State\<close>, the receive on \<open>DeploymentDoneCh\<close>) and the loop of
  \<open>Run\<close>.

  \<^item> The loop is a program counter with the local variables that are live there (\<open>runner_pc\<close>); a
    step runs up to the next point where another goroutine can interfere: a channel operation, a
    critical section, a call of the store, the deployment function. \<open>runner_step\<close> is \<open>None\<close> when the
    loop is blocked.
  \<^item> A nil pointer that is dereferenced leads to \<open>Panicked\<close>.
  \<^item> \<open>d.deployment\<close> and the store share the deployment objects: the writes of the store through its
    pointer are visible in \<open>dp_deployment\<close>, so a step that calls the store takes over the object it
    returns.
  \<^item> \<open>deployerFunc\<close> (the function of the executor) and the post deployment command are parameters,
    part of the record \<open>denv\<close>.
\<close>

section \<open>State\<close>

record denv =
  dv_env :: env
  dv_deployerFunc :: "string \<Rightarrow> string \<Rightarrow> string list \<Rightarrow> bool \<times> string \<times> string option"
  dv_command :: "string \<Rightarrow> (string \<times> string) list \<Rightarrow> string \<times> string option"

datatype runner_pc =
    WaitGeneration
  | CheckSuspended
  | WaitResume
  | Take
  | Create "Generation option" string
  | Announce Generation Deployment string string
  | Start Generation Deployment string string
  | Execute Generation Deployment string string
  | Finish Generation Deployment string string "bool \<times> string \<times> string option"
  | Post Deployment
  | Notify
  | Panicked

record deployer =
  dp_store :: store
  dp_deployment :: "Deployment option"
  dp_previousDeployment :: "Deployment option"
  dp_isDeploying :: bool
  dp_GenerationToDeploy :: "Generation option"
  dp_Operation :: string
  dp_Reason :: string
  dp_generationAvailableCh :: "unit list"
  dp_postDeploymentCommand :: string
  dp_isSuspended :: bool
  dp_resumeCh :: "unit list"
  dp_runnerIsSuspended :: bool
  dp_DeploymentDoneCh :: "Deployment list"
  dp_pc :: runner_pc

text \<open>\<open>None\<close>: the nil dereference of a store without a deployer state.\<close>

definition deployer_New :: "store \<Rightarrow> Deployment option \<Rightarrow> string \<Rightarrow> deployer option" where
  "deployer_New s previousDeployment postDeploymentCommand =
     map_option (\<lambda>dState. \<lparr>dp_store = s, dp_deployment = previousDeployment, dp_previousDeployment = previousDeployment,
      dp_isDeploying = False, dp_GenerationToDeploy = None, dp_Operation = [], dp_Reason = [],
      dp_generationAvailableCh = [], dp_postDeploymentCommand = postDeploymentCommand,
      dp_isSuspended = ds_IsSuspended dState,
      dp_resumeCh = [], dp_runnerIsSuspended = False, dp_DeploymentDoneCh = [],
      dp_pc = WaitGeneration\<rparr>) (ps_Deployer (st_persisted s))"

definition deployer_State :: "deployer \<Rightarrow> pbDeployer" where
  "deployer_State d = \<lparr>pd_IsDeploying = Some (dp_isDeploying d), pd_Deployment = dp_deployment d,
     pd_GenerationToDeploy = dp_GenerationToDeploy d, pd_Operation = dp_Operation d,
     pd_PreviousDeployment = dp_previousDeployment d,
     pd_IsSuspended = Some (dp_isSuspended d)\<rparr>"

section \<open>Operations of other goroutines\<close>

definition Suspend :: "env \<Rightarrow> string \<Rightarrow> deployer \<Rightarrow> deployer" where
  "Suspend E reason d = d\<lparr>dp_isSuspended := True,
     dp_store := DeployerUpdate E \<lparr>ds_IsSuspended = True, ds_SuspendReason = reason\<rparr> (dp_store d)\<rparr>"

definition Resume :: "env \<Rightarrow> deployer \<Rightarrow> deployer" where
  "Resume E d = d\<lparr>dp_isSuspended := False,
     dp_store := DeployerUpdate E \<lparr>ds_IsSuspended = False, ds_SuspendReason = []\<rparr> (dp_store d),
     dp_resumeCh := try_send 1 () (dp_resumeCh d)\<rparr>"

definition IsAlreadyDeployed :: "Generation \<Rightarrow> string \<Rightarrow> deployer \<Rightarrow> bool" where
  "IsAlreadyDeployed g operation d =
     (case dp_previousDeployment d of
        None \<Rightarrow> False
      | Some previous \<Rightarrow>
          if g_OutPath g \<noteq> d_OutPath previous then False
          else if d_Operation previous \<noteq> operation then False
          else True)"

definition Submit :: "Generation \<Rightarrow> string \<Rightarrow> bool \<Rightarrow> string \<Rightarrow> deployer \<Rightarrow> deployer" where
  "Submit g operation force reason d =
     (if force \<or> \<not> IsAlreadyDeployed g operation d
      then d\<lparr>dp_GenerationToDeploy := Some g, dp_Operation := operation, dp_Reason := reason,
             dp_generationAvailableCh := try_send 1 () (dp_generationAvailableCh d)\<rparr>
      else d)"

text \<open>The receive of the manager on \<open>DeploymentDoneCh\<close>; \<open>None\<close> when nothing can be received.\<close>

definition receive_done :: "deployer \<Rightarrow> (Deployment \<times> deployer) option" where
  "receive_done d =
     (case dp_DeploymentDoneCh d of
        [] \<Rightarrow> None
      | x # rest \<Rightarrow> Some (x, d\<lparr>dp_DeploymentDoneCh := rest\<rparr>))"

section \<open>The post deployment command\<close>

definition git_of :: "Deployment \<Rightarrow> Git option" where
  "git_of d = (if g_Source (d_Generation d) \<noteq> None then GetGit (g_Source (d_Generation d)) else None)"

definition envGitSha :: "Deployment \<Rightarrow> string" where
  "envGitSha d = (case git_of d of None \<Rightarrow> [] | Some git \<Rightarrow> git_SelectedCommitId git)"

definition envGitRef :: "Deployment \<Rightarrow> string" where
  "envGitRef d = (case git_of d of None \<Rightarrow> []
     | Some git \<Rightarrow> git_SelectedRemoteName git @ ''/'' @ git_SelectedBranchName git)"

text \<open>\<open>strings.Trim(s, "\n")\<close>\<close>

definition trim_newlines :: "string \<Rightarrow> string" where
  "trim_newlines s = rev (dropWhile (\<lambda>c. c = CHR 0x0A) (rev (dropWhile (\<lambda>c. c = CHR 0x0A) s)))"

definition envGitMessage :: "Deployment \<Rightarrow> string" where
  "envGitMessage d = (case git_of d of None \<Rightarrow> [] | Some git \<Rightarrow> trim_newlines (git_SelectedCommitMsg git))"

definition envCominGeneration :: "Deployment \<Rightarrow> string" where
  "envCominGeneration d = g_Uuid (d_Generation d)"

definition envCominHostname :: "Deployment \<Rightarrow> string" where
  "envCominHostname d = (case git_of d of None \<Rightarrow> [] | Some git \<Rightarrow> git_Hostname git)"

definition envCominStatus :: "Deployment \<Rightarrow> string" where
  "envCominStatus d = d_Status d"

definition envCominErrorMessage :: "Deployment \<Rightarrow> string" where
  "envCominErrorMessage d = d_ErrorMsg d"

definition runPostDeploymentCommand ::
  "(string \<Rightarrow> (string \<times> string) list \<Rightarrow> string \<times> string option) \<Rightarrow> string \<Rightarrow> Deployment \<Rightarrow>
     string \<times> string option" where
  "runPostDeploymentCommand exec command d = exec command
     [(''COMIN_GIT_SHA'', envGitSha d), (''COMIN_GIT_REF'', envGitRef d),
      (''COMIN_GIT_MSG'', envGitMessage d), (''COMIN_HOSTNAME'', envCominHostname d),
      (''COMIN_GENERATION'', envCominGeneration d), (''COMIN_STATUS'', envCominStatus d),
      (''COMIN_ERROR_MSG'', envCominErrorMessage d)]"

section \<open>The loop of Run\<close>

text \<open>The write of the end date through the shared pointer.\<close>

definition set_ended :: "time \<Rightarrow> Deployment \<Rightarrow> store \<Rightarrow> store" where
  "set_ended now d s = s\<lparr>st_persisted := (st_persisted s)
     \<lparr>ps_Deployments := deploymentPut (d_Uuid d) (\<lambda>d. d\<lparr>d_EndedAt := Some now\<rparr>) (st_Deployments s)\<rparr>\<rparr>"

fun runner_step :: "denv \<Rightarrow> deployer \<Rightarrow> deployer option" where
  "runner_step V d =
     (let E = dv_env V in
      case dp_pc d of
        WaitGeneration \<Rightarrow>
          (case dp_generationAvailableCh d of
             [] \<Rightarrow> None
           | _ # rest \<Rightarrow> Some (d\<lparr>dp_generationAvailableCh := rest, dp_pc := CheckSuspended\<rparr>))
      | CheckSuspended \<Rightarrow>
          Some (if dp_isSuspended d then d\<lparr>dp_runnerIsSuspended := True, dp_pc := WaitResume\<rparr>
                else d\<lparr>dp_pc := Take\<rparr>)
      | WaitResume \<Rightarrow>
          (case dp_resumeCh d of
             [] \<Rightarrow> None
           | _ # rest \<Rightarrow> Some (d\<lparr>dp_resumeCh := rest, dp_runnerIsSuspended := False, dp_pc := Take\<rparr>))
      | Take \<Rightarrow>
          Some (d\<lparr>dp_GenerationToDeploy := None,
                  dp_pc := Create (dp_GenerationToDeploy d) (dp_Operation d)\<rparr>)
      | Create None operationSubmitted \<Rightarrow> Some (d\<lparr>dp_pc := Panicked\<rparr>)
      | Create (Some g) operationSubmitted \<Rightarrow>
          (let (booted, current) = GetBootedAndCurrentStorepaths E;
               (dpl, s) = NewDeployment E g operationSubmitted (dp_Reason d) booted current (dp_store d)
           in Some (d\<lparr>dp_store := s, dp_pc := Announce g dpl booted current\<rparr>))
      | Announce g dpl booted current \<Rightarrow>
          Some (d\<lparr>dp_previousDeployment := dp_deployment d, dp_deployment := Some dpl,
                  dp_isDeploying := True, dp_pc := Start g dpl booted current\<rparr>)
      | Start g dpl booted current \<Rightarrow>
          (case DeploymentStarted E (d_Uuid dpl) booted current (dp_store d) of
             Inl _ \<Rightarrow> Some (d\<lparr>dp_pc := WaitGeneration\<rparr>)
           | Inr (dpl', s) \<Rightarrow>
               Some (d\<lparr>dp_store := s, dp_deployment := Some dpl', dp_pc := Execute g dpl' booted current\<rparr>))
      | Execute g dpl booted current \<Rightarrow>
          Some (if d_Operation dpl \<noteq> OperationNull
                then d\<lparr>dp_store := publish (Event_Log ''deployment'' (g_Uuid g) Log_Open) (clk E 0) (dp_store d),
                       dp_pc := Finish g dpl booted current
                         (dv_deployerFunc V (g_OutPath g) (d_Operation dpl)
                            (GetDeploymentProfilePaths (dp_store d)))\<rparr>
                else d\<lparr>dp_pc := Finish g dpl booted current (False, [], None)\<rparr>)
      | Finish g dpl booted current (cominNeedRestart, profilePath, err) \<Rightarrow>
          (let ended = dpl\<lparr>d_EndedAt := Some (clk E 2)\<rparr>;
               s = set_ended (clk E 2) dpl (dp_store d)
           in case DeploymentFinished E (d_Uuid dpl) err cominNeedRestart profilePath booted current s of
                Inl _ \<Rightarrow> Some (d\<lparr>dp_store := s, dp_deployment := Some ended, dp_pc := WaitGeneration\<rparr>)
              | Inr (dpl', s') \<Rightarrow>
                  Some (d\<lparr>dp_store := s', dp_deployment := Some dpl', dp_pc := Post dpl'\<rparr>))
      | Post dpl \<Rightarrow>
          (let (output, err) = (if dp_postDeploymentCommand d \<noteq> []
                  then runPostDeploymentCommand (dv_command V) (dp_postDeploymentCommand d) dpl
                  else ([], None))
           in Some (d\<lparr>dp_isDeploying := False, dp_deployment := Some dpl, dp_pc := Notify\<rparr>))
      | Notify \<Rightarrow>
          (case dp_deployment d of
             None \<Rightarrow> Some (d\<lparr>dp_pc := Panicked\<rparr>)
           | Some dpl \<Rightarrow>
               if length (dp_DeploymentDoneCh d) < 1
               then Some (d\<lparr>dp_DeploymentDoneCh := dp_DeploymentDoneCh d @ [dpl], dp_pc := WaitGeneration\<rparr>)
               else None)
      | Panicked \<Rightarrow> None)"

text \<open>The deployer with its clients: any interleaving of the loop with the operations.\<close>

inductive deployer_step :: "deployer \<Rightarrow> deployer \<Rightarrow> bool" where
  dstep_run: "runner_step V d = Some d' \<Longrightarrow> deployer_step d d'"
| dstep_submit: "d' = Submit g operation force reason d \<Longrightarrow> deployer_step d d'"
| dstep_suspend: "d' = Suspend E reason d \<Longrightarrow> deployer_step d d'"
| dstep_resume: "d' = Resume E d \<Longrightarrow> deployer_step d d'"
| dstep_receive: "receive_done d = Some (x, d') \<Longrightarrow> deployer_step d d'"

definition deployer_init :: "deployer \<Rightarrow> bool" where
  "deployer_init d \<longleftrightarrow> (\<exists>s previous cmd. deployer_New s previous cmd = Some d)"

declare runner_step.simps [simp del]

inductive_cases deployer_step_cases: "deployer_step d d'"

section \<open>Invariant\<close>

definition persisted_suspension :: "store \<Rightarrow> bool option" where
  "persisted_suspension s = map_option ds_IsSuspended (ps_Deployer (st_persisted s))"

text \<open>What holds at the points of the loop, about the shared deployment pointer and the flag.\<close>

fun pc_inv :: "runner_pc \<Rightarrow> Deployment option \<Rightarrow> bool \<Rightarrow> bool" where
  "pc_inv (Start g dpl b c) deployment deploying = (deployment = Some dpl \<and> deploying)"
| "pc_inv (Execute g dpl b c) deployment deploying = (deployment = Some dpl \<and> deploying)"
| "pc_inv (Finish g dpl b c r) deployment deploying = (deployment = Some dpl \<and> deploying)"
| "pc_inv (Post dpl) deployment deploying = (deployment = Some dpl \<and> deploying)"
| "pc_inv Notify deployment deploying = (deployment \<noteq> None \<and> \<not> deploying)"
| "pc_inv _ deployment deploying = True"

text \<open>The points between the receive of the token and the read of the submitted generation.\<close>

definition before_take :: "runner_pc \<Rightarrow> bool" where
  "before_take pc \<longleftrightarrow> pc = CheckSuspended \<or> pc = WaitResume \<or> pc = Take"

definition deployer_inv :: "deployer \<Rightarrow> bool" where
  "deployer_inv d \<longleftrightarrow> length (dp_generationAvailableCh d) \<le> 1 \<and> length (dp_resumeCh d) \<le> 1 \<and>
     length (dp_DeploymentDoneCh d) \<le> 1 \<and>
     persisted_suspension (dp_store d) = Some (dp_isSuspended d) \<and>
     (dp_runnerIsSuspended d \<longleftrightarrow> dp_pc d = WaitResume) \<and>
     (dp_GenerationToDeploy d \<noteq> None \<longrightarrow> dp_generationAvailableCh d \<noteq> [] \<or> before_take (dp_pc d)) \<and>
     pc_inv (dp_pc d) (dp_deployment d) (dp_isDeploying d)"

lemma persisted_suspension_frames [simp]:
  "persisted_suspension (updateDataDeployments E ub us bp sp new s) = persisted_suspension s"
  "persisted_suspension (Commit E s) = persisted_suspension s"
  "persisted_suspension (publish ev now s) = persisted_suspension s"
  "persisted_suspension (set_ended now dpl s) = persisted_suspension s"
  "persisted_suspension (DeployerUpdate E ds s) = Some (ds_IsSuspended ds)"
  by (simp_all add: persisted_suspension_def set_ended_def DeployerUpdate_def)

lemma NewDeployment_suspension:
  "NewDeployment E g op r bp sp s = (dpl, s') \<Longrightarrow> persisted_suspension s' = persisted_suspension s"
proof -
  assume "NewDeployment E g op r bp sp s = (dpl, s')"
  then have "s' = snd (NewDeployment E g op r bp sp s)" by simp
  then show ?thesis by (simp add: NewDeployment_def Let_def)
qed

lemma change_deployment_suspension:
  "change_deployment E f ev u bp sp s = Inr (dpl, s') \<Longrightarrow> persisted_suspension s' = persisted_suspension s"
  by (auto simp: change_deployment_def Let_def persisted_suspension_def split: option.splits)

lemma update_suspension:
  "DeploymentStarted E u bp sp s = Inr (dpl, s') \<Longrightarrow> persisted_suspension s' = persisted_suspension s"
  "DeploymentFinished E u err rst prof bp sp s = Inr (dpl, s') \<Longrightarrow>
     persisted_suspension s' = persisted_suspension s"
  unfolding DeploymentStarted_def DeploymentFinished_def by (rule change_deployment_suspension; assumption)+

lemmas store_suspension = NewDeployment_suspension update_suspension

lemma runner_step_inv:
  assumes "runner_step V d = Some d'" and "deployer_inv d"
  shows "deployer_inv d'"
proof (cases "dp_pc d")
  case (Create g op)
  with assms show ?thesis
    by (cases g) (auto simp: runner_step.simps Let_def deployer_inv_def before_take_def
        dest: store_suspension split: prod.splits)
next
  case (Start g dpl b c)
  with assms show ?thesis
    by (auto simp: runner_step.simps Let_def deployer_inv_def before_take_def
        dest: store_suspension split: sum.splits)
next
  case (Finish g dpl b c r)
  with assms show ?thesis
    by (cases r) (auto simp: runner_step.simps Let_def deployer_inv_def before_take_def
        dest: store_suspension split: sum.splits)
qed (use assms in \<open>auto simp: runner_step.simps Let_def deployer_inv_def before_take_def
    split: list.splits if_splits prod.splits option.splits\<close>)

lemma try_send_1: "length (try_send 1 x ch) \<le> 1 \<longleftrightarrow> length ch \<le> 1" "try_send 1 x ch \<noteq> []"
  by (auto simp: try_send_def)

lemma client_inv:
  assumes "deployer_inv d"
  shows "deployer_inv (Submit g op force reason d)" and "deployer_inv (Suspend E reason d)"
    and "deployer_inv (Resume E d)" and "receive_done d = Some (x, d') \<Longrightarrow> deployer_inv d'"
  using assms try_send_1(2) [of "()"] by (auto simp: Submit_def Suspend_def Resume_def receive_done_def
      deployer_inv_def try_send_1(1) [unfolded One_nat_def] split: list.splits)

interpretation deployer_runs: invariant_of deployer_init deployer_step deployer_inv
proof
  show "deployer_inv d" if "deployer_init d" for d
    using that by (auto simp: deployer_init_def deployer_New_def deployer_inv_def persisted_suspension_def)
  show "deployer_inv d'" if "deployer_inv d" "deployer_step d d'" for d d'
    using that(2,1) by (cases rule: deployer_step.cases) (auto intro: runner_step_inv client_inv)
qed


definition example_deployer :: deployer where
  "example_deployer = the (deployer_New example_new None [])"

lemma example_deployer_init: "deployer_init example_deployer"
proof -
  have "deployer_New example_new None [] \<noteq> None"
    by (simp add: deployer_New_def store_simps)
  then show ?thesis unfolding deployer_init_def example_deployer_def by force
qed


section \<open>Suspension\<close>

definition step_without_resume :: "deployer \<Rightarrow> deployer \<Rightarrow> bool" where
  "step_without_resume d d' \<longleftrightarrow> (\<exists>V. runner_step V d = Some d') \<or>
     (\<exists>g op force reason. d' = Submit g op force reason d) \<or> (\<exists>E reason. d' = Suspend E reason d) \<or>
     (\<exists>x. receive_done d = Some (x, d'))"

text \<open>The loop is idle or waits, and no resume request is pending.\<close>

definition halted :: "Deployment list \<Rightarrow> deployer \<Rightarrow> bool" where
  "halted ds d \<longleftrightarrow> dp_isSuspended d \<and> dp_resumeCh d = [] \<and>
     (dp_pc d = WaitGeneration \<or> dp_pc d = CheckSuspended \<or> dp_pc d = WaitResume) \<and>
     st_Deployments (dp_store d) = ds"

lemma halted_runner: "halted ds d \<Longrightarrow> runner_step V d = Some d' \<Longrightarrow> halted ds d'"
  by (cases "dp_pc d") (auto simp: halted_def runner_step.simps split: list.splits)

lemma halted_client:
  assumes "halted ds d"
  shows "halted ds (Submit g op force reason d)" "halted ds (Suspend E reason d)"
    "receive_done d = Some (x, d') \<Longrightarrow> halted ds d'"
  using assms by (auto simp: halted_def Submit_def Suspend_def DeployerUpdate_def receive_done_def
      split: list.splits)

interpretation suspended_runs: invariant_of "halted ds" step_without_resume "halted ds" for ds
  by unfold_locales
    (auto simp: step_without_resume_def intro: halted_runner halted_client)



section \<open>One turn of the loop\<close>

definition run_steps :: "denv \<Rightarrow> deployer \<Rightarrow> deployer \<Rightarrow> bool" where
  "run_steps V = (\<lambda>d d'. runner_step V d = Some d')\<^sup>*\<^sup>*"

lemma run_steps_refl: "run_steps V d d"
  by (simp add: run_steps_def)

lemma run_steps_Cons: "runner_step V d = Some d' \<Longrightarrow> run_steps V d' d'' \<Longrightarrow> run_steps V d d''"
  unfolding run_steps_def by (rule converse_rtranclp_into_rtranclp)

text \<open>What a turn leaves untouched.\<close>

definition same_queue :: "deployer \<Rightarrow> deployer \<Rightarrow> bool" where
  "same_queue d d' \<longleftrightarrow> dp_generationAvailableCh d' = dp_generationAvailableCh d \<and>
     dp_GenerationToDeploy d' = dp_GenerationToDeploy d \<and> dp_isSuspended d' = dp_isSuspended d \<and>
     dp_resumeCh d' = dp_resumeCh d"

definition turn_ends :: "denv \<Rightarrow> deployer \<Rightarrow> bool" where
  "turn_ends V d \<longleftrightarrow> (\<exists>d'. run_steps V d d' \<and> dp_pc d' = WaitGeneration \<and> same_queue d d' \<and>
     dp_previousDeployment d' = dp_previousDeployment d)"

lemma turn_ends_step:
  assumes "case runner_step V d of None \<Rightarrow> False | Some d' \<Rightarrow> turn_ends V d' \<and> same_queue d d' \<and>
    dp_previousDeployment d' = dp_previousDeployment d"
  shows "turn_ends V d"
proof -
  obtain d' where d': "runner_step V d = Some d'" "turn_ends V d'" "same_queue d d'"
    "dp_previousDeployment d' = dp_previousDeployment d"
    using assms by (auto split: option.splits)
  then obtain d'' where "run_steps V d' d''" "dp_pc d'' = WaitGeneration" "same_queue d' d''"
    "dp_previousDeployment d'' = dp_previousDeployment d'"
    unfolding turn_ends_def by blast
  with d' run_steps_Cons [OF d'(1)] show ?thesis unfolding turn_ends_def same_queue_def by auto
qed

lemma turn_ends_here: "dp_pc d = WaitGeneration \<Longrightarrow> turn_ends V d"
  unfolding turn_ends_def same_queue_def using run_steps_refl by blast

lemma turn_ends_Notify:
  "dp_pc d = Notify \<Longrightarrow> dp_deployment d = Some x \<Longrightarrow> dp_DeploymentDoneCh d = [] \<Longrightarrow> turn_ends V d"
  by (rule turn_ends_step) (simp add: runner_step.simps same_queue_def turn_ends_here)

lemma turn_ends_Post: "dp_pc d = Post dpl \<Longrightarrow> dp_DeploymentDoneCh d = [] \<Longrightarrow> turn_ends V d"
  by (rule turn_ends_step)
    (simp add: runner_step.simps same_queue_def turn_ends_Notify Let_def split: prod.split)

lemma turn_ends_Finish:
  "dp_pc d = Finish g dpl b c r \<Longrightarrow> dp_DeploymentDoneCh d = [] \<Longrightarrow> turn_ends V d"
  by (cases r, rule turn_ends_step)
    (simp add: runner_step.simps same_queue_def turn_ends_here turn_ends_Post Let_def
      split: sum.split prod.split)

lemma turn_ends_Execute:
  "dp_pc d = Execute g dpl b c \<Longrightarrow> dp_DeploymentDoneCh d = [] \<Longrightarrow> turn_ends V d"
  by (rule turn_ends_step) (simp add: runner_step.simps same_queue_def turn_ends_Finish Let_def)

lemma turn_ends_Start:
  "dp_pc d = Start g dpl b c \<Longrightarrow> dp_DeploymentDoneCh d = [] \<Longrightarrow> turn_ends V d"
  by (rule turn_ends_step)
    (simp add: runner_step.simps same_queue_def turn_ends_here turn_ends_Execute Let_def
      split: sum.split prod.split)

lemma turn_from_Create:
  assumes "dp_pc d = Create (Some g) op" and "dp_DeploymentDoneCh d = []"
  obtains d' where "run_steps V d d'" and "dp_pc d' = WaitGeneration" and "same_queue d d'"
    and "dp_previousDeployment d' = dp_deployment d"
proof -
  obtain b c where bc: "GetBootedAndCurrentStorepaths (dv_env V) = (b, c)" by fastforce
  obtain dpl s where ds: "NewDeployment (dv_env V) g op (dp_Reason d) b c (dp_store d) = (dpl, s)"
    by fastforce
  let ?d1 = "d\<lparr>dp_store := s, dp_pc := Announce g dpl b c\<rparr>"
  let ?d2 = "?d1\<lparr>dp_previousDeployment := dp_deployment d, dp_deployment := Some dpl,
      dp_isDeploying := True, dp_pc := Start g dpl b c\<rparr>"
  have "runner_step V d = Some ?d1" "runner_step V ?d1 = Some ?d2"
    using assms(1) bc ds by (simp_all add: runner_step.simps Let_def)
  moreover obtain d' where "run_steps V ?d2 d'" "dp_pc d' = WaitGeneration" "same_queue ?d2 d'"
      "dp_previousDeployment d' = dp_previousDeployment ?d2"
    using turn_ends_Start [of ?d2 g dpl b c V] assms(2) unfolding turn_ends_def by auto
  ultimately show thesis
    using that [of d'] run_steps_Cons by (auto simp: same_queue_def)
qed

text \<open>
  Property C18. Every deployment turn ends: once the loop took a generation, its own steps lead it back
  to wait for the next one, whatever the store, the deployment function and the post deployment command
  answer, provided the previous result has been received. The pending submission and the
  suspension are untouched, and the deployment that was current before the turn becomes the previous
  one.
\<close>

theorem deployment_turn_ends:
  assumes "dp_pc d = Create (Some g) op" and "dp_DeploymentDoneCh d = []"
  shows "\<exists>d'. run_steps V d d' \<and> dp_pc d' = WaitGeneration \<and>
    dp_generationAvailableCh d' = dp_generationAvailableCh d \<and>
    dp_GenerationToDeploy d' = dp_GenerationToDeploy d \<and> dp_isSuspended d' = dp_isSuspended d \<and>
    dp_previousDeployment d' = dp_deployment d"
  using turn_from_Create [OF assms, of V] unfolding same_queue_def by metis

definition example_denv :: "nat \<Rightarrow> denv" where
  "example_denv n = \<lparr>dv_env = example_env 5 n, dv_deployerFunc = (\<lambda>_ _ _. (False, ''prof'', None)),
     dv_command = (\<lambda>_ _. ([], None))\<rparr>"

theorem deployment_turn_ends_witness:
  "\<exists>d'. run_steps (example_denv 9) (example_deployer\<lparr>dp_pc := Create (Some example_gen) ''switch''\<rparr>) d' \<and>
     dp_pc d' = WaitGeneration"
proof -
  let ?d = "example_deployer\<lparr>dp_pc := Create (Some example_gen) ''switch''\<rparr>"
  have "dp_pc ?d = Create (Some example_gen) ''switch''" "dp_DeploymentDoneCh ?d = []"
    by (simp_all add: example_deployer_def deployer_New_def store_simps)
  from deployment_turn_ends [OF this, of "example_denv 9"] show ?thesis by blast
qed

text \<open>
  A rollback is skipped: after a deployment turn, the check for an already deployed
  generation compares with the deployment before the one that just ran. Submitting again the
  generation of that older deployment with its operation, without force, changes nothing, although
  another generation has been deployed in between.
\<close>

theorem rollback_is_skipped:
  assumes "dp_pc d = Create (Some g) op" and "dp_DeploymentDoneCh d = []" and "dp_deployment d = Some old"
  shows "\<exists>d'. run_steps V d d' \<and> dp_pc d' = WaitGeneration \<and>
    Submit (d_Generation old) (d_Operation old) False reason d' = d' \<and>
    (\<forall>g' op'. \<not> (g_OutPath g' = d_OutPath old \<and> op' = d_Operation old) \<longrightarrow>
       dp_GenerationToDeploy (Submit g' op' False reason d') = Some g')"
proof -
  obtain d' where d': "run_steps V d d'" "dp_pc d' = WaitGeneration"
    "dp_previousDeployment d' = Some old"
    using turn_from_Create [OF assms(1,2), of V] assms(3) by metis
  then have "\<not> (g_OutPath g' = d_OutPath old \<and> op' = d_Operation old) \<Longrightarrow>
      dp_GenerationToDeploy (Submit g' op' False reason d') = Some g'" for g' op'
    by (auto simp: Submit_def IsAlreadyDeployed_def)
  moreover have "Submit (d_Generation old) (d_Operation old) False reason d' = d'"
    using d'(3) by (simp add: Submit_def IsAlreadyDeployed_def)
  ultimately show ?thesis using d'(1,2) by blast
qed

theorem rollback_is_skipped_witness:
  "\<exists>d'. run_steps (example_denv 9)
       (example_deployer\<lparr>dp_deployment := Some (mk_dpl ''4'' ''switch'' ''done'' ''st1'' 4),
          dp_pc := Create (Some example_gen) ''switch''\<rparr>) d' \<and>
     Submit (Generation0\<lparr>g_OutPath := ''st1''\<rparr>) ''switch'' False ''r'' d' = d'"
proof -
  let ?old = "mk_dpl ''4'' ''switch'' ''done'' ''st1'' 4"
  let ?d = "example_deployer\<lparr>dp_deployment := Some ?old, dp_pc := Create (Some example_gen) ''switch''\<rparr>"
  have "dp_pc ?d = Create (Some example_gen) ''switch''" "dp_DeploymentDoneCh ?d = []"
    "dp_deployment ?d = Some ?old"
    by (simp_all add: example_deployer_def deployer_New_def store_simps)
  from rollback_is_skipped [OF this, of "example_denv 9" "''r''"] show ?thesis
    by (auto simp: mk_dpl_def)
qed

section \<open>Two interleavings\<close>

lemma run_steps_deployer: "run_steps V d d' \<Longrightarrow> deployer_step\<^sup>*\<^sup>* d d'"
  unfolding run_steps_def by (rule rtranclp_mono [THEN predicate2D, rotated]) (auto intro: dstep_run)

lemma deployer_New_simps:
  assumes "deployer_New s previous cmd = Some d"
  shows "dp_pc d = WaitGeneration" "dp_resumeCh d = []" "dp_generationAvailableCh d = []"
    "dp_DeploymentDoneCh d = []" "dp_GenerationToDeploy d = None"
  using assms by (auto simp: deployer_New_def)

lemma steps_run: "deployer_step\<^sup>*\<^sup>* d0 d \<Longrightarrow> runner_step V d = Some d' \<Longrightarrow> deployer_step\<^sup>*\<^sup>* d0 d'"
  by (meson dstep_run rtranclp.rtrancl_into_rtrancl)

lemma steps_submit: "deployer_step\<^sup>*\<^sup>* d0 d \<Longrightarrow> deployer_step\<^sup>*\<^sup>* d0 (Submit g op f r d)"
  by (meson dstep_submit rtranclp.rtrancl_into_rtrancl)

lemma steps_suspend: "deployer_step\<^sup>*\<^sup>* d0 d \<Longrightarrow> deployer_step\<^sup>*\<^sup>* d0 (Suspend E r d)"
  by (meson dstep_suspend rtranclp.rtrancl_into_rtrancl)

lemma steps_resume: "deployer_step\<^sup>*\<^sup>* d0 d \<Longrightarrow> deployer_step\<^sup>*\<^sup>* d0 (Resume E d)"
  by (meson dstep_resume rtranclp.rtrancl_into_rtrancl)

lemmas steps_intros = steps_submit steps_suspend steps_resume

text \<open>
  A resume request that nobody waited for stays in the channel. Resuming an idle deployer
  and suspending it again therefore does not suspend it: the next submitted generation passes the
  suspension and is deployed while the deployer is marked suspended.
\<close>

theorem stale_resume_deploys_suspended:
  assumes "deployer_New s previous cmd = Some d0"
  shows "\<exists>d. deployer_step\<^sup>*\<^sup>* d0 d \<and> dp_isSuspended d \<and> dp_pc d = Create (Some g) op"
proof -
  let ?d1 = "Submit g op True r (Suspend E r (Resume E d0))"
  note n = deployer_New_simps [OF assms]
  let ?d2 = "?d1\<lparr>dp_generationAvailableCh := [], dp_pc := CheckSuspended\<rparr>"
  let ?d3 = "?d2\<lparr>dp_runnerIsSuspended := True, dp_pc := WaitResume\<rparr>"
  let ?d4 = "?d3\<lparr>dp_resumeCh := [], dp_runnerIsSuspended := False, dp_pc := Take\<rparr>"
  let ?d5 = "?d4\<lparr>dp_GenerationToDeploy := None, dp_pc := Create (Some g) op\<rparr>"
  have s1: "deployer_step\<^sup>*\<^sup>* d0 ?d1" by (intro steps_intros rtranclp.rtrancl_refl)
  have r: "runner_step V ?d1 = Some ?d2" "runner_step V ?d2 = Some ?d3"
    "runner_step V ?d3 = Some ?d4" "runner_step V ?d4 = Some ?d5" for V
    by (simp_all add: runner_step.simps Submit_def Suspend_def Resume_def try_send_def n)
  have "deployer_step\<^sup>*\<^sup>* d0 ?d5"
    by (rule steps_run [OF steps_run [OF steps_run [OF steps_run [OF s1 r(1)] r(2)] r(3)] r(4)])
  moreover have "dp_isSuspended ?d5" "dp_pc ?d5 = Create (Some g) op"
    by (simp_all add: Submit_def Suspend_def)
  ultimately show ?thesis by blast
qed

theorem stale_resume_deploys_suspended_witness:
  "\<exists>d. deployer_step\<^sup>*\<^sup>* example_deployer d \<and> dp_isSuspended d \<and>
     dp_pc d = Create (Some example_gen) ''switch''"
proof -
  have "deployer_New example_new None [] = Some example_deployer"
    by (simp add: deployer_New_def example_deployer_def store_simps)
  from stale_resume_deploys_suspended [OF this] show ?thesis .
qed

text \<open>
  A submission that arrives after the loop received the token of an earlier one but before
  it read the generation leaves a second token without a generation. The loop then dereferences a nil
  generation: from every initial state there is such an interleaving that ends in a panic.
\<close>

theorem late_submission_panics:
  assumes "deployer_New s previous cmd = Some d0"
  shows "\<exists>d. deployer_step\<^sup>*\<^sup>* d0 d \<and> dp_pc d = Panicked"
proof -
  fix E :: env and g :: Generation and V :: denv
  note n = deployer_New_simps [OF assms]
  let ?d1 = "Submit g [] True [] (Resume E d0)"
  let ?d2 = "?d1\<lparr>dp_generationAvailableCh := [], dp_pc := CheckSuspended\<rparr>"
  let ?d3 = "Submit g [] True [] ?d2"
  let ?d4 = "?d3\<lparr>dp_pc := Take\<rparr>"
  let ?d5 = "?d4\<lparr>dp_GenerationToDeploy := None, dp_pc := Create (Some g) []\<rparr>"
  have s1: "deployer_step\<^sup>*\<^sup>* d0 ?d1" by (intro steps_intros rtranclp.rtrancl_refl)
  have r: "runner_step V ?d1 = Some ?d2" "runner_step V ?d3 = Some ?d4" "runner_step V ?d4 = Some ?d5"
    by (simp_all add: runner_step.simps Submit_def Resume_def try_send_def n)
  have s3: "deployer_step\<^sup>*\<^sup>* d0 ?d3" by (rule steps_submit [OF steps_run [OF s1 r(1)]])
  have s5: "deployer_step\<^sup>*\<^sup>* d0 ?d5" by (rule steps_run [OF steps_run [OF s3 r(2)] r(3)])
  have q: "dp_generationAvailableCh ?d5 = [()]" "dp_GenerationToDeploy ?d5 = None" "\<not> dp_isSuspended ?d5"
    by (simp_all add: Submit_def Resume_def try_send_def)
  obtain d6 where d6: "run_steps V ?d5 d6" "dp_pc d6 = WaitGeneration" "same_queue ?d5 d6"
    by (rule turn_from_Create [of ?d5 g "[]" V]) (simp_all add: Submit_def Resume_def n)
  let ?d7 = "d6\<lparr>dp_generationAvailableCh := [], dp_pc := CheckSuspended\<rparr>"
  let ?d8 = "?d7\<lparr>dp_pc := Take\<rparr>"
  let ?d9 = "?d8\<lparr>dp_GenerationToDeploy := None, dp_pc := Create None (dp_Operation d6)\<rparr>"
  have p: "runner_step V d6 = Some ?d7" "runner_step V ?d7 = Some ?d8" "runner_step V ?d8 = Some ?d9"
    "runner_step V ?d9 = Some (?d9\<lparr>dp_pc := Panicked\<rparr>)"
    using d6(2,3) q unfolding same_queue_def by (simp_all add: runner_step.simps)
  have s6: "deployer_step\<^sup>*\<^sup>* d0 d6"
    using s5 run_steps_deployer [OF d6(1)] by (rule rtranclp_trans)
  have "deployer_step\<^sup>*\<^sup>* d0 (?d9\<lparr>dp_pc := Panicked\<rparr>)"
    by (rule steps_run [OF steps_run [OF steps_run [OF steps_run [OF s6 p(1)] p(2)] p(3)] p(4)])
  moreover have "dp_pc (?d9\<lparr>dp_pc := Panicked\<rparr>) = Panicked" by simp
  ultimately show ?thesis by blast
qed

theorem late_submission_panics_witness:
  "\<exists>d. deployer_step\<^sup>*\<^sup>* example_deployer d \<and> dp_pc d = Panicked"
proof -
  have "deployer_New example_new None [] = Some example_deployer"
    by (simp add: deployer_New_def example_deployer_def store_simps)
  from late_submission_panics [OF this] show ?thesis .
qed

end
