(* ===== verification/Exec.thy ===== *)
theory Exec
  imports Prelude
begin

text \<open>
  The asynchronous runner of \<open>internal/builder/exec.go\<close>: \<open>Start\<close> spawns the goroutine of the runnable,
  \<open>Stop\<close> cancels its context, \<open>Wait\<close> blocks until it ended. The goroutine and one waiter are
  program counters; \<open>done\<close> is an unbuffered channel the goroutine sends to without blocking, so the
  signal only reaches a waiter that is already parked on the receive.
\<close>

datatype run_pc = NotRunning | InRunnable | Ended
datatype wait_pc = NotWaiting | SawStarted | Parked | Returned

record exec =
  ex_started :: bool
  ex_finished :: bool
  ex_err :: "string option"
  ex_ctxErr :: "string option"
  ex_run :: run_pc
  ex_wait :: wait_pc

definition NewExec :: exec where
  "NewExec = \<lparr>ex_started = False, ex_finished = False, ex_err = None, ex_ctxErr = None,
     ex_run = NotRunning, ex_wait = NotWaiting\<rparr>"

definition exec_Start :: "exec \<Rightarrow> exec" where
  "exec_Start e = e\<lparr>ex_started := True, ex_run := InRunnable\<rparr>"

text \<open>\<open>cancelFunc\<close>: the first reason for the end of a context stays.\<close>

definition exec_Stop :: "exec \<Rightarrow> exec" where
  "exec_Stop e =
     (if ex_started e \<and> ex_ctxErr e = None then e\<lparr>ex_ctxErr := Some ''context canceled''\<rparr> else e)"

definition exec_Timeout :: "exec \<Rightarrow> exec" where
  "exec_Timeout e =
     (if ex_run e = InRunnable \<and> ex_ctxErr e = None
      then e\<lparr>ex_ctxErr := Some ''context deadline exceeded''\<rparr> else e)"

definition exec_result :: "string option \<Rightarrow> string option \<Rightarrow> string option" where
  "exec_result ctxErr err = (if ctxErr \<noteq> None then ctxErr else err)"

text \<open>The end of the goroutine: the runnable returned \<open>err\<close>.\<close>

definition exec_end :: "string option \<Rightarrow> exec \<Rightarrow> exec" where
  "exec_end err e = e\<lparr>ex_err := exec_result (ex_ctxErr e) err, ex_started := False, ex_finished := True,
     ex_run := Ended, ex_wait := (if ex_wait e = Parked then Returned else ex_wait e)\<rparr>"

text \<open>The two steps of \<open>Wait\<close>: the load of \<open>started\<close>, and parking on the receive.\<close>

definition exec_Wait :: "exec \<Rightarrow> exec" where
  "exec_Wait e = e\<lparr>ex_wait := (if ex_started e then SawStarted else Returned)\<rparr>"

definition exec_park :: "exec \<Rightarrow> exec" where
  "exec_park e = e\<lparr>ex_wait := Parked\<rparr>"

definition getErr :: "exec \<Rightarrow> string option" where
  "getErr e = ex_err e"

inductive exec_step :: "exec \<Rightarrow> exec \<Rightarrow> bool" where
  estep_stop: "exec_step e (exec_Stop e)"
| estep_timeout: "exec_step e (exec_Timeout e)"
| estep_end: "ex_run e = InRunnable \<Longrightarrow> exec_step e (exec_end err e)"
| estep_wait: "ex_wait e = NotWaiting \<Longrightarrow> exec_step e (exec_Wait e)"
| estep_park: "ex_wait e = SawStarted \<Longrightarrow> exec_step e (exec_park e)"

inductive_cases exec_step_cases: "exec_step e e'"

text \<open>The builder starts an \<open>Exec\<close> before any other goroutine sees it.\<close>

definition exec_init :: "exec \<Rightarrow> bool" where
  "exec_init e \<longleftrightarrow> e = exec_Start NewExec"

definition exec_inv :: "exec \<Rightarrow> bool" where
  "exec_inv e \<longleftrightarrow> (ex_started e \<longleftrightarrow> ex_run e = InRunnable) \<and> (ex_finished e \<longleftrightarrow> ex_run e = Ended) \<and>
     ex_run e \<noteq> NotRunning \<and> (ex_wait e = Returned \<longrightarrow> ex_finished e) \<and>
     (ex_finished e \<longrightarrow> ex_ctxErr e \<noteq> None \<longrightarrow> ex_err e \<noteq> None)"

lemmas exec_defs = exec_Stop_def exec_Timeout_def exec_end_def exec_Wait_def exec_park_def exec_result_def

interpretation exec_runs: invariant_of exec_init exec_step exec_inv
proof
  show "exec_inv e" if "exec_init e" for e
    using that by (simp add: exec_init_def exec_Start_def NewExec_def exec_inv_def)
  show "exec_inv e'" if "exec_inv e" "exec_step e e'" for e e'
    using that(2,1)
    by (cases rule: exec_step.cases; cases "ex_run e") (auto simp: exec_inv_def exec_defs)
qed

text \<open>
  Waiting is sound: when \<open>Wait\<close> returned, the runnable has ended and its error can be
  read; a run whose context ended while it was running never reports success.
\<close>

theorem exec_wait_sound:
  assumes "reachable exec_init exec_step e" and "ex_wait e = Returned"
  shows "ex_finished e \<and> \<not> ex_started e \<and> (ex_ctxErr e \<noteq> None \<longrightarrow> getErr e \<noteq> None)"
  using exec_runs.reachable_inv [OF assms(1)] assms(2) by (auto simp: exec_inv_def getErr_def)

lemma reachable_steps: "reachable init step s \<Longrightarrow> step\<^sup>*\<^sup>* s t \<Longrightarrow> reachable init step t"
  by (rotate_tac, induction rule: rtranclp_induct) (auto intro: reachable_step)

lemma exec_reach_wait: "reachable exec_init exec_step (exec_Wait (exec_Start NewExec))"
  by (rule reachable_step [where s = "exec_Start NewExec"])
    (auto simp: exec_init_def exec_Start_def NewExec_def intro: reachable_init exec_step.intros)

theorem exec_wait_sound_witness:
  "getErr (exec_end (Some ''boom'') (exec_park (exec_Wait (exec_Start NewExec)))) = Some ''boom'' \<and>
   ex_finished (exec_end (Some ''boom'') (exec_park (exec_Wait (exec_Start NewExec))))"
proof -
  let ?p = "exec_park (exec_Wait (exec_Start NewExec))"
  have "reachable exec_init exec_step ?p"
    by (rule reachable_step [OF exec_reach_wait]) (rule estep_park, simp add: exec_defs exec_Start_def)
  then have r: "reachable exec_init exec_step (exec_end (Some ''boom'') ?p)"
    by (rule reachable_step) (rule estep_end, simp add: exec_defs exec_Start_def)
  have w: "ex_wait (exec_end (Some ''boom'') ?p) = Returned" by (simp add: exec_defs)
  from exec_wait_sound [OF r w] show ?thesis
    by (simp add: exec_defs getErr_def exec_Start_def NewExec_def)
qed

text \<open>
  A wake-up can be lost: when the runnable ends between the two steps of \<open>Wait\<close>, its
  signal reaches nobody and the waiter parks for ever. This state is reachable, and no further step
  changes the waiter or ends the wait.
\<close>

theorem exec_lost_wakeup:
  "\<exists>e. reachable exec_init exec_step e \<and> ex_finished e \<and> ex_wait e = Parked \<and>
     (\<forall>e'. exec_step\<^sup>*\<^sup>* e e' \<longrightarrow> ex_wait e' = Parked)"
proof -
  let ?e1 = "exec_end None (exec_Wait (exec_Start NewExec))"
  let ?e = "exec_park ?e1"
  have "reachable exec_init exec_step ?e1"
    by (rule reachable_step [OF exec_reach_wait]) (rule estep_end, simp add: exec_defs exec_Start_def)
  then have "reachable exec_init exec_step ?e"
    by (rule reachable_step) (rule estep_park, simp add: exec_defs exec_Start_def)
  moreover have "ex_finished ?e" "ex_wait ?e = Parked" by (simp_all add: exec_defs)
  moreover have "ex_wait e' = Parked \<and> ex_run e' = Ended" if "exec_step\<^sup>*\<^sup>* ?e e'" for e'
    using that
  proof (induction rule: rtranclp_induct)
    case (step y z)
    from step(2,3) show ?case by (cases rule: exec_step.cases) (auto simp: exec_defs)
  qed (simp add: exec_defs)
  ultimately show ?thesis by blast
qed

theorem exec_lost_wakeup_witness:
  "\<exists>e. reachable exec_init exec_step e \<and> ex_finished e \<and> ex_wait e = Parked"
  using exec_lost_wakeup by blast

end
