(* ===== verification/Builder.thy ===== *)
theory Builder
  imports Store_Correct Exec
begin

text \<open>
  The builder of \<open>internal/builder/builder.go\<close>: it evaluates and builds one generation at a time.

  The evaluation and the build in flight are \<open>bu_evaluator\<close> and \<open>bu_buildator\<close> with the UUID they work
  for, their input and the error of their context, if it ended. The goroutines that wait for
  them finish in one critical section of the builder's mutex (\<open>eval_finish\<close>, \<open>build_finish\<close>). \<open>Stop\<close>
  cancels a run and waits for that section, so it is that section with a cancelled context. What the
  executor returns is a parameter (\<open>benv\<close>), with one environment of the store per call.
\<close>

section \<open>State\<close>

record benv =
  bv_env :: "nat \<Rightarrow> env"
  bv_Eval :: "Source option \<Rightarrow> string \<times> string \<times> string \<times> string option"
  bv_Build :: "string \<Rightarrow> string option"
  bv_IsStorePathExist :: "string \<Rightarrow> bool"

record builder =
  bu_store :: store
  bu_hostname :: string
  bu_repositoryPath :: string
  bu_repositoryDir :: string
  bu_systemAttr :: string
  bu_isEvaluating :: bool
  bu_isBuilding :: bool
  bu_GenerationUuid :: uuid
  bu_EvaluationDone :: "uuid list"
  bu_BuildDone :: "uuid list"
  bu_evaluator :: "(uuid \<times> Source option \<times> string option) option"
  bu_buildator :: "(uuid \<times> string \<times> string option) option"
  bu_isSuspended :: bool

datatype builder_error =
    StoreError store_error
  | AlreadySuspended
  | NotSuspended
  | AnotherGeneration
  | NotEvaluated
  | AlreadyBuilding
  | AlreadyBuilt

definition BuildReasonAlreadyBuilt :: string where "BuildReasonAlreadyBuilt = ''already built''"
definition BuildReasonNeedBuild :: string where "BuildReasonNeedBuild = ''need to be built''"

definition builder_New :: "store \<Rightarrow> string \<Rightarrow> string \<Rightarrow> string \<Rightarrow> string \<Rightarrow> builder" where
  "builder_New s repositoryPath repositoryDir systemAttr hostname =
     \<lparr>bu_store = s, bu_hostname = hostname, bu_repositoryPath = repositoryPath,
      bu_repositoryDir = repositoryDir, bu_systemAttr = systemAttr, bu_isEvaluating = False,
      bu_isBuilding = False, bu_GenerationUuid = [], bu_EvaluationDone = [], bu_BuildDone = [],
      bu_evaluator = None, bu_buildator = None, bu_isSuspended = False\<rparr>"

definition builder_State :: "builder \<Rightarrow> pbBuilder" where
  "builder_State b =
     \<lparr>pbb_IsEvaluating = Some (bu_isEvaluating b), pbb_IsBuilding = Some (bu_isBuilding b),
      pbb_Generation =
        (if bu_GenerationUuid b \<noteq> []
         then (case GenerationGet (bu_GenerationUuid b) (bu_store b) of Inl _ \<Rightarrow> None | Inr g \<Rightarrow> Some g)
         else None),
      pbb_GenerationUuid = bu_GenerationUuid b, pbb_IsSuspended = Some (bu_isSuspended b),
      pbb_Hostname = bu_hostname b, pbb_RepositoryPath = bu_repositoryPath b\<rparr>"

section \<open>The end of an evaluation and of a build\<close>

text \<open>An error of the store is logged.\<close>

definition logged :: "store \<Rightarrow> store_error + store \<Rightarrow> store" where
  "logged s r = (case r of Inl _ \<Rightarrow> s | Inr s' \<Rightarrow> s')"

definition eval_finish :: "benv \<Rightarrow> builder \<Rightarrow> builder option" where
  "eval_finish V b =
     (case bu_evaluator b of
        None \<Rightarrow> None
      | Some (u, source, ctxErr) \<Rightarrow>
          let (drvPath, outPath, machineId, err) = bv_Eval V source;
              s0 = bu_store b;
              s1 = logged s0 (GenerationEvalFinished (bv_env V 0) u drvPath outPath machineId
                                (exec_result ctxErr err) s0);
              b1 = b\<lparr>bu_store := s1, bu_isEvaluating := False, bu_evaluator := None\<rparr>
          in if bv_IsStorePathExist V outPath
             then let s2 = logged s1 (GenerationBuildStart (bv_env V 1) u BuildReasonAlreadyBuilt s1);
                      s3 = logged s2 (GenerationBuildFinished (bv_env V 2) u None s2)
                  in Some (b1\<lparr>bu_store := s3, bu_BuildDone := try_send 1 u (bu_BuildDone b)\<rparr>)
             else Some (b1\<lparr>bu_EvaluationDone := try_send 1 u (bu_EvaluationDone b)\<rparr>))"

definition build_finish :: "benv \<Rightarrow> builder \<Rightarrow> builder option" where
  "build_finish V b =
     (case bu_buildator b of
        None \<Rightarrow> None
      | Some (u, drvPath, ctxErr) \<Rightarrow>
          Some (b\<lparr>bu_store := logged (bu_store b) (GenerationBuildFinished (bv_env V 3) u
                     (exec_result ctxErr (bv_Build V drvPath)) (bu_store b)),
                  bu_isBuilding := False, bu_buildator := None,
                  bu_BuildDone := try_send 1 u (bu_BuildDone b)\<rparr>))"

text \<open>The end of the context of a run: by its timeout or by \<open>Stop\<close>; the first one stays.\<close>

definition cancel_eval :: "string \<Rightarrow> builder \<Rightarrow> builder" where
  "cancel_eval why b = b\<lparr>bu_evaluator := map_option (\<lambda>(u, source, ctxErr).
     (u, source, if ctxErr = None then Some why else ctxErr)) (bu_evaluator b)\<rparr>"

definition cancel_build :: "string \<Rightarrow> builder \<Rightarrow> builder" where
  "cancel_build why b = b\<lparr>bu_buildator := map_option (\<lambda>(u, drvPath, ctxErr).
     (u, drvPath, if ctxErr = None then Some why else ctxErr)) (bu_buildator b)\<rparr>"

section \<open>Operations\<close>

definition stopEval :: "benv \<Rightarrow> builder \<Rightarrow> builder" where
  "stopEval V b =
     (case eval_finish V (cancel_eval ''context canceled'' b) of None \<Rightarrow> b | Some b' \<Rightarrow> b')
     \<lparr>bu_isEvaluating := False\<rparr>"

definition stopBuild :: "benv \<Rightarrow> builder \<Rightarrow> builder" where
  "stopBuild V b =
     (case build_finish V (cancel_build ''context canceled'' b) of None \<Rightarrow> b | Some b' \<Rightarrow> b')
     \<lparr>bu_isBuilding := False\<rparr>"

definition Stop :: "benv \<Rightarrow> builder \<Rightarrow> builder" where
  "Stop V b = stopBuild V (stopEval V b)"

definition open_log :: "env \<Rightarrow> string \<Rightarrow> uuid \<Rightarrow> store \<Rightarrow> store" where
  "open_log E obj u s = publish (Event_Log obj u Log_Open) (clk E 0) s"

definition Eval :: "benv \<Rightarrow> Generation \<Rightarrow> builder \<Rightarrow> builder_error option \<times> builder" where
  "Eval V g b =
     (let b1 = (Stop V b)\<lparr>bu_isEvaluating := True\<rparr>
      in case GenerationEvalStarted (bv_env V 4) (g_Uuid g) (bu_store b1) of
           Inl e \<Rightarrow> (Some (StoreError e), b1)
         | Inr s \<Rightarrow> (None, b1\<lparr>bu_store := open_log (bv_env V 5) ''evaluation'' (g_Uuid g) s,
                               bu_GenerationUuid := g_Uuid g,
                               bu_evaluator := Some (g_Uuid g, g_Source g, None)\<rparr>))"

definition build :: "benv \<Rightarrow> uuid \<Rightarrow> builder \<Rightarrow> builder_error option \<times> builder" where
  "build V u b =
     (if bu_GenerationUuid b \<noteq> [] \<and> u \<noteq> bu_GenerationUuid b then (Some AnotherGeneration, b)
      else case GenerationGet u (bu_store b) of
        Inl e \<Rightarrow> (Some (StoreError e), b)
      | Inr g \<Rightarrow>
          if g_EvalStatus g \<noteq> EvalStatus_String Evaluated then (Some NotEvaluated, b)
          else if bu_isBuilding b then (Some AlreadyBuilding, b)
          else if g_BuildStatus g = BuildStatus_String Built then (Some AlreadyBuilt, b)
          else (case GenerationBuildStart (bv_env V 6) u BuildReasonNeedBuild (bu_store b) of
                  Inl e \<Rightarrow> (Some (StoreError e), b)
                | Inr s \<Rightarrow> (None, b\<lparr>bu_store := open_log (bv_env V 7) ''build'' (g_Uuid g) s,
                                     bu_isBuilding := True,
                                     bu_buildator := Some (u, g_DrvPath g, None)\<rparr>)))"

definition builder_Suspend :: "benv \<Rightarrow> builder \<Rightarrow> builder_error option \<times> builder" where
  "builder_Suspend V b =
     (if bu_isSuspended b then (Some AlreadySuspended, b)
      else (None, (stopBuild V b)\<lparr>bu_isSuspended := True\<rparr>))"

definition builder_Resume :: "benv \<Rightarrow> builder \<Rightarrow> builder_error option \<times> builder" where
  "builder_Resume V b =
     (if \<not> bu_isSuspended b then (Some NotSuspended, b)
      else let b1 = b\<lparr>bu_isSuspended := False\<rparr>
           in if bu_GenerationUuid b1 = [] then (None, b1)
              else case GenerationGet (bu_GenerationUuid b1) (bu_store b1) of
                     Inl e \<Rightarrow> (Some (StoreError e), b1)
                   | Inr g \<Rightarrow>
                       if GenerationHasToBeBuilt g
                       then (None, snd (build V (bu_GenerationUuid b1) b1))
                       else (None, b1))"

definition SubmitBuild :: "benv \<Rightarrow> uuid \<Rightarrow> builder \<Rightarrow> builder" where
  "SubmitBuild V u b = (if bu_isSuspended b then b else snd (build V u b))"

text \<open>
  The builder with its clients. Other components also change the shared store; of these changes
  only the ones to the generations matter here: \<open>NewGeneration\<close>, called by the manager.
\<close>

inductive builder_step :: "builder \<Rightarrow> builder \<Rightarrow> bool" where
  bstep_new: "fresh_uuids E (st_persisted (bu_store b)) \<Longrightarrow>
    NewGeneration E h d a rs (bu_store b) = (g, s) \<Longrightarrow> builder_step b (b\<lparr>bu_store := s\<rparr>)"
| bstep_store: "st_Generations s = st_Generations (bu_store b) \<Longrightarrow>
    st_lastEvalStarted s = st_lastEvalStarted (bu_store b) \<Longrightarrow>
    last_uuids s = last_uuids (bu_store b) \<Longrightarrow> builder_step b (b\<lparr>bu_store := s\<rparr>)"
| bstep_eval: "g_Uuid g \<noteq> [] \<Longrightarrow> Eval V g b = (e, b') \<Longrightarrow> builder_step b b'"
| bstep_eval_finish: "eval_finish V b = Some b' \<Longrightarrow> builder_step b b'"
| bstep_build_finish: "build_finish V b = Some b' \<Longrightarrow> builder_step b b'"
| bstep_eval_timeout: "builder_step b (cancel_eval ''context deadline exceeded'' b)"
| bstep_build_timeout: "builder_step b (cancel_build ''context deadline exceeded'' b)"
| bstep_suspend: "builder_Suspend V b = (e, b') \<Longrightarrow> builder_step b b'"
| bstep_resume: "builder_Resume V b = (e, b') \<Longrightarrow> builder_step b b'"
| bstep_submit: "builder_step b (SubmitBuild V u b)"
| bstep_evaluated: "bu_EvaluationDone b = u # us \<Longrightarrow> builder_step b (b\<lparr>bu_EvaluationDone := us\<rparr>)"
| bstep_built: "bu_BuildDone b = u # us \<Longrightarrow> builder_step b (b\<lparr>bu_BuildDone := us\<rparr>)"

definition builder_init :: "builder \<Rightarrow> bool" where
  "builder_init b \<longleftrightarrow> (\<exists>s path dir attr host. generations_inv s \<and> b = builder_New s path dir attr host)"

section \<open>Invariant\<close>

definition evaluating :: "uuid \<Rightarrow> store \<Rightarrow> bool" where
  "evaluating u s \<longleftrightarrow> (\<exists>g. generationGet u (st_Generations s) = Some g \<and>
     g_EvalStatus g = EvalStatus_String Evaluating)"

definition builder_inv :: "builder \<Rightarrow> bool" where
  "builder_inv b \<longleftrightarrow> generations_inv (bu_store b) \<and>
     (bu_GenerationUuid b \<noteq> [] \<longrightarrow> st_lastEvalStarted (bu_store b) = Some (bu_GenerationUuid b)) \<and>
     (case bu_evaluator b of None \<Rightarrow> True
      | Some (u, source, ctxErr) \<Rightarrow> u \<noteq> [] \<and> bu_GenerationUuid b = u \<and> bu_isEvaluating b \<and>
          bu_buildator b = None \<and> evaluating u (bu_store b)) \<and>
     (bu_isBuilding b \<longleftrightarrow> bu_buildator b \<noteq> None) \<and>
     (case bu_buildator b of None \<Rightarrow> True
      | Some (u, drvPath, ctxErr) \<Rightarrow> bu_GenerationUuid b = [] \<or> bu_GenerationUuid b = u) \<and>
     length (bu_EvaluationDone b) \<le> 1 \<and> length (bu_BuildDone b) \<le> 1"

text \<open>The operations of the store, failing or not, as the builder uses them.\<close>

lemma logged_generations_inv:
  assumes "generations_inv s"
  shows "generations_inv (logged s (GenerationEvalFinished E u d p m e s))"
    and "generations_inv (logged s (GenerationBuildStart E u r s))"
    and "generations_inv (logged s (GenerationBuildFinished E u err s))"
  using assms by (auto simp: logged_def split: sum.split intro: inv_intros)

lemma change_lastEvalStarted:
  assumes "change_generation f record_last ev now u s = Inr s'"
    and "\<And>s. st_lastEvalStarted (record_last s) = st_lastEvalStarted s"
  shows "st_lastEvalStarted s' = st_lastEvalStarted s"
  using assms by (auto simp: change_generation_def generationsGC_def upd_generations_def publish_def
      split: option.splits)

lemma logged_lastEvalStarted [simp]:
  "st_lastEvalStarted (logged s (GenerationEvalFinished E u d p m e s)) = st_lastEvalStarted s"
  "st_lastEvalStarted (logged s (GenerationBuildStart E u r s)) = st_lastEvalStarted s"
  "st_lastEvalStarted (logged s (GenerationBuildFinished E u err s)) = st_lastEvalStarted s"
proof -
  show "st_lastEvalStarted (logged s (GenerationEvalFinished E u d p m e s)) = st_lastEvalStarted s"
    unfolding GenerationEvalFinished_def logged_def
    by (auto split: sum.split dest: change_lastEvalStarted)
  show "st_lastEvalStarted (logged s (GenerationBuildStart E u r s)) = st_lastEvalStarted s"
    unfolding GenerationBuildStart_def logged_def
    by (auto split: sum.split dest: change_lastEvalStarted)
  have "st_lastEvalStarted (link_gcroot E p s) = st_lastEvalStarted s" for p
    by (simp add: link_gcroot_def Let_def)
  then show "st_lastEvalStarted (logged s (GenerationBuildFinished E u err s)) = st_lastEvalStarted s"
    unfolding GenerationBuildFinished_def logged_def
    by (auto split: sum.split option.splits if_splits dest: change_lastEvalStarted)
qed

lemma open_log_frames [simp]:
  "st_lastEvalStarted (open_log E obj u s) = st_lastEvalStarted s"
  "generations_inv (open_log E obj u s) = generations_inv s"
  "st_Generations (open_log E obj u s) = st_Generations s"
  "last_uuids (open_log E obj u s) = last_uuids s"
  by (simp_all add: open_log_def publish_def generations_inv_def last_uuids_def)

lemma evaluating_open_log [simp]: "evaluating v (open_log E obj u s) = evaluating v s"
  by (simp add: evaluating_def)

lemma try_send_le: "length ch \<le> 1 \<Longrightarrow> length (try_send 1 x ch) \<le> Suc 0"
  using try_send_bound [of ch 1 x] by simp

lemma eval_finish_inv:
  assumes "builder_inv b" and "eval_finish V b = Some b'"
  shows "builder_inv b'" and "bu_evaluator b' = None" and "bu_isEvaluating b' = False"
    and "bu_GenerationUuid b' = bu_GenerationUuid b" and "bu_buildator b' = bu_buildator b"
proof -
  obtain u source ctxErr where ev: "bu_evaluator b = Some (u, source, ctxErr)"
    using assms(2) by (auto simp: eval_finish_def split: option.splits)
  obtain d p m err where r: "bv_Eval V source = (d, p, m, err)" by (metis prod_cases4)
  have g: "generations_inv (bu_store b)" using assms(1) by (simp add: builder_inv_def)
  note g1 = logged_generations_inv(1) [OF g]
  note g2 = logged_generations_inv(2) [OF g1]
  note g3 = logged_generations_inv(3) [OF g2]
  show "builder_inv b'" "bu_evaluator b' = None" "bu_isEvaluating b' = False"
    "bu_GenerationUuid b' = bu_GenerationUuid b" "bu_buildator b' = bu_buildator b"
    using assms ev r g1 g3
    by (auto simp: eval_finish_def builder_inv_def Let_def try_send_le [unfolded One_nat_def]
        split: if_splits)
qed

lemma build_finish_inv:
  assumes "builder_inv b" and "build_finish V b = Some b'"
  shows "builder_inv b'" and "bu_buildator b' = None" and "bu_isBuilding b' = False"
    and "bu_GenerationUuid b' = bu_GenerationUuid b" and "bu_evaluator b' = bu_evaluator b"
proof -
  obtain u dp ctxErr where bd: "bu_buildator b = Some (u, dp, ctxErr)"
    using assms(2) by (auto simp: build_finish_def split: option.splits)
  have ev: "bu_evaluator b = None"
    using assms(1) bd by (cases "bu_evaluator b") (auto simp: builder_inv_def)
  have g: "generations_inv (bu_store b)" using assms(1) by (simp add: builder_inv_def)
  note g1 = logged_generations_inv(3) [OF g]
  show "builder_inv b'" "bu_buildator b' = None" "bu_isBuilding b' = False"
    "bu_GenerationUuid b' = bu_GenerationUuid b" "bu_evaluator b' = bu_evaluator b"
    using assms bd ev g1
    by (auto simp: build_finish_def builder_inv_def Let_def try_send_le [unfolded One_nat_def])
qed

lemma cancel_inv:
  assumes "builder_inv b"
  shows "builder_inv (cancel_eval why b)" "builder_inv (cancel_build why b)"
  using assms by (auto simp: builder_inv_def cancel_eval_def cancel_build_def split: option.splits)

lemma eval_finish_None: "eval_finish V b = None \<longleftrightarrow> bu_evaluator b = None"
  by (auto simp: eval_finish_def Let_def split: option.split prod.split)

lemma build_finish_None: "build_finish V b = None \<longleftrightarrow> bu_buildator b = None"
  by (auto simp: build_finish_def split: option.split)

lemma cancel_frames [simp]:
  "bu_GenerationUuid (cancel_eval w b) = bu_GenerationUuid b" "bu_GenerationUuid (cancel_build w b) = bu_GenerationUuid b"
  "bu_buildator (cancel_eval w b) = bu_buildator b" "bu_evaluator (cancel_build w b) = bu_evaluator b"
  "(bu_evaluator (cancel_eval w b) = None) = (bu_evaluator b = None)"
  "(bu_buildator (cancel_build w b) = None) = (bu_buildator b = None)"
  by (simp_all add: cancel_eval_def cancel_build_def)

lemma stopEval_inv:
  assumes "builder_inv b"
  shows "builder_inv (stopEval V b)" "bu_evaluator (stopEval V b) = None"
    "bu_GenerationUuid (stopEval V b) = bu_GenerationUuid b"
proof -
  let ?c = "cancel_eval ''context canceled'' b"
  have c: "builder_inv ?c" using assms by (rule cancel_inv)
  have "builder_inv (stopEval V b) \<and> bu_evaluator (stopEval V b) = None \<and>
      bu_GenerationUuid (stopEval V b) = bu_GenerationUuid b"
  proof (cases "eval_finish V ?c")
    case None
    then have "bu_evaluator b = None" by (simp add: eval_finish_None)
    with None assms show ?thesis by (auto simp: stopEval_def builder_inv_def split: option.splits)
  next
    case (Some b')
    with eval_finish_inv [OF c Some] show ?thesis by (auto simp: stopEval_def builder_inv_def split: option.splits)
  qed
  then show "builder_inv (stopEval V b)" "bu_evaluator (stopEval V b) = None"
    "bu_GenerationUuid (stopEval V b) = bu_GenerationUuid b" by simp_all
qed

lemma stopBuild_inv:
  assumes "builder_inv b"
  shows "builder_inv (stopBuild V b)" "bu_buildator (stopBuild V b) = None"
    "bu_evaluator (stopBuild V b) = bu_evaluator b" "bu_isBuilding (stopBuild V b) = False"
    "bu_GenerationUuid (stopBuild V b) = bu_GenerationUuid b"
proof -
  let ?c = "cancel_build ''context canceled'' b"
  have c: "builder_inv ?c" using assms by (rule cancel_inv)
  have "builder_inv (stopBuild V b) \<and> bu_buildator (stopBuild V b) = None \<and>
      bu_evaluator (stopBuild V b) = bu_evaluator b \<and> bu_GenerationUuid (stopBuild V b) = bu_GenerationUuid b"
  proof (cases "build_finish V ?c")
    case None
    then have "bu_buildator b = None" by (simp add: build_finish_None)
    with None assms show ?thesis by (auto simp: stopBuild_def builder_inv_def split: option.splits)
  next
    case (Some b')
    with build_finish_inv [OF c Some] show ?thesis by (auto simp: stopBuild_def builder_inv_def split: option.splits)
  qed
  then show "builder_inv (stopBuild V b)" "bu_buildator (stopBuild V b) = None"
    "bu_evaluator (stopBuild V b) = bu_evaluator b" "bu_isBuilding (stopBuild V b) = False"
    "bu_GenerationUuid (stopBuild V b) = bu_GenerationUuid b"
    by (simp_all add: stopBuild_def)
qed

lemma Stop_inv:
  assumes "builder_inv b"
  shows "builder_inv (Stop V b)" "bu_evaluator (Stop V b) = None" "bu_buildator (Stop V b) = None"
  using stopBuild_inv [OF stopEval_inv(1) [OF assms]] stopEval_inv(2) [OF assms] by (simp_all add: Stop_def)

lemma GenerationEvalStarted_ok:
  assumes "GenerationEvalStarted E u s = Inr s'"
  shows "evaluating u s'" and "st_lastEvalStarted s' = Some u"
proof -
  note c = assms [unfolded GenerationEvalStarted_def]
  show "evaluating u s'" using eval_started.ok_get [OF c] by (auto simp: evaluating_def)
  show "st_lastEvalStarted s' = Some u"
    using c by (auto simp: change_generation_def generationsGC_def upd_generations_def publish_def
        split: option.splits)
qed

lemma Eval_inv:
  assumes "builder_inv b" and "g_Uuid g \<noteq> []" and "Eval V g b = (e, b')"
  shows "builder_inv b'"
proof (cases "GenerationEvalStarted (bv_env V 4) (g_Uuid g) (bu_store (Stop V b))")
  case (Inl err)
  with Stop_inv [OF assms(1)] assms(3) show ?thesis by (auto simp: Eval_def Let_def builder_inv_def)
next
  case (Inr s)
  have "generations_inv s"
    using GenerationEvalStarted_inv [OF Inr] Stop_inv(1) [OF assms(1)] by (simp add: builder_inv_def)
  with Stop_inv [OF assms(1), of V] GenerationEvalStarted_ok [OF Inr] assms(2,3) Inr show ?thesis
    by (auto simp: Eval_def Let_def builder_inv_def)
qed

text \<open>A build only starts for the generation the builder works on, when it is evaluated.\<close>

lemma build_unfold:
  "snd (build V u b) = b \<and> fst (build V u b) \<noteq> None \<or>
     (\<exists>g s. fst (build V u b) = None \<and> GenerationGet u (bu_store b) = Inr g \<and>
        g_EvalStatus g = EvalStatus_String Evaluated \<and>
        \<not> bu_isBuilding b \<and> (bu_GenerationUuid b = [] \<or> u = bu_GenerationUuid b) \<and>
        GenerationBuildStart (bv_env V 6) u BuildReasonNeedBuild (bu_store b) = Inr s \<and>
        snd (build V u b) = b\<lparr>bu_store := open_log (bv_env V 7) ''build'' (g_Uuid g) s,
          bu_isBuilding := True, bu_buildator := Some (u, g_DrvPath g, None)\<rparr>)"
  unfolding build_def
  by (cases "GenerationGet u (bu_store b)";
      cases "GenerationBuildStart (bv_env V 6) u BuildReasonNeedBuild (bu_store b)")
    auto

lemma build_cases:
  assumes "build V u b = (e, b')"
  obtains "b' = b" "e \<noteq> None"
  | g s where "e = None" "GenerationGet u (bu_store b) = Inr g" "g_EvalStatus g = EvalStatus_String Evaluated"
      "\<not> bu_isBuilding b" "bu_GenerationUuid b = [] \<or> u = bu_GenerationUuid b"
      "GenerationBuildStart (bv_env V 6) u BuildReasonNeedBuild (bu_store b) = Inr s"
      "b' = b\<lparr>bu_store := open_log (bv_env V 7) ''build'' (g_Uuid g) s, bu_isBuilding := True,
              bu_buildator := Some (u, g_DrvPath g, None)\<rparr>"
proof -
  have "b' = snd (build V u b)" "e = fst (build V u b)" using assms by simp_all
  then show thesis using build_unfold [of V u b] that by metis
qed

lemma build_inv:
  assumes "builder_inv b" and "build V u b = (e, b')"
  shows "builder_inv b'"
  using assms(2)
proof (cases rule: build_cases)
  case (2 g s)
  have ev: "bu_evaluator b = None"
  proof (cases "bu_evaluator b")
    case (Some a)
    then obtain w source ctxErr where a: "bu_evaluator b = Some (w, source, ctxErr)" by (cases a) auto
    then have "w = u" "evaluating w (bu_store b)" using assms(1) 2(5) by (auto simp: builder_inv_def)
    with 2(2,3) show ?thesis by (auto simp: evaluating_def GenerationGet_def split: option.splits)
  qed
  have "generations_inv s" "st_lastEvalStarted s = st_lastEvalStarted (bu_store b)"
    using GenerationBuildStart_inv [OF 2(6)] assms(1)
      logged_lastEvalStarted(2) [of "bu_store b" "bv_env V 6" u BuildReasonNeedBuild] 2(6)
    by (simp_all add: builder_inv_def logged_def)
  with 2 ev assms(1) show ?thesis by (auto simp: builder_inv_def)
qed (use assms in simp)

lemma SubmitBuild_inv: "builder_inv b \<Longrightarrow> builder_inv (SubmitBuild V u b)"
  using build_inv [of b V u] by (cases "build V u b") (simp add: SubmitBuild_def)

lemma isSuspended_inv [simp]: "builder_inv (b\<lparr>bu_isSuspended := x\<rparr>) = builder_inv b"
  by (auto simp: builder_inv_def split: option.splits)

lemma builder_Suspend_inv: "builder_inv b \<Longrightarrow> builder_Suspend V b = (e, b') \<Longrightarrow> builder_inv b'"
  using stopBuild_inv(1) [of b V] by (auto simp: builder_Suspend_def split: if_splits)

lemma builder_Resume_inv:
  assumes "builder_inv b" and "builder_Resume V b = (e, b')"
  shows "builder_inv b'"
proof -
  let ?b1 = "b\<lparr>bu_isSuspended := False\<rparr>"
  have "builder_inv (snd (build V u ?b1))" for u
    using build_inv [of ?b1 V u] assms(1) by (cases "build V u ?b1") simp
  with assms show ?thesis by (auto simp: builder_Resume_def Let_def split: if_splits sum.splits)
qed

lemma builder_store_inv:
  assumes "builder_inv b" and "generations_inv s"
    and "st_lastEvalStarted s = st_lastEvalStarted (bu_store b)"
    and "\<And>u. evaluating u (bu_store b) \<Longrightarrow> evaluating u s"
  shows "builder_inv (b\<lparr>bu_store := s\<rparr>)"
  using assms by (auto simp: builder_inv_def split: option.splits)

lemma find_first_append: "find_first P xs = Some x \<Longrightarrow> find_first P (xs @ ys) = Some x"
  by (induction xs) (auto split: if_splits)

lemma builder_step_inv: "builder_inv b \<Longrightarrow> builder_step b b' \<Longrightarrow> builder_inv b'"
proof (rotate_tac, induction rule: builder_step.induct)
  case (bstep_new E b h d a rs g s)
  have s: "s = snd (NewGeneration E h d a rs (bu_store b))" using bstep_new(2) by simp
  have "generations_inv (bu_store b)" using bstep_new(3) by (simp add: builder_inv_def)
  then have "generations_inv s" by (rule NewGeneration_inv [OF bstep_new(2) fresh_uuidsD(3) [OF bstep_new(1)]])
  moreover have "evaluating u s" if "evaluating u (bu_store b)" for u
    using that by (auto simp: s NewGeneration_def Let_def evaluating_def generationGet_def
        intro: find_first_append)
  ultimately show ?case
    using bstep_new(3) by (intro builder_store_inv) (simp_all add: s NewGeneration_def Let_def upd_generations_def)
next
  case (bstep_store s b)
  then show ?case
    by (intro builder_store_inv) (auto simp: builder_inv_def generations_inv_def evaluating_def)
next
  case (bstep_evaluated b u us)
  then show ?case by (auto simp: builder_inv_def split: option.splits)
next
  case (bstep_built b u us)
  then show ?case by (auto simp: builder_inv_def split: option.splits)
qed (auto intro: Eval_inv eval_finish_inv(1) build_finish_inv(1) cancel_inv builder_Suspend_inv
    builder_Resume_inv SubmitBuild_inv)

interpretation builder_runs: invariant_of builder_init builder_step builder_inv
proof
  show "builder_inv b" if "builder_init b" for b
    using that by (auto simp: builder_init_def builder_New_def builder_inv_def)
qed (rule builder_step_inv)

section \<open>Properties\<close>

lemma managed_generation:
  assumes "builder_inv b" and "bu_GenerationUuid b \<noteq> []"
  obtains g where "generationGet (bu_GenerationUuid b) (st_Generations (bu_store b)) = Some g"
proof -
  have "bu_GenerationUuid b \<in> g_Uuid ` set (st_Generations (bu_store b))"
    using assms by (auto simp: builder_inv_def generations_inv_def last_uuids_def)
  then show thesis using that gen_table.get_None by (metis not_None_eq)
qed


lemma builder_Resume_ok:
  assumes inv: "builder_inv b" and "bu_isSuspended b"
  shows "fst (builder_Resume V b) = None" and "\<not> bu_isSuspended (snd (builder_Resume V b))"
    and "bu_GenerationUuid b \<noteq> [] \<Longrightarrow> GenerationGet (bu_GenerationUuid b) (bu_store b) = Inr g \<Longrightarrow>
       GenerationHasToBeBuilt g \<Longrightarrow> bu_buildator (snd (builder_Resume V b)) \<noteq> None"
proof -
  let ?u = "bu_GenerationUuid b" and ?b1 = "b\<lparr>bu_isSuspended := False\<rparr>"
  have susp: "\<not> bu_isSuspended (snd (build V ?u ?b1))"
    using build_unfold [of V ?u ?b1] by auto
  have found: "?u \<noteq> [] \<longrightarrow> (\<exists>g. GenerationGet ?u (bu_store b) = Inr g)"
  proof
    assume "?u \<noteq> []"
    then obtain g where "generationGet ?u (st_Generations (bu_store b)) = Some g"
      using managed_generation [OF inv] by blast
    then show "\<exists>g. GenerationGet ?u (bu_store b) = Inr g" by (simp add: GenerationGet_def)
  qed
  show "fst (builder_Resume V b) = None" "\<not> bu_isSuspended (snd (builder_Resume V b))"
    using assms(2) found susp by (auto simp: builder_Resume_def Let_def split: sum.splits)
  show "bu_buildator (snd (builder_Resume V b)) \<noteq> None"
    if "?u \<noteq> []" and g: "GenerationGet ?u (bu_store b) = Inr g" and h: "GenerationHasToBeBuilt g"
  proof -
    obtain s where s: "GenerationBuildStart (bv_env V 6) ?u BuildReasonNeedBuild (bu_store b) = Inr s"
      using g by (auto simp: GenerationGet_def GenerationBuildStart_def change_generation_def
          split: option.splits)
    have "bu_isBuilding b \<Longrightarrow> bu_buildator b \<noteq> None" using inv by (simp add: builder_inv_def)
    then have "bu_buildator (snd (build V ?u ?b1)) \<noteq> None"
      using h g s by (auto simp: build_def GenerationHasToBeBuilt_def)
    with that assms(2) show ?thesis by (simp add: builder_Resume_def Let_def)
  qed
qed

text \<open>
  Resuming a suspended builder always succeeds, and restarts the build that was pending:
  when the generation it works on is evaluated and not built, its build is in flight afterwards.
\<close>

theorem builder_resume_restarts:
  assumes "reachable builder_init builder_step b" and "bu_isSuspended b"
  shows "fst (builder_Resume V b) = None \<and> \<not> bu_isSuspended (snd (builder_Resume V b)) \<and>
    (\<forall>g. bu_GenerationUuid b \<noteq> [] \<longrightarrow> GenerationGet (bu_GenerationUuid b) (bu_store b) = Inr g \<longrightarrow>
       GenerationHasToBeBuilt g \<longrightarrow> bu_buildator (snd (builder_Resume V b)) \<noteq> None)"
  using builder_Resume_ok [OF builder_runs.reachable_inv [OF assms(1)] assms(2)] by blast

definition example_benv :: benv where
  "example_benv = \<lparr>bv_env = (\<lambda>_. example_env 3 20), bv_Eval = (\<lambda>_. (''drv'', ''st3'', [], None)),
     bv_Build = (\<lambda>_. None), bv_IsStorePathExist = (\<lambda>_. False)\<rparr>"

definition example_evaluating :: builder where
  "example_evaluating = snd (Eval example_benv example_gen
     (builder_New (upd_generations (\<lambda>_. [example_gen]) example_new) ''path'' ''dir'' ''attr'' ''host''))"

definition example_builder :: builder where
  "example_builder = snd (builder_Suspend example_benv (the (eval_finish example_benv example_evaluating)))"

lemma example_evaluating_reachable:
  "reachable builder_init builder_step example_evaluating"
  "bu_evaluator example_evaluating = Some (''g'', None, None)"
proof -
  let ?b0 = "builder_New (upd_generations (\<lambda>_. [example_gen]) example_new) ''path'' ''dir'' ''attr'' ''host''"
  have "generations_inv (upd_generations (\<lambda>_. [example_gen]) example_new)"
    by (simp add: generations_inv_def last_uuids_def store_simps upd_generations_def)
  then have "builder_init ?b0" unfolding builder_init_def by blast
  then have "reachable builder_init builder_step ?b0" by (rule reachable_init)
  moreover have "builder_step ?b0 example_evaluating"
    unfolding example_evaluating_def
    by (rule bstep_eval [of example_gen example_benv _ "fst (Eval example_benv example_gen ?b0)"])
      (simp add: example_gen_def, rule prod.collapse [symmetric])
  ultimately show "reachable builder_init builder_step example_evaluating" by (rule reachable_step)
  show "bu_evaluator example_evaluating = Some (''g'', None, None)"
    by (simp add: example_evaluating_def Eval_def Let_def Stop_def stopEval_def stopBuild_def
        eval_finish_def build_finish_def cancel_eval_def cancel_build_def builder_New_def
        GenerationEvalStarted_def change_generation_def generationGet_def example_gen_def Generation0_def)
qed

lemma example_builder_reachable: "reachable builder_init builder_step example_builder"
proof -
  let ?b2 = "the (eval_finish example_benv example_evaluating)"
  have "eval_finish example_benv example_evaluating = Some ?b2"
    using eval_finish_None example_evaluating_reachable(2) by (metis option.collapse option.distinct(1))
  then have "builder_step example_evaluating ?b2" by (rule bstep_eval_finish)
  with example_evaluating_reachable(1) have r2: "reachable builder_init builder_step ?b2"
    by (rule reachable_step)
  show ?thesis
    by (rule reachable_step [OF r2], rule bstep_suspend [of example_benv _ "fst (builder_Suspend example_benv ?b2)"])
      (simp add: example_builder_def)
qed

lemma example_builder_view:
  "(bu_isSuspended example_builder, bu_GenerationUuid example_builder, bu_evaluator example_builder,
    bu_EvaluationDone example_builder,
    (case GenerationGet ''g'' (bu_store example_builder) of Inl _ \<Rightarrow> False | Inr g \<Rightarrow> GenerationHasToBeBuilt g)) =
   (True, ''g'', None, [''g''], True)"
  by code_simp


theorem builder_resume_restarts_witness:
  "bu_buildator (snd (builder_Resume example_benv example_builder)) \<noteq> None"
proof -
  have s: "bu_isSuspended example_builder" using example_builder_view by simp
  obtain g where "GenerationGet (bu_GenerationUuid example_builder) (bu_store example_builder) = Inr g"
    "GenerationHasToBeBuilt g" "bu_GenerationUuid example_builder \<noteq> []"
    using example_builder_view by (cases "GenerationGet ''g'' (bu_store example_builder)") auto
  with builder_resume_restarts [OF example_builder_reachable s, of example_benv] show ?thesis by blast
qed

text \<open>The lookups after the end of an evaluation or a build of another generation.\<close>

lemma eval_finished_drops:
  assumes "GenerationEvalFinished E u d p m e s = Inr s'" and "v \<noteq> u" and "v \<notin> last_uuids s"
  shows "generationGet v (st_Generations s') = None"
proof -
  note c = assms(1) [unfolded GenerationEvalFinished_def]
  have "v \<notin> last_uuids s'" using eval_done.ok_generations(4) [OF c] assms(2,3) by blast
  then show ?thesis using eval_done.ok_generations(1) [OF c] by (auto simp: gen_table.get_None)
qed

text \<open>Once collected, a generation stays away: the other operations do not bring it back.\<close>

lemma logged_get_None:
  assumes "generationGet v (st_Generations s) = None"
  shows "generationGet v (st_Generations (logged s (GenerationBuildStart E u r s))) = None"
    and "generationGet v (st_Generations (logged s (GenerationBuildFinished E u err s))) = None"
proof -
  have sub: "generationGet v (st_Generations s') = None"
    if "st_Generations s' = filter P (generationPut u f (st_Generations s))"
      "\<And>g. g_Uuid (f g) = g_Uuid g" for P f s'
  proof -
    have "g_Uuid ` set (generationPut u f (st_Generations s)) = g_Uuid ` set (st_Generations s)"
      using gen_table.put_keys [of f u "st_Generations s"] that(2) by (metis set_map)
    with assms that(1) show ?thesis unfolding gen_table.get_None by auto
  qed
  show "generationGet v (st_Generations (logged s (GenerationBuildStart E u r s))) = None"
  proof (cases "GenerationBuildStart E u r s")
    case (Inr s')
    from sub [OF build_started.ok_generations(1) [OF Inr [unfolded GenerationBuildStart_def]]]
    show ?thesis by (simp add: logged_def Inr)
  qed (simp add: logged_def assms)
  show "generationGet v (st_Generations (logged s (GenerationBuildFinished E u err s))) = None"
  proof (cases "GenerationBuildFinished E u err s")
    case (Inr s')
    show ?thesis
      using Inr
    proof (rule GenerationBuildFinished_change)
      fix t
      assume c: "change_generation (build_finished E err) (\<lambda>s. s\<lparr>st_lastBuildFinished := Some u\<rparr>)
          Event_BuildFinished (clk E 1) u t = Inr s'" and eq: "st_Generations t = st_Generations s"
      from sub [OF build_done.ok_generations(1) [OF c, unfolded eq]] show ?thesis
        by (simp add: logged_def Inr)
    qed
  qed (simp add: logged_def assms)
qed

lemma eval_finish_drops:
  assumes "builder_inv b" and "eval_finish V b = Some b'" and "bu_evaluator b = Some (u, source, ctxErr)"
    and "v \<noteq> u" and "v \<notin> last_uuids (bu_store b)"
  shows "generationGet v (st_Generations (bu_store b')) = None"
proof -
  obtain d p m err where r: "bv_Eval V source = (d, p, m, err)" by (metis prod_cases4)
  obtain g where "generationGet u (st_Generations (bu_store b)) = Some g"
    using assms(1,3) by (auto simp: builder_inv_def evaluating_def)
  then obtain s1 where s1: "GenerationEvalFinished (bv_env V 0) u d p m (exec_result ctxErr err) (bu_store b) = Inr s1"
    by (auto simp: GenerationEvalFinished_def change_generation_def)
  have n1: "generationGet v (st_Generations s1) = None"
    using s1 assms(4,5) by (rule eval_finished_drops)
  note n3 = logged_get_None(2) [OF logged_get_None(1) [OF n1]]
  show ?thesis
    using assms(2,3) r s1 n1 n3
    by (auto simp: eval_finish_def Let_def logged_def split: if_splits)
qed

text \<open>
  A new commit that arrives during an evaluation is lost. The manager adds the new
  generation to the store and asks for its evaluation; stopping the running evaluation ends it in the
  store, whose garbage collection drops the new generation. The evaluation of the new generation then
  fails, nothing is in flight, and the builder stays marked as evaluating.
\<close>

theorem eval_preemption_loses_generation:
  assumes "builder_inv b" and "bu_evaluator b = Some (u, source, ctxErr)"
    and "fresh_uuids E (st_persisted (bu_store b))"
    and "NewGeneration E h d a rs (bu_store b) = (g, s)"
    and "Eval V g (b\<lparr>bu_store := s\<rparr>) = (e, b')"
  shows "e = Some (StoreError (NoGeneration (g_Uuid g))) \<and> bu_isEvaluating b' \<and>
    bu_evaluator b' = None \<and> bu_buildator b' = None"
proof -
  let ?b = "b\<lparr>bu_store := s\<rparr>" and ?v = "g_Uuid g"
  have s: "s = snd (NewGeneration E h d a rs (bu_store b))" using assms(4) by simp
  have v: "?v = newUuid E 0" using assms(4) by (auto simp: NewGeneration_def Let_def)
  have inv: "builder_inv ?b"
    by (rule builder_step_inv [OF assms(1) bstep_new [OF assms(3,4)]])
  have "last_uuids s = last_uuids (bu_store b)" by (simp add: s NewGeneration_def Let_def)
  moreover have "last_uuids (bu_store b) \<subseteq> g_Uuid ` set (st_Generations (bu_store b))"
    using assms(1) by (simp add: builder_inv_def generations_inv_def)
  ultimately have last: "?v \<notin> last_uuids s" using fresh_uuidsD(3) [OF assms(3), of 0] v by auto
  have "u \<in> last_uuids (bu_store b)" "bu_buildator b = None"
    using assms(1,2) by (auto simp: builder_inv_def last_uuids_def)
  then have u: "?v \<noteq> u" using last \<open>last_uuids s = last_uuids (bu_store b)\<close> by auto
  let ?c = "cancel_eval ''context canceled'' ?b"
  have ci: "builder_inv ?c" using inv by (rule cancel_inv)
  obtain b1 where b1: "eval_finish V ?c = Some b1"
    using assms(2) eval_finish_None [of V ?c] by (cases "eval_finish V ?c") auto
  obtain ctx' where ev: "bu_evaluator ?c = Some (u, source, ctx')"
    using assms(2) by (simp add: cancel_eval_def)
  have "generationGet ?v (st_Generations (bu_store b1)) = None"
    by (rule eval_finish_drops [OF ci b1 ev u]) (simp add: last cancel_eval_def)
  moreover have "bu_buildator b1 = None"
    using eval_finish_inv(5) [OF ci b1] \<open>bu_buildator b = None\<close> by (simp add: cancel_eval_def)
  then have "bu_store (Stop V ?b) = bu_store b1"
    by (simp add: Stop_def stopEval_def stopBuild_def b1 build_finish_def cancel_build_def)
  ultimately have "GenerationEvalStarted (bv_env V 4) ?v (bu_store (Stop V ?b)) = Inl (NoGeneration ?v)"
    by (simp add: GenerationEvalStarted_fails)
  with Stop_inv [OF inv, of V] assms(5) show ?thesis by (auto simp: Eval_def Let_def)
qed

theorem eval_preemption_loses_generation_witness:
  "\<exists>g s e b'. NewGeneration (example_env 4 30) [] [] [] GitRepositoryStatus0 (bu_store example_evaluating) = (g, s) \<and>
     Eval example_benv g (example_evaluating\<lparr>bu_store := s\<rparr>) = (e, b') \<and> e \<noteq> None \<and> bu_evaluator b' = None"
proof -
  obtain g s where n: "NewGeneration (example_env 4 30) [] [] [] GitRepositoryStatus0
      (bu_store example_evaluating) = (g, s)" by fastforce
  obtain e b' where e: "Eval example_benv g (example_evaluating\<lparr>bu_store := s\<rparr>) = (e, b')" by fastforce
  have inv: "builder_inv example_evaluating"
    using example_evaluating_reachable(1) by (rule builder_runs.reachable_inv)
  have "store_view (bu_store example_evaluating) = ([], [''g''], None, 3)" by code_simp
  then have f: "fresh_uuids (example_env 4 30) (st_persisted (bu_store example_evaluating))"
    by (rule example_fresh_view) simp
  from eval_preemption_loses_generation [OF inv example_evaluating_reachable(2) f n e] n e show ?thesis
    by blast
qed

text \<open>The chain of store operations at the end of an evaluation whose result is already built.\<close>

lemma already_built_chain:
  assumes "generationGet u (st_Generations s) = Some g"
  obtains s1 s2 s3 where "GenerationEvalFinished E0 u d p m err s = Inr s1"
    and "GenerationBuildStart E1 u r s1 = Inr s2" and "GenerationBuildFinished E2 u None s2 = Inr s3"
    and "\<exists>g'. generationGet u (st_Generations s3) = Some g' \<and> g_BuildStatus g' = ''built'' \<and>
      g_BuildErr g' = [] \<and> g_OutPath g' = p \<and> g_MachineId g' = m \<and> g_Source g' = g_Source g \<and>
      g_EvalErr g' = (case err of None \<Rightarrow> g_EvalErr g | Some e \<Rightarrow> e)"
proof -
  obtain s1 where s1: "GenerationEvalFinished E0 u d p m err s = Inr s1"
    using assms by (auto simp: GenerationEvalFinished_def change_generation_def)
  then obtain g1 where g1: "generationGet u (st_Generations s1) = Some g1"
    "g_OutPath g1 = p" "g_MachineId g1 = m" "g_Source g1 = g_Source g" "g_EvalErr g1 = (case err of None \<Rightarrow> g_EvalErr g | Some e \<Rightarrow> e)"
    using eval_done.ok_get [OF s1 [unfolded GenerationEvalFinished_def]] assms
    by (auto simp: eval_finished_def split: option.splits)
  then obtain s2 where s2: "GenerationBuildStart E1 u r s1 = Inr s2"
    by (auto simp: GenerationBuildStart_def change_generation_def)
  obtain g2 where g2: "generationGet u (st_Generations s2) = Some g2"
    "g_OutPath g2 = p" "g_MachineId g2 = m" "g_Source g2 = g_Source g1" "g_EvalErr g2 = g_EvalErr g1"
    using build_started.ok_get [OF s2 [unfolded GenerationBuildStart_def]] g1 by auto
  then obtain s3 where s3: "GenerationBuildFinished E2 u None s2 = Inr s3"
    by (auto simp: GenerationBuildFinished_def change_generation_def)
  then have "generationGet u (st_Generations s3) = Some (build_finished E2 None g2)"
  proof (rule GenerationBuildFinished_change)
    fix t assume c: "change_generation (build_finished E2 None) (\<lambda>s. s\<lparr>st_lastBuildFinished := Some u\<rparr>)
        Event_BuildFinished (clk E2 1) u t = Inr s3" and "st_Generations t = st_Generations s2"
    with build_done.ok_get [OF c] g2(1) show ?thesis by auto
  qed
  with g2 g1(4,5) have "\<exists>g'. generationGet u (st_Generations s3) = Some g' \<and> g_BuildStatus g' = ''built'' \<and>
      g_BuildErr g' = [] \<and> g_OutPath g' = p \<and> g_MachineId g' = m \<and> g_Source g' = g_Source g \<and>
      g_EvalErr g' = (case err of None \<Rightarrow> g_EvalErr g | Some e \<Rightarrow> e)"
    by (simp add: build_finished_def)
  with s1 s2 s3 show thesis using that by blast
qed

text \<open>
  When the store path of an evaluation exists already, the end of the evaluation is not
  announced, only the end of a build: the generation is recorded as built without error, whatever
  machine id was evaluated and even when the evaluation failed or was cancelled.
\<close>

theorem already_built_skips_evaluation_done:
  assumes "builder_inv b" and "bu_evaluator b = Some (u, source, ctxErr)"
    and "bv_Eval V source = (drvPath, outPath, machineId, err)" and "bv_IsStorePathExist V outPath"
    and "bu_BuildDone b = []" and "eval_finish V b = Some b'"
  shows "bu_EvaluationDone b' = bu_EvaluationDone b \<and> bu_BuildDone b' = [u] \<and>
    (\<exists>g. GenerationGet u (bu_store b') = Inr g \<and> g_BuildStatus g = ''built'' \<and> g_BuildErr g = [] \<and>
       g_MachineId g = machineId \<and> (\<forall>e. exec_result ctxErr err = Some e \<longrightarrow> g_EvalErr g = e))"
proof -
  obtain g where g: "generationGet u (st_Generations (bu_store b)) = Some g"
    using assms(1,2) by (auto simp: builder_inv_def evaluating_def)
  obtain s1 s2 s3 where s: "GenerationEvalFinished (bv_env V 0) u drvPath outPath machineId
        (exec_result ctxErr err) (bu_store b) = Inr s1"
      "GenerationBuildStart (bv_env V 1) u BuildReasonAlreadyBuilt s1 = Inr s2"
      "GenerationBuildFinished (bv_env V 2) u None s2 = Inr s3"
    and g': "\<exists>g'. generationGet u (st_Generations s3) = Some g' \<and> g_BuildStatus g' = ''built'' \<and>
      g_BuildErr g' = [] \<and> g_OutPath g' = outPath \<and> g_MachineId g' = machineId \<and> g_Source g' = g_Source g \<and>
      g_EvalErr g' = (case exec_result ctxErr err of None \<Rightarrow> g_EvalErr g | Some e \<Rightarrow> e)"
    using already_built_chain [OF g] by metis
  have b': "bu_store b' = s3" "bu_EvaluationDone b' = bu_EvaluationDone b" "bu_BuildDone b' = [u]"
    using assms(2-6) s by (auto simp: eval_finish_def Let_def logged_def try_send_def)
  then show ?thesis using g' by (auto simp: GenerationGet_def)
qed

theorem already_built_skips_evaluation_done_witness:
  "\<exists>b'. eval_finish (example_benv\<lparr>bv_IsStorePathExist := (\<lambda>_. True),
        bv_Eval := (\<lambda>_. (''drv'', ''st3'', ''mid'', Some ''bad''))\<rparr>) example_evaluating = Some b' \<and>
     bu_BuildDone b' = [''g''] \<and> bu_EvaluationDone b' = bu_EvaluationDone example_evaluating"
proof -
  let ?V = "example_benv\<lparr>bv_IsStorePathExist := (\<lambda>_. True),
    bv_Eval := (\<lambda>_. (''drv'', ''st3'', ''mid'', Some ''bad''))\<rparr>"
  have inv: "builder_inv example_evaluating"
    using example_evaluating_reachable(1) by (rule builder_runs.reachable_inv)
  have d: "bu_BuildDone example_evaluating = []" by code_simp
  obtain b' where b': "eval_finish ?V example_evaluating = Some b'"
    using eval_finish_None [of ?V example_evaluating] example_evaluating_reachable(2) by auto
  from already_built_skips_evaluation_done [OF inv example_evaluating_reachable(2) _ _ d b'] b'
  show ?thesis by auto
qed

end
