(* ===== verification/Confirmer.thy ===== *)
theory Confirmer
  imports Store_Base
begin

text \<open>
  The confirmer of \<open>internal/manager/confirmer.go\<close>: the goroutine between the manager and the user
  that holds a submitted generation until it is confirmed, by the user, by a timer, or at once.

  \<open>confirmer\<close> is the state of the goroutine: the protobuf state, the timer channel, the local
  \<open>notified\<close>, the UUID it is sending on the unbuffered channel \<open>confirmed\<close> (nothing else happens until
  the manager receives it) and the events handed to the broker. One turn of the loop is
  \<open>confirmer_select\<close> on the input of the chosen \<open>select\<close> branch, followed by \<open>confirmer_deliver\<close>
  when the turn ends with a send.
\<close>

section \<open>State\<close>

datatype Mode = Manual | Auto | Without

definition ParseMode :: "string \<Rightarrow> Mode option" where
  "ParseMode s =
     (if s = ''manual'' then Some Manual
      else if s = ''auto'' then Some Auto
      else if s = ''without'' then Some Without
      else None)"

fun mode_int :: "Mode \<Rightarrow> int" where
  "mode_int Manual = 0"
| "mode_int Auto = 1"
| "mode_int Without = 2"

text \<open>The timer the loop listens to: none yet, running, or stopped or expired.\<close>

datatype timer = NoTimer | TimerRunning | TimerStopped

record confirmer =
  co_state :: pbConfirmer
  co_timer :: timer
  co_notified :: bool
  co_sending :: "uuid option"
  co_events :: "Event list"

text \<open>\<open>duration\<close> in nanoseconds; \<open>int64(duration.Seconds())\<close> truncates towards zero to whole
  seconds.\<close>

definition NewConfirmer :: "Mode \<Rightarrow> int \<Rightarrow> confirmer" where
  "NewConfirmer mode duration =
     \<lparr>co_state = \<lparr>cf_Mode = mode_int mode, cf_Submitted = [], cf_Confirmed = [],
        cf_AutoconfirmDuration = sgn duration * (\<bar>duration\<bar> div 1000000000),
        cf_AutoconfirmStartedAt = None, cf_AutoconfirmStarted = None\<rparr>,
      co_timer = NoTimer, co_notified = False, co_sending = None, co_events = []\<rparr>"

datatype confirmer_input = StatusReq | CSubmit uuid | CConfirm uuid | CCancel | TimerFired

text \<open>What the methods send to the loop; it ignores a command with another action.\<close>

record Command =
  cmd_action :: string
  cmd_uuid :: uuid

definition Confirmer_Submit :: "uuid \<Rightarrow> Command" where
  "Confirmer_Submit generationUuid = \<lparr>cmd_action = ''submit'', cmd_uuid = generationUuid\<rparr>"

definition Confirmer_Confirm :: "uuid \<Rightarrow> Command" where
  "Confirmer_Confirm generationUuid = \<lparr>cmd_action = ''confirm'', cmd_uuid = generationUuid\<rparr>"

definition Confirmer_Cancel :: Command where
  "Confirmer_Cancel = \<lparr>cmd_action = ''cancel'', cmd_uuid = []\<rparr>"

definition command_input :: "Command \<Rightarrow> confirmer_input option" where
  "command_input command =
     (if cmd_action command = ''submit'' then Some (CSubmit (cmd_uuid command))
      else if cmd_action command = ''confirm'' then Some (CConfirm (cmd_uuid command))
      else if cmd_action command = ''cancel'' then Some CCancel
      else None)"

lemma command_inputs [simp]:
  "command_input (Confirmer_Submit u) = Some (CSubmit u)" "command_input (Confirmer_Confirm u) = Some (CConfirm u)"
  "command_input Confirmer_Cancel = Some CCancel"
  by (simp_all add: command_input_def Confirmer_Submit_def Confirmer_Confirm_def Confirmer_Cancel_def)

section \<open>The loop\<close>

definition confirmer_submit :: "time \<Rightarrow> uuid \<Rightarrow> confirmer \<Rightarrow> confirmer" where
  "confirmer_submit now u c =
     (let c1 = c\<lparr>co_notified := False, co_state := (co_state c)\<lparr>cf_Submitted := u\<rparr>\<rparr>
      in if cf_Mode (co_state c) = mode_int Without
         then c1\<lparr>co_state := (co_state c1)\<lparr>cf_Confirmed := u\<rparr>\<rparr>
         else if cf_Mode (co_state c) = mode_int Auto
         then c1\<lparr>co_timer := TimerRunning,
                 co_state := (co_state c1)\<lparr>cf_AutoconfirmStarted := Some True,
                                            cf_AutoconfirmStartedAt := Some now\<rparr>\<rparr>
         else c1)"

definition confirmer_confirm :: "time \<Rightarrow> uuid \<Rightarrow> confirmer \<Rightarrow> confirmer" where
  "confirmer_confirm now u c =
     c\<lparr>co_state := (co_state c)\<lparr>cf_Confirmed := u\<rparr>,
       co_events := co_events c @ [mk_event (Event_ConfirmationConfirmed [] u) now]\<rparr>"

text \<open>The command of a cancel carries no UUID. A timer that is not running stays as it is.\<close>

definition confirmer_cancel :: "time \<Rightarrow> confirmer \<Rightarrow> confirmer" where
  "confirmer_cancel now c =
     c\<lparr>co_state := (co_state c)\<lparr>cf_Confirmed := [], cf_AutoconfirmStarted := Some False\<rparr>,
       co_timer := (if co_timer c = NoTimer then NoTimer else TimerStopped),
       co_events := co_events c @ [mk_event (Event_ConfirmationCancelled []) now]\<rparr>"

definition confirmer_fired :: "confirmer \<Rightarrow> confirmer" where
  "confirmer_fired c =
     c\<lparr>co_state := (co_state c)\<lparr>cf_AutoconfirmStarted := Some False,
                                cf_Confirmed := cf_Submitted (co_state c)\<rparr>,
       co_timer := TimerStopped\<rparr>"

definition confirmer_notify :: "confirmer \<Rightarrow> confirmer" where
  "confirmer_notify c =
     (if \<not> co_notified c \<and> cf_Submitted (co_state c) \<noteq> [] \<and> cf_Confirmed (co_state c) \<noteq> [] \<and>
         cf_Confirmed (co_state c) = cf_Submitted (co_state c)
      then c\<lparr>co_notified := True, co_sending := Some (cf_Confirmed (co_state c))\<rparr>
      else c)"

text \<open>\<open>None\<close>: the branch is not ready.\<close>

fun confirmer_select :: "time \<Rightarrow> confirmer_input \<Rightarrow> confirmer \<Rightarrow> confirmer option" where
  "confirmer_select now i c =
     (if co_sending c \<noteq> None then None
      else case i of
        StatusReq \<Rightarrow> Some (confirmer_notify c)
      | CSubmit u \<Rightarrow> Some (confirmer_notify (confirmer_submit now u c))
      | CConfirm u \<Rightarrow> Some (confirmer_notify (confirmer_confirm now u c))
      | CCancel \<Rightarrow> Some (confirmer_notify (confirmer_cancel now c))
      | TimerFired \<Rightarrow>
          if co_timer c = TimerRunning then Some (confirmer_notify (confirmer_fired c)) else None)"

text \<open>The receive of the manager on \<open>confirmed\<close> and the end of the turn.\<close>

definition confirmer_deliver :: "confirmer \<Rightarrow> (uuid \<times> confirmer) option" where
  "confirmer_deliver c =
     map_option (\<lambda>u. (u, c\<lparr>co_sending := None,
       co_state := (co_state c)\<lparr>cf_Confirmed := [], cf_Submitted := [],
                                cf_AutoconfirmStarted := Some False\<rparr>\<rparr>)) (co_sending c)"

definition confirmer_status :: "confirmer \<Rightarrow> pbConfirmer" where
  "confirmer_status c = co_state c"

text \<open>Runs: the inputs taken and the UUIDs delivered so far, latest first.\<close>

inductive confirmer_run ::
  "Mode \<Rightarrow> int \<Rightarrow> confirmer \<Rightarrow> confirmer_input list \<Rightarrow> uuid list \<Rightarrow> bool"
  for mode :: Mode and duration :: int where
  crun_init: "confirmer_run mode duration (NewConfirmer mode duration) [] []"
| crun_select: "confirmer_run mode duration c ins outs \<Longrightarrow> confirmer_select now i c = Some c' \<Longrightarrow>
    confirmer_run mode duration c' (i # ins) outs"
| crun_deliver: "confirmer_run mode duration c ins outs \<Longrightarrow> confirmer_deliver c = Some (u, c') \<Longrightarrow>
    confirmer_run mode duration c' ins (u # outs)"

declare confirmer_select.simps [simp del]

lemmas confirmer_defs = confirmer_submit_def confirmer_confirm_def confirmer_cancel_def
  confirmer_fired_def confirmer_notify_def Let_def

section \<open>Safety\<close>

fun is_submit :: "confirmer_input \<Rightarrow> bool" where
  "is_submit (CSubmit u) = True"
| "is_submit _ = False"

text \<open>What the state of a run owes to the inputs taken; \<open>outs\<close> counts the pending send too.\<close>

definition run_inv :: "Mode \<Rightarrow> confirmer \<Rightarrow> confirmer_input list \<Rightarrow> uuid list \<Rightarrow> bool" where
  "run_inv mode c ins outs \<longleftrightarrow>
     cf_Mode (co_state c) = mode_int mode \<and>
     (cf_Submitted (co_state c) \<noteq> [] \<longrightarrow> CSubmit (cf_Submitted (co_state c)) \<in> set ins) \<and>
     (mode = Manual \<longrightarrow> co_timer c = NoTimer \<and>
        (cf_Confirmed (co_state c) \<noteq> [] \<longrightarrow> CConfirm (cf_Confirmed (co_state c)) \<in> set ins)) \<and>
     (case co_sending c of None \<Rightarrow> True
      | Some u \<Rightarrow> u \<noteq> [] \<and> cf_Submitted (co_state c) = u \<and> cf_Confirmed (co_state c) = u \<and> co_notified c) \<and>
     (\<forall>u \<in> set outs. u \<noteq> [] \<and> CSubmit u \<in> set ins \<and> (mode = Manual \<longrightarrow> CConfirm u \<in> set ins)) \<and>
     length outs + (if co_sending c = None then 0 else 1) +
       (if \<not> co_notified c \<and> cf_Submitted (co_state c) \<noteq> [] then 1 else 0)
     \<le> length (filter is_submit ins)"

lemma run_inv_notify:
  "run_inv mode c ins outs \<Longrightarrow> co_sending c = None \<Longrightarrow> run_inv mode (confirmer_notify c) ins outs"
  by (auto simp: run_inv_def confirmer_notify_def)

lemma run_inv_submit:
  "run_inv mode c ins outs \<Longrightarrow> co_sending c = None \<Longrightarrow>
     run_inv mode (confirmer_submit now u c) (CSubmit u # ins) outs"
  by (cases mode) (auto simp: run_inv_def confirmer_submit_def Let_def)

lemma run_inv_confirm:
  "run_inv mode c ins outs \<Longrightarrow> co_sending c = None \<Longrightarrow>
     run_inv mode (confirmer_confirm now u c) (CConfirm u # ins) outs"
  by (auto simp: run_inv_def confirmer_confirm_def)

lemma run_inv_cancel:
  "run_inv mode c ins outs \<Longrightarrow> co_sending c = None \<Longrightarrow>
     run_inv mode (confirmer_cancel now c) (CCancel # ins) outs"
  by (auto simp: run_inv_def confirmer_cancel_def)

lemma run_inv_fired:
  "run_inv mode c ins outs \<Longrightarrow> co_sending c = None \<Longrightarrow> co_timer c = TimerRunning \<Longrightarrow>
     run_inv mode (confirmer_fired c) (TimerFired # ins) outs"
  by (auto simp: run_inv_def confirmer_fired_def)

lemma run_inv_status:
  "run_inv mode c ins outs \<Longrightarrow> co_sending c = None \<Longrightarrow> run_inv mode c (StatusReq # ins) outs"
  by (auto simp: run_inv_def)

lemma branch_sending [simp]:
  "co_sending (confirmer_submit now u c) = co_sending c"
  "co_sending (confirmer_confirm now u c) = co_sending c"
  "co_sending (confirmer_cancel now c) = co_sending c" "co_sending (confirmer_fired c) = co_sending c"
  by (simp_all add: confirmer_defs)

lemma run_inv_select:
  assumes "run_inv mode c ins outs" and "confirmer_select now i c = Some c'"
  shows "run_inv mode c' (i # ins) outs"
proof -
  have s: "co_sending c = None" using assms(2) by (simp add: confirmer_select.simps split: if_splits)
  note branches = run_inv_status [OF assms(1) s] run_inv_submit [OF assms(1) s]
    run_inv_confirm [OF assms(1) s] run_inv_cancel [OF assms(1) s] run_inv_fired [OF assms(1) s]
  show ?thesis
    using assms(2) s branches [THEN run_inv_notify]
    by (cases i) (auto simp: confirmer_select.simps split: if_splits)
qed

lemma run_inv_deliver:
  assumes "run_inv mode c ins outs" and "confirmer_deliver c = Some (u, c')"
  shows "run_inv mode c' ins (u # outs)"
proof -
  have s: "co_sending c = Some u" and c': "c' = c\<lparr>co_sending := None,
       co_state := (co_state c)\<lparr>cf_Confirmed := [], cf_Submitted := [],
                                cf_AutoconfirmStarted := Some False\<rparr>\<rparr>"
    using assms(2) unfolding confirmer_deliver_def by (cases "co_sending c"; simp)+
  have u: "u \<noteq> []" "cf_Submitted (co_state c) = u" "cf_Confirmed (co_state c) = u"
    using assms(1) s by (auto simp: run_inv_def)
  show ?thesis using assms(1) u s unfolding run_inv_def c' by simp
qed

lemma confirmer_run_inv: "confirmer_run mode duration c ins outs \<Longrightarrow> run_inv mode c ins outs"
proof (induction rule: confirmer_run.induct)
  case crun_init
  then show ?case by (simp add: run_inv_def NewConfirmer_def)
qed (auto intro: run_inv_select run_inv_deliver)

text \<open>
  Property C32. Whatever the commands and timer expirations, every generation a confirmer hands to the
  manager has been submitted to it; in manual mode the user has confirmed exactly that generation; and
  there is at most one notification per submission.
\<close>

theorem confirmer_sound:
  assumes "confirmer_run mode duration c ins outs"
  shows "(\<forall>u \<in> set outs. CSubmit u \<in> set ins \<and> (mode = Manual \<longrightarrow> CConfirm u \<in> set ins)) \<and>
    length outs \<le> length (filter is_submit ins)"
  using confirmer_run_inv [OF assms] by (auto simp: run_inv_def)

definition example_confirmer :: confirmer where
  "example_confirmer = (case confirmer_deliver (the (confirmer_select 2 (CConfirm ''a'')
     (the (confirmer_select 1 (CSubmit ''a'') (NewConfirmer Manual 0))))) of Some (u, c) \<Rightarrow> c)"

lemma example_confirmer_run:
  "confirmer_run Manual 0 example_confirmer [CConfirm ''a'', CSubmit ''a''] [''a'']"
proof -
  let ?c1 = "the (confirmer_select 1 (CSubmit ''a'') (NewConfirmer Manual 0))"
  let ?c2 = "the (confirmer_select 2 (CConfirm ''a'') ?c1)"
  have "confirmer_select 1 (CSubmit ''a'') (NewConfirmer Manual 0) = Some ?c1"
    "confirmer_select 2 (CConfirm ''a'') ?c1 = Some ?c2"
    "confirmer_deliver ?c2 = Some (''a'', example_confirmer)"
    by (simp_all add: example_confirmer_def confirmer_select.simps confirmer_defs NewConfirmer_def
        confirmer_deliver_def)
  then show ?thesis using crun_init by (meson crun_deliver crun_select)
qed

theorem confirmer_sound_witness:
  "confirmer_run Manual 0 example_confirmer [CConfirm ''a'', CSubmit ''a''] [''a''] \<and>
   CConfirm ''a'' \<in> set [CConfirm ''a'', CSubmit ''a''] \<and>
   length [''a''] \<le> length (filter is_submit [CConfirm ''a'', CSubmit ''a''])"
  using confirmer_sound [OF example_confirmer_run] example_confirmer_run by simp

section \<open>Each mode delivers\<close>

text \<open>
  Property C33. Each mode delivers what it promises. An idle confirmer without confirmation sends a
  submitted generation at once, without confirmation; after the timer in automatic mode, and then the
  latest submission; and in manual mode not before a confirmation of that very generation, and
  then at once. A cancelled automatic confirmation is not sent: the timer is stopped and nothing is
  confirmed.
\<close>

theorem confirmer_modes:
  assumes "co_sending c = None" and "cf_Confirmed (co_state c) = []" and "u \<noteq> []"
    and "cf_Mode (co_state c) = mode_int mode"
  shows "\<exists>c1. confirmer_select now (CSubmit u) c = Some c1 \<and>
    (mode = Without \<longrightarrow> co_sending c1 = Some u) \<and>
    (mode = Auto \<longrightarrow> co_sending c1 = None \<and>
       (\<exists>c2. confirmer_select now' TimerFired c1 = Some c2 \<and> co_sending c2 = Some u) \<and>
       (\<exists>c3. confirmer_select now' CCancel c1 = Some c3 \<and> co_sending c3 = None \<and>
          confirmer_select now'' TimerFired c3 = None \<and> cf_Confirmed (co_state c3) = [])) \<and>
    (mode = Manual \<longrightarrow> co_sending c1 = None \<and>
       (\<exists>c2. confirmer_select now' (CConfirm v) c1 = Some c2 \<and>
          co_sending c2 = (if v = u then Some u else None)))"
proof -
  have "\<exists>c1. confirmer_select now (CSubmit u) c = Some c1" using assms(1) by (simp add: confirmer_select.simps)
  then obtain c1 where c1: "confirmer_select now (CSubmit u) c = Some c1" by blast
  then have eq: "c1 = confirmer_notify (confirmer_submit now u c)"
    using assms(1) by (simp add: confirmer_select.simps)
  show ?thesis
    by (rule exI [of _ c1], cases mode)
      (use assms c1 eq in \<open>simp_all add: confirmer_select.simps confirmer_defs\<close>)
qed

theorem confirmer_modes_witness:
  "\<exists>c1 c2. confirmer_select 1 (CSubmit ''a'') (NewConfirmer Auto 5000000000) = Some c1 \<and>
     confirmer_select 6 TimerFired c1 = Some c2 \<and> co_sending c2 = Some ''a''"
proof -
  have "co_sending (NewConfirmer Auto 5000000000) = None"
    "cf_Confirmed (co_state (NewConfirmer Auto 5000000000)) = []"
    "cf_Mode (co_state (NewConfirmer Auto 5000000000)) = mode_int Auto"
    by (simp_all add: NewConfirmer_def)
  from confirmer_modes [OF this(1,2) _ this(3), of "''a''" 1 6 0] show ?thesis by auto
qed

end
