(* ===== verification/Manager.thy ===== *)
theory Manager
  imports Deployer Builder Confirmer
begin

text \<open>
  The manager of \<open>internal/manager/manager.go\<close>: it connects the fetcher, the builder, the two
  confirmers and the deployer.

  \<open>manager\<close> holds its own fields and the components it calls; they share one store, which the calls
  hand over (\<open>with_builder\<close>, \<open>with_deployer\<close>). The loop of \<open>FetchAndBuild\<close> is one function per \<open>select\<close>
  branch (\<open>on_event\<close>, \<open>on_evaluation_done\<close>, \<open>on_build_confirmed\<close>, \<open>on_build_done\<close>, \<open>on_deploy_confirmed\<close>);
  the submission to a confirmer is a send on an unbuffered channel, so a handler that submits leaves
  the loop at \<open>SubmittingBuild\<close> or \<open>SubmittingDeploy\<close>. The loop of \<open>Run\<close> is \<open>on_deployment_done\<close> and
  \<open>toState\<close>. A nil dereference is \<open>MPanicked\<close>, \<open>os.Exit(0)\<close> is \<open>mg_exited\<close>.
\<close>

section \<open>State\<close>

datatype manager_pc = Selecting | SubmittingBuild uuid | SubmittingDeploy uuid | MPanicked

type_synonym ConfigurationOperations = "(string \<times> (string \<times> string) list) list"

record manager =
  mg_machineId :: string
  mg_Hostname :: string
  mg_needToReboot :: bool
  mg_isSuspended :: bool
  mg_configurationOperations :: ConfigurationOperations
  mg_store :: store
  mg_builder :: builder
  mg_deployer :: deployer
  mg_fetcher :: pbFetcher
  mg_BuildConfirmer :: confirmer
  mg_DeployConfirmer :: confirmer
  mg_brokerEvents :: "Event list"
  mg_pc :: manager_pc
  mg_exited :: bool

datatype manager_error =
    NoPreviousDeployment
  | ManagerAlreadySuspended
  | ManagerNotSuspended
  | BuilderError builder_error

definition manager_New ::
  "store \<Rightarrow> pbFetcher \<Rightarrow> builder \<Rightarrow> deployer \<Rightarrow> string \<Rightarrow> string \<Rightarrow> confirmer \<Rightarrow> confirmer \<Rightarrow>
     ConfigurationOperations \<Rightarrow> manager" where
  "manager_New s f b d machineId hostname buildConfirmer deployConfirmer ops =
     \<lparr>mg_machineId = machineId, mg_Hostname = hostname, mg_needToReboot = False,
      mg_isSuspended = False, mg_configurationOperations = ops, mg_store = s, mg_builder = b,
      mg_deployer = d, mg_fetcher = f, mg_BuildConfirmer = buildConfirmer,
      mg_DeployConfirmer = deployConfirmer, mg_brokerEvents = [], mg_pc = Selecting,
      mg_exited = False\<rparr>"

text \<open>The builder and the deployer on the shared store.\<close>

definition the_builder :: "manager \<Rightarrow> builder" where
  "the_builder m = (mg_builder m)\<lparr>bu_store := mg_store m\<rparr>"

definition the_deployer :: "manager \<Rightarrow> deployer" where
  "the_deployer m = (mg_deployer m)\<lparr>dp_store := mg_store m\<rparr>"

definition with_builder :: "builder \<Rightarrow> manager \<Rightarrow> manager" where
  "with_builder b m = m\<lparr>mg_builder := b, mg_store := bu_store b\<rparr>"

definition with_deployer :: "deployer \<Rightarrow> manager \<Rightarrow> manager" where
  "with_deployer d m = m\<lparr>mg_deployer := d, mg_store := dp_store d\<rparr>"

definition toState :: "manager \<Rightarrow> pbState" where
  "toState m = \<lparr>sm_NeedToReboot = Some (mg_needToReboot m), sm_IsSuspended = Some (mg_isSuspended m),
     sm_Builder = Some (builder_State (the_builder m)),
     sm_Deployer = Some (deployer_State (the_deployer m)),
     sm_Fetcher = Some (mg_fetcher m), sm_Store = Some (st_persisted (mg_store m)),
     sm_BuildConfirmer = Some (confirmer_status (mg_BuildConfirmer m)),
     sm_DeployConfirmer = Some (confirmer_status (mg_DeployConfirmer m))\<rparr>"

section \<open>Requests of the clients\<close>

definition latest_operation :: "string \<Rightarrow> Deployment \<Rightarrow> string" where
  "latest_operation operation latest =
     (if operation = []
      then (case GetGit (g_Source (d_Generation latest)) of
              None \<Rightarrow> ''switch''
            | Some git \<Rightarrow> if GetValue (git_SelectedBranchIsTesting git) then ''test'' else ''switch'')
      else operation)"

definition DeploymentLatestSubmit :: "string \<Rightarrow> manager \<Rightarrow> manager_error option \<times> manager" where
  "DeploymentLatestSubmit operation m =
     (case GetDeploymentLastest (mg_store m) of
        None \<Rightarrow> (Some NoPreviousDeployment, m)
      | Some latest \<Rightarrow>
          (None, with_deployer
             (Submit (d_Generation latest) (latest_operation operation latest) True
                (''The latest deployment '' @ d_Uuid latest @ '' has been resubmitted'')
                (the_deployer m)) m))"

definition manager_Suspend :: "benv \<Rightarrow> env \<Rightarrow> manager \<Rightarrow> manager_error option \<times> manager" where
  "manager_Suspend V E m =
     (if mg_isSuspended m then (Some ManagerAlreadySuspended, m)
      else case builder_Suspend V (the_builder m) of
             (Some e, b) \<Rightarrow> (Some (BuilderError e), with_builder b m)
           | (None, b) \<Rightarrow>
               let m1 = with_builder b m;
                   m2 = with_deployer (Suspend E ''manager has been manually suspended'' (the_deployer m1)) m1
               in (None, m2\<lparr>mg_isSuspended := True,
                            mg_store := publish Event_Suspend (clk E 0) (mg_store m2)\<rparr>))"

definition manager_Resume :: "benv \<Rightarrow> env \<Rightarrow> manager \<Rightarrow> manager_error option \<times> manager" where
  "manager_Resume V E m =
     (if \<not> mg_isSuspended m then (Some ManagerNotSuspended, m)
      else case builder_Resume V (the_builder m) of
             (Some e, b) \<Rightarrow> (Some (BuilderError e), with_builder b m)
           | (None, b) \<Rightarrow>
               let m1 = with_builder b m;
                   m2 = with_deployer (Resume E (the_deployer m1)) m1
               in (None, m2\<lparr>mg_isSuspended := False,
                            mg_store := publish Event_Resume (clk E 0) (mg_store m2)\<rparr>))"

section \<open>The loop of FetchAndBuild\<close>

definition getOperationFromConfigurationOperations ::
  "ConfigurationOperations \<Rightarrow> string \<Rightarrow> string \<Rightarrow> string" where
  "getOperationFromConfigurationOperations ops remote branch =
     (case map_of ops remote of
        None \<Rightarrow> ''test''
      | Some branches \<Rightarrow> (case map_of branches branch of None \<Rightarrow> [] | Some operation \<Rightarrow> operation))"

definition on_event :: "benv \<Rightarrow> env \<Rightarrow> Event \<Rightarrow> manager \<Rightarrow> manager" where
  "on_event V E e m =
     (case ev_Type e of
        Some (Event_Fetched updated verified rs) \<Rightarrow>
          if \<not> updated then m
          else (case rs of
                  None \<Rightarrow> m\<lparr>mg_pc := MPanicked\<rparr>
                | Some status \<Rightarrow>
                    if verified
                    then let b = the_builder m;
                             (g, s) = NewGeneration E (bu_hostname b) (bu_repositoryDir b) (bu_systemAttr b)
                                        status (mg_store m);
                             (err, b') = Eval V g (b\<lparr>bu_store := s\<rparr>)
                         in with_builder b' m
                    else m)
      | _ \<Rightarrow> m)"

definition on_evaluation_done :: "uuid \<Rightarrow> manager \<Rightarrow> manager" where
  "on_evaluation_done u m =
     (case GenerationGet u (mg_store m) of
        Inl _ \<Rightarrow> m
      | Inr g \<Rightarrow>
          if g_EvalErr g \<noteq> [] then m
          else if g_MachineId g \<noteq> [] \<and> mg_machineId m \<noteq> g_MachineId g then m
          else m\<lparr>mg_pc := SubmittingBuild u\<rparr>)"

definition on_build_confirmed :: "benv \<Rightarrow> uuid \<Rightarrow> manager \<Rightarrow> manager" where
  "on_build_confirmed V u m = with_builder (SubmitBuild V u (the_builder m)) m"

definition generation_operation :: "Generation \<Rightarrow> manager \<Rightarrow> string option" where
  "generation_operation g m = map_option (\<lambda>git. getOperationFromConfigurationOperations
     (mg_configurationOperations m) (git_SelectedRemoteName git) (git_SelectedBranchName git))
     (GetGit (g_Source g))"

definition on_build_done :: "uuid \<Rightarrow> manager \<Rightarrow> manager" where
  "on_build_done u m =
     (case GenerationGet u (mg_store m) of
        Inl _ \<Rightarrow> m
      | Inr g \<Rightarrow>
          if g_BuildErr g = []
          then (case generation_operation g m of
                  None \<Rightarrow> m\<lparr>mg_pc := MPanicked\<rparr>
                | Some operation \<Rightarrow>
                    if \<not> IsAlreadyDeployed g operation (mg_deployer m)
                    then m\<lparr>mg_pc := SubmittingDeploy u\<rparr> else m)
          else m)"

definition on_deploy_confirmed :: "uuid \<Rightarrow> manager \<Rightarrow> manager" where
  "on_deploy_confirmed u m =
     (case GenerationGet u (mg_store m) of
        Inl _ \<Rightarrow> m
      | Inr g \<Rightarrow>
          (case generation_operation g m of
             None \<Rightarrow> m\<lparr>mg_pc := MPanicked\<rparr>
           | Some operation \<Rightarrow>
               with_deployer (Submit g operation False
                 (''The generation '' @ u @ '' needs to be deployed'') (the_deployer m)) m))"

section \<open>The loop of Run\<close>

definition manager_start :: "(string \<Rightarrow> string \<Rightarrow> bool) \<Rightarrow> manager \<Rightarrow> manager" where
  "manager_start NeedToReboot m =
     (case dp_deployment (mg_deployer m) of
        None \<Rightarrow> m
      | Some dpl \<Rightarrow> m\<lparr>mg_needToReboot := NeedToReboot (d_OutPath dpl) (d_Operation dpl)\<rparr>)"

definition on_deployment_done ::
  "(string \<Rightarrow> string \<Rightarrow> bool) \<Rightarrow> env \<Rightarrow> Deployment \<Rightarrow> manager \<Rightarrow> manager" where
  "on_deployment_done NeedToReboot E dpl m =
     (let reboot = NeedToReboot (d_OutPath dpl) (d_Operation dpl);
          m1 = m\<lparr>mg_needToReboot := reboot\<rparr>;
          m2 = (if reboot then m1\<lparr>mg_store := publish (Event_RebootRequired dpl) (clk E 0) (mg_store m1)\<rparr>
                else m1)
      in if GetValue (d_RestartComin dpl) then m2\<lparr>mg_exited := True\<rparr> else m2)"

section \<open>The composed system\<close>

text \<open>
  The manager with its components and clients: the two loops of the manager, the goroutines of the
  builder, the loop of the deployer, the confirmers with their users and timers, the broker that
  fills the subscription (of at most five events), and the requests of the clients. The label of a
  step says what came from outside: an event of the broker, an input of a confirmer or a request.
\<close>

datatype manager_label =
    Tau
  | Deliver Event
  | BuildInput confirmer_input
  | DeployInput confirmer_input
  | SuspendReq
  | ResumeReq
  | LatestReq string

inductive manager_act :: "manager_label \<Rightarrow> manager \<Rightarrow> manager \<Rightarrow> bool" where
  ma_event: "mg_pc m = Selecting \<Longrightarrow> mg_brokerEvents m = e # es \<Longrightarrow>
    fresh_uuids E (st_persisted (mg_store m)) \<Longrightarrow> newUuid E 0 \<noteq> [] \<Longrightarrow>
    manager_act Tau m (on_event V E e (m\<lparr>mg_brokerEvents := es\<rparr>))"
| ma_evaluated: "mg_pc m = Selecting \<Longrightarrow> bu_EvaluationDone (mg_builder m) = u # us \<Longrightarrow>
    manager_act Tau m (on_evaluation_done u
      (m\<lparr>mg_builder := (mg_builder m)\<lparr>bu_EvaluationDone := us\<rparr>\<rparr>))"
| ma_build_confirmed: "mg_pc m = Selecting \<Longrightarrow> confirmer_deliver (mg_BuildConfirmer m) = Some (u, c) \<Longrightarrow>
    manager_act Tau m (on_build_confirmed V u (m\<lparr>mg_BuildConfirmer := c\<rparr>))"
| ma_built: "mg_pc m = Selecting \<Longrightarrow> bu_BuildDone (mg_builder m) = u # us \<Longrightarrow>
    manager_act Tau m (on_build_done u (m\<lparr>mg_builder := (mg_builder m)\<lparr>bu_BuildDone := us\<rparr>\<rparr>))"
| ma_deploy_confirmed: "mg_pc m = Selecting \<Longrightarrow> confirmer_deliver (mg_DeployConfirmer m) = Some (u, c) \<Longrightarrow>
    manager_act Tau m (on_deploy_confirmed u (m\<lparr>mg_DeployConfirmer := c\<rparr>))"
| ma_submit_build: "mg_pc m = SubmittingBuild u \<Longrightarrow>
    confirmer_select now (CSubmit u) (mg_BuildConfirmer m) = Some c \<Longrightarrow>
    manager_act Tau m (m\<lparr>mg_BuildConfirmer := c, mg_pc := Selecting\<rparr>)"
| ma_submit_deploy: "mg_pc m = SubmittingDeploy u \<Longrightarrow>
    confirmer_select now (CSubmit u) (mg_DeployConfirmer m) = Some c \<Longrightarrow>
    manager_act Tau m (m\<lparr>mg_DeployConfirmer := c, mg_pc := Selecting\<rparr>)"
| ma_build_user: "\<not> is_submit i \<Longrightarrow> confirmer_select now i (mg_BuildConfirmer m) = Some c \<Longrightarrow>
    manager_act (BuildInput i) m (m\<lparr>mg_BuildConfirmer := c\<rparr>)"
| ma_deploy_user: "\<not> is_submit i \<Longrightarrow> confirmer_select now i (mg_DeployConfirmer m) = Some c \<Longrightarrow>
    manager_act (DeployInput i) m (m\<lparr>mg_DeployConfirmer := c\<rparr>)"
| ma_eval_finish: "eval_finish V (the_builder m) = Some b \<Longrightarrow> manager_act Tau m (with_builder b m)"
| ma_build_finish: "build_finish V (the_builder m) = Some b \<Longrightarrow> manager_act Tau m (with_builder b m)"
| ma_eval_timeout:
    "manager_act Tau m (with_builder (cancel_eval ''context deadline exceeded'' (the_builder m)) m)"
| ma_build_timeout:
    "manager_act Tau m (with_builder (cancel_build ''context deadline exceeded'' (the_builder m)) m)"
| ma_deployer: "runner_step W (the_deployer m) = Some d \<Longrightarrow> manager_act Tau m (with_deployer d m)"
| ma_broker: "length (mg_brokerEvents m) < 5 \<Longrightarrow>
    manager_act (Deliver e) m (m\<lparr>mg_brokerEvents := mg_brokerEvents m @ [e]\<rparr>)"
| ma_suspend: "manager_act SuspendReq m (snd (manager_Suspend V E m))"
| ma_resume: "manager_act ResumeReq m (snd (manager_Resume V E m))"
| ma_latest: "manager_act (LatestReq operation) m (snd (DeploymentLatestSubmit operation m))"
| ma_done: "receive_done (the_deployer m) = Some (dpl, d) \<Longrightarrow>
    manager_act Tau m (on_deployment_done NeedToReboot E dpl (with_deployer d m))"

definition manager_step :: "manager \<Rightarrow> manager \<Rightarrow> bool" where
  "manager_step m m' \<longleftrightarrow> (\<exists>a. manager_act a m m')"

lemma manager_act_step: "manager_act a m m' \<Longrightarrow> manager_step m m'"
  unfolding manager_step_def by blast

lemmas ms_evaluated = ma_evaluated [THEN manager_act_step]
  and ms_build_user = ma_build_user [THEN manager_act_step]
  and ms_deploy_user = ma_deploy_user [THEN manager_act_step]
  and ms_suspend = ma_suspend [THEN manager_act_step]
  and ms_resume = ma_resume [THEN manager_act_step]
  and ms_latest = ma_latest [THEN manager_act_step]

lemma reachable_manager_trace:
  "reachable init manager_step m \<longleftrightarrow> (\<exists>as. trace init manager_act as m)"
proof -
  have eq: "manager_step = (\<lambda>m m'. \<exists>a. manager_act a m m')" by (intro ext) (rule manager_step_def)
  show ?thesis unfolding eq by (rule reachable_trace)
qed

definition manager_init :: "manager \<Rightarrow> bool" where
  "manager_init m \<longleftrightarrow> (\<exists>s f path dir attr host d previous cmd machineId hostname bm bt dm dt ops.
     generations_inv s \<and> deployer_New s previous cmd = Some d \<and>
     m = manager_New s f (builder_New s path dir attr host) d machineId hostname
           (NewConfirmer bm bt) (NewConfirmer dm dt) ops)"

text \<open>Changes of the store that do not concern the builder.\<close>

definition same_generations :: "store \<Rightarrow> store \<Rightarrow> bool" where
  "same_generations s s' \<longleftrightarrow> st_Generations s' = st_Generations s \<and>
     st_lastEvalStarted s' = st_lastEvalStarted s \<and> last_uuids s' = last_uuids s"

lemma same_generations_refl [simp]: "same_generations s s"
  by (simp add: same_generations_def)

lemma same_generations_trans:
  "same_generations s t \<Longrightarrow> same_generations t u \<Longrightarrow> same_generations s u"
  by (simp add: same_generations_def)

lemma lastEvalStarted_frames [simp]:
  "st_lastEvalStarted (Commit E s) = st_lastEvalStarted s"
  "st_lastEvalStarted (publish ev now s) = st_lastEvalStarted s"
  "st_lastEvalStarted (updateDataDeployments E ub us bp sp new s) = st_lastEvalStarted s"
  by (simp_all add: Commit_def publish_def updateDataDeployments_def Let_def split: option.split)

lemma same_generations_ops [simp]:
  "same_generations s (Commit E s)" "same_generations s (publish ev now s)"
  "same_generations s (set_ended now dpl s)" "same_generations s (DeployerUpdate E ds s)"
  "same_generations s (updateDataDeployments E ub us bp sp new s)"
  by (simp_all add: same_generations_def set_ended_def DeployerUpdate_def)

lemma NewDeployment_generations:
  assumes "NewDeployment E g op r bp sp s = (dpl, s')"
  shows "same_generations s s'"
proof -
  have "s' = snd (NewDeployment E g op r bp sp s)" using assms by simp
  then show ?thesis by (simp add: NewDeployment_def Let_def same_generations_def)
qed

lemma change_deployment_generations:
  "change_deployment E f ev u bp sp s = Inr (dpl, s') \<Longrightarrow> same_generations s s'"
  by (auto simp: change_deployment_def Let_def same_generations_def split: option.splits)

lemma update_generations:
  "DeploymentStarted E u bp sp s = Inr (dpl, s') \<Longrightarrow> same_generations s s'"
  "DeploymentFinished E u err rst prof bp sp s = Inr (dpl, s') \<Longrightarrow> same_generations s s'"
  unfolding DeploymentStarted_def DeploymentFinished_def by (rule change_deployment_generations; assumption)+

lemma finished_generations:
  "DeploymentFinished E u err rst prof bp sp (set_ended now dpl s) = Inr (x, s') \<Longrightarrow> same_generations s s'"
  using same_generations_trans [OF same_generations_ops(3) update_generations(2)] .

lemma runner_step_generations:
  assumes "runner_step V d = Some d'"
  shows "same_generations (dp_store d) (dp_store d')"
proof (cases "dp_pc d")
  case (Create g op)
  with assms show ?thesis
    by (cases g) (auto simp: runner_step.simps Let_def dest: NewDeployment_generations split: prod.splits)
next
  case (Start g dpl b c)
  with assms show ?thesis
    by (auto simp: runner_step.simps Let_def dest: update_generations split: sum.splits)
next
  case (Finish g dpl b c r)
  with assms show ?thesis
    by (cases r) (auto simp: runner_step.simps Let_def dest: finished_generations split: sum.splits)
qed (use assms in \<open>auto simp: runner_step.simps Let_def split: list.splits if_splits prod.splits option.splits\<close>)

text \<open>Changes of the store that do not concern the suspension of the deployer.\<close>

lemma change_generation_suspension:
  assumes "change_generation f record_last ev now u s = Inr s'"
    and "\<And>s. st_persisted (record_last s) = st_persisted s"
  shows "persisted_suspension s' = persisted_suspension s"
  using assms by (auto simp: change_generation_def generationsGC_def upd_generations_def publish_def
      persisted_suspension_def split: option.splits)

lemma GenerationEvalStarted_suspension:
  "GenerationEvalStarted E u s = Inr s' \<Longrightarrow> persisted_suspension s' = persisted_suspension s"
  "GenerationBuildStart E u r s = Inr s' \<Longrightarrow> persisted_suspension s' = persisted_suspension s"
  "GenerationEvalFinished E u d p mid e s = Inr s' \<Longrightarrow> persisted_suspension s' = persisted_suspension s"
  unfolding GenerationEvalStarted_def GenerationBuildStart_def GenerationEvalFinished_def
  by (rule change_generation_suspension, assumption, simp)+

lemma GenerationBuildFinished_suspension:
  assumes "GenerationBuildFinished E u err s = Inr s'"
  shows "persisted_suspension s' = persisted_suspension s"
  using assms
proof (rule GenerationBuildFinished_change)
  fix t
  assume c: "change_generation (build_finished E err) (\<lambda>s. s\<lparr>st_lastBuildFinished := Some u\<rparr>)
      Event_BuildFinished (clk E 1) u t = Inr s'" and "st_persisted t = st_persisted s"
  with change_generation_suspension [OF c] show ?thesis by (simp add: persisted_suspension_def)
qed

lemmas generation_suspension = GenerationEvalStarted_suspension GenerationBuildFinished_suspension

lemma logged_suspension [simp]:
  "persisted_suspension (logged s (GenerationEvalFinished E u d p mid e s)) = persisted_suspension s"
  "persisted_suspension (logged s (GenerationBuildStart E u r s)) = persisted_suspension s"
  "persisted_suspension (logged s (GenerationBuildFinished E u err s)) = persisted_suspension s"
  by (auto simp: logged_def split: sum.split dest: generation_suspension)

definition same_suspension :: "builder \<Rightarrow> builder \<Rightarrow> bool" where
  "same_suspension b b' \<longleftrightarrow>
     persisted_suspension (bu_store b') = persisted_suspension (bu_store b) \<and>
     bu_isSuspended b' = bu_isSuspended b"

lemma same_suspension_refl [simp]: "same_suspension b b"
  by (simp add: same_suspension_def)

lemma eval_finish_suspension: "eval_finish V b = Some b' \<Longrightarrow> same_suspension b b'"
  by (auto simp: eval_finish_def Let_def same_suspension_def split: option.splits prod.splits if_splits)

lemma build_finish_suspension: "build_finish V b = Some b' \<Longrightarrow> same_suspension b b'"
  by (auto simp: build_finish_def same_suspension_def split: option.splits)

lemma cancel_suspension [simp]:
  "bu_store (cancel_eval w b) = bu_store b" "bu_isSuspended (cancel_eval w b) = bu_isSuspended b"
  "bu_store (cancel_build w b) = bu_store b" "bu_isSuspended (cancel_build w b) = bu_isSuspended b"
  by (simp_all add: cancel_eval_def cancel_build_def)

lemma stop_suspension:
  "same_suspension b (stopEval V b)" "same_suspension b (stopBuild V b)" "same_suspension b (Stop V b)"
proof -
  show e: "same_suspension b (stopEval V b)" for b
    using eval_finish_suspension [of V "cancel_eval ''context canceled'' b"]
    by (cases "eval_finish V (cancel_eval ''context canceled'' b)") (auto simp: stopEval_def same_suspension_def)
  show c: "same_suspension b (stopBuild V b)" for b
    using build_finish_suspension [of V "cancel_build ''context canceled'' b"]
    by (cases "build_finish V (cancel_build ''context canceled'' b)") (auto simp: stopBuild_def same_suspension_def)
  show "same_suspension b (Stop V b)"
    using e [of b] c [of "stopEval V b"] by (simp add: Stop_def same_suspension_def)
qed

lemma open_log_suspension [simp]: "persisted_suspension (open_log E obj u s) = persisted_suspension s"
  by (simp add: open_log_def)

lemma Eval_suspension: "same_suspension b (snd (Eval V g b))"
  using stop_suspension(3) [of b V]
  by (auto simp: Eval_def Let_def same_suspension_def split: sum.split dest: generation_suspension)

lemma build_suspension: "same_suspension b (snd (build V u b))"
  using build_unfold [of V u b] by (auto simp: same_suspension_def dest: generation_suspension)

section \<open>Invariant of the composed system\<close>

definition manager_inv :: "manager \<Rightarrow> bool" where
  "manager_inv m \<longleftrightarrow> builder_inv (the_builder m) \<and> deployer_inv (the_deployer m) \<and>
     length (mg_brokerEvents m) \<le> 5 \<and>
     (bu_isSuspended (mg_builder m) \<longleftrightarrow> mg_isSuspended m) \<and>
     (mg_isSuspended m \<longrightarrow> dp_isSuspended (mg_deployer m))"

lemma the_builder_simps [simp]:
  "bu_store (the_builder m) = mg_store m" "bu_isSuspended (the_builder m) = bu_isSuspended (mg_builder m)"
  "the_builder (with_builder b m) = b" "the_builder (m\<lparr>mg_pc := pc\<rparr>) = the_builder m"
  "the_builder (m\<lparr>mg_brokerEvents := es\<rparr>) = the_builder m"
  "the_builder (m\<lparr>mg_BuildConfirmer := c\<rparr>) = the_builder m"
  "the_builder (m\<lparr>mg_DeployConfirmer := c\<rparr>) = the_builder m"
  by (simp_all add: the_builder_def with_builder_def)

lemma the_deployer_simps [simp]:
  "dp_store (the_deployer m) = mg_store m" "dp_isSuspended (the_deployer m) = dp_isSuspended (mg_deployer m)"
  "the_deployer (with_deployer d m) = d" "the_deployer (m\<lparr>mg_pc := pc\<rparr>) = the_deployer m"
  "the_deployer (m\<lparr>mg_brokerEvents := es\<rparr>) = the_deployer m"
  "the_deployer (m\<lparr>mg_BuildConfirmer := c\<rparr>) = the_deployer m"
  "the_deployer (m\<lparr>mg_DeployConfirmer := c\<rparr>) = the_deployer m"
  by (simp_all add: the_deployer_def with_deployer_def)

lemma with_frames [simp]:
  "mg_brokerEvents (with_builder b m) = mg_brokerEvents m" "mg_isSuspended (with_builder b m) = mg_isSuspended m"
  "mg_deployer (with_builder b m) = mg_deployer m" "mg_builder (with_builder b m) = b"
  "mg_store (with_builder b m) = bu_store b" "mg_pc (with_builder b m) = mg_pc m"
  "mg_brokerEvents (with_deployer d m) = mg_brokerEvents m" "mg_isSuspended (with_deployer d m) = mg_isSuspended m"
  "mg_deployer (with_deployer d m) = d" "mg_builder (with_deployer d m) = mg_builder m"
  "mg_store (with_deployer d m) = dp_store d" "mg_pc (with_deployer d m) = mg_pc m"
  "mg_BuildConfirmer (with_builder b m) = mg_BuildConfirmer m"
  "mg_BuildConfirmer (with_deployer d m) = mg_BuildConfirmer m"
  by (simp_all add: with_builder_def with_deployer_def)

text \<open>What one component needs of the other's changes to the shared store.\<close>

lemma deployer_inv_store:
  assumes "deployer_inv d" and "persisted_suspension s = persisted_suspension (dp_store d)"
  shows "deployer_inv (d\<lparr>dp_store := s\<rparr>)"
  using assms by (simp add: deployer_inv_def)

lemma builder_inv_store:
  assumes "builder_inv b" and "same_generations (bu_store b) s"
  shows "builder_inv (b\<lparr>bu_store := s\<rparr>)"
  using builder_step_inv [OF assms(1) bstep_store] assms(2) by (simp add: same_generations_def)

lemma with_builder_inv:
  assumes "manager_inv m" and "builder_inv b" and "same_suspension (the_builder m) b"
  shows "manager_inv (with_builder b m)"
proof -
  have "the_deployer (with_builder b m) = (the_deployer m)\<lparr>dp_store := bu_store b\<rparr>"
    by (simp add: the_deployer_def with_builder_def)
  moreover have "deployer_inv ((the_deployer m)\<lparr>dp_store := bu_store b\<rparr>)"
    using assms by (intro deployer_inv_store) (auto simp: manager_inv_def same_suspension_def)
  ultimately show ?thesis using assms by (simp add: manager_inv_def same_suspension_def)
qed

lemma with_deployer_inv:
  assumes "manager_inv m" and "deployer_inv d" and "same_generations (mg_store m) (dp_store d)"
    and "mg_isSuspended m \<longrightarrow> dp_isSuspended d"
  shows "manager_inv (with_deployer d m)"
proof -
  have "the_builder (with_deployer d m) = (the_builder m)\<lparr>bu_store := dp_store d\<rparr>"
    by (simp add: the_builder_def with_deployer_def)
  moreover have "builder_inv ((the_builder m)\<lparr>bu_store := dp_store d\<rparr>)"
    using assms by (intro builder_inv_store) (auto simp: manager_inv_def)
  ultimately show ?thesis using assms by (simp add: manager_inv_def)
qed

lemma manager_inv_frames [simp]:
  "manager_inv (m\<lparr>mg_pc := pc\<rparr>) = manager_inv m"
  "manager_inv (m\<lparr>mg_BuildConfirmer := c\<rparr>) = manager_inv m"
  "manager_inv (m\<lparr>mg_DeployConfirmer := c\<rparr>) = manager_inv m"
  "manager_inv (m\<lparr>mg_needToReboot := r\<rparr>) = manager_inv m"
  "manager_inv (m\<lparr>mg_exited := r\<rparr>) = manager_inv m"
  by (simp_all add: manager_inv_def the_builder_def the_deployer_def)

lemma manager_inv_publish [simp]:
  "manager_inv m \<Longrightarrow> manager_inv (m\<lparr>mg_store := publish ev now (mg_store m)\<rparr>)"
  using builder_inv_store [of "the_builder m" "publish ev now (mg_store m)"]
    deployer_inv_store [of "the_deployer m" "publish ev now (mg_store m)"]
  by (simp add: manager_inv_def the_builder_def the_deployer_def)

lemma runner_step_suspended: "runner_step V d = Some d' \<Longrightarrow> dp_isSuspended d' = dp_isSuspended d"
proof (cases "dp_pc d")
  case (Create g op)
  then show "runner_step V d = Some d' \<Longrightarrow> dp_isSuspended d' = dp_isSuspended d"
    by (cases g) (auto simp: runner_step.simps Let_def split: prod.splits)
next
  case (Finish g dpl b c r)
  then show "runner_step V d = Some d' \<Longrightarrow> dp_isSuspended d' = dp_isSuspended d"
    by (cases r) (auto simp: runner_step.simps Let_def split: sum.splits)
qed (auto simp: runner_step.simps Let_def
    split: list.splits if_splits prod.splits option.splits sum.splits)

lemma NewGeneration_suspension:
  "persisted_suspension (snd (NewGeneration E h d a rs s)) = persisted_suspension s"
  by (simp add: NewGeneration_def Let_def upd_generations_def persisted_suspension_def)

lemma on_event_inv:
  assumes "manager_inv m" and "fresh_uuids E (st_persisted (mg_store m))" and "newUuid E 0 \<noteq> []"
  shows "manager_inv (on_event V E e m)"
proof -
  let ?b = "the_builder m"
  have inv: "manager_inv (with_builder (snd (Eval V g (?b\<lparr>bu_store := s\<rparr>))) m)"
    if n: "NewGeneration E (bu_hostname ?b) (bu_repositoryDir ?b) (bu_systemAttr ?b) rs (mg_store m) = (g, s)"
    for rs g s
  proof (rule with_builder_inv [OF assms(1)])
    have "builder_inv ?b" using assms(1) by (simp add: manager_inv_def)
    then have bi: "builder_inv (?b\<lparr>bu_store := s\<rparr>)"
      using builder_step_inv [OF _ bstep_new [of E ?b]] assms(2) n by simp
    have "g_Uuid g = newUuid E 0" using n by (auto simp: NewGeneration_def Let_def)
    then show "builder_inv (snd (Eval V g (?b\<lparr>bu_store := s\<rparr>)))"
      using Eval_inv [OF bi, of g V] assms(3) by (metis prod.collapse)
    have "persisted_suspension s = persisted_suspension (mg_store m)"
      using n NewGeneration_suspension by (metis snd_conv)
    then show "same_suspension ?b (snd (Eval V g (?b\<lparr>bu_store := s\<rparr>)))"
      using Eval_suspension [of "?b\<lparr>bu_store := s\<rparr>" V g] by (simp add: same_suspension_def)
  qed
  show ?thesis
  proof (cases "ev_Type e")
    case (Some t)
    with assms(1) inv show ?thesis
      by (cases t; simp add: on_event_def Let_def split: option.split prod.split) (metis snd_conv)
  qed (simp add: on_event_def assms)
qed

lemma handlers_inv:
  assumes "manager_inv m"
  shows "manager_inv (on_evaluation_done u m)" and "manager_inv (on_build_done u m)"
    and "manager_inv (on_build_confirmed V u m)" and "manager_inv (on_deploy_confirmed u m)"
    and "manager_inv (snd (DeploymentLatestSubmit op m))"
    and "manager_inv (on_deployment_done N E dpl m)"
proof -
  show "manager_inv (on_evaluation_done u m)" "manager_inv (on_build_done u m)"
    using assms by (auto simp: on_evaluation_done_def on_build_done_def split: sum.split option.split)
  have "builder_inv (SubmitBuild V u (the_builder m))"
    using assms by (intro SubmitBuild_inv) (simp add: manager_inv_def)
  moreover have "same_suspension (the_builder m) (SubmitBuild V u (the_builder m))"
    using build_suspension by (simp add: SubmitBuild_def)
  ultimately show "manager_inv (on_build_confirmed V u m)"
    unfolding on_build_confirmed_def using assms by (intro with_builder_inv)
  have submit: "manager_inv (with_deployer (Submit g op f r (the_deployer m)) m)" for g op f r
    using assms client_inv(1) [of "the_deployer m" g op f r]
    by (intro with_deployer_inv) (auto simp: manager_inv_def Submit_def)
  show "manager_inv (on_deploy_confirmed u m)" "manager_inv (snd (DeploymentLatestSubmit op m))"
    using assms submit by (auto simp: on_deploy_confirmed_def DeploymentLatestSubmit_def
        split: sum.split option.split)
  show "manager_inv (on_deployment_done N E dpl m)"
    using assms manager_inv_publish [of "m\<lparr>mg_needToReboot := True\<rparr>" "Event_RebootRequired dpl" "clk E 0"]
    by (simp add: on_deployment_done_def Let_def)
qed

lemma Suspend_flags:
  "dp_isSuspended (Suspend E r d)" "same_generations (dp_store d) (dp_store (Suspend E r d))"
  "\<not> dp_isSuspended (Resume E d)" "same_generations (dp_store d) (dp_store (Resume E d))"
  by (simp_all add: Suspend_def Resume_def)

text \<open>Suspending and resuming: all three flags, and no error of the builder in between.\<close>

lemma manager_Suspend_ok:
  assumes "manager_inv m" and "\<not> mg_isSuspended m"
  obtains m' where "manager_Suspend V E m = (None, m')" and "manager_inv m'" and "mg_isSuspended m'"
    and "bu_isSuspended (mg_builder m')" and "dp_isSuspended (mg_deployer m')"
    and "persisted_suspension (mg_store m') = Some True"
proof -
  let ?b = "(stopBuild V (the_builder m))\<lparr>bu_isSuspended := True\<rparr>"
  have bs: "builder_Suspend V (the_builder m) = (None, ?b)"
    using assms by (simp add: builder_Suspend_def manager_inv_def)
  let ?m1 = "with_builder ?b m"
  let ?d = "Suspend E ''manager has been manually suspended'' (the_deployer ?m1)"
  let ?m2 = "(with_deployer ?d ?m1)\<lparr>mg_isSuspended := True\<rparr>"
  let ?m3 = "?m2\<lparr>mg_store := publish Event_Suspend (clk E 0) (mg_store ?m2)\<rparr>"
  have eq: "manager_Suspend V E m = (None, ?m3)"
    using assms(2) by (simp add: manager_Suspend_def bs Let_def)
  have bi: "builder_inv ?b"
    using stopBuild_inv(1) [of "the_builder m" V] assms(1) by (simp add: manager_inv_def)
  have di: "deployer_inv ?d"
  proof (rule client_inv)
    have "the_deployer ?m1 = (the_deployer m)\<lparr>dp_store := bu_store ?b\<rparr>"
      by (simp add: the_deployer_def with_builder_def)
    then show "deployer_inv (the_deployer ?m1)"
      using deployer_inv_store [of "the_deployer m" "bu_store ?b"] assms(1) stop_suspension(2) [of "the_builder m" V]
      by (simp add: manager_inv_def same_suspension_def)
  qed
  have "the_builder ?m2 = ?b\<lparr>bu_store := dp_store ?d\<rparr>" "the_deployer ?m2 = ?d"
    by (simp_all add: the_builder_def the_deployer_def with_builder_def with_deployer_def)
  moreover have "builder_inv (?b\<lparr>bu_store := dp_store ?d\<rparr>)"
    by (rule builder_inv_store [OF bi]) (use Suspend_flags(2) [of "the_deployer ?m1"] in simp)
  ultimately have "manager_inv ?m2"
    using assms(1) di Suspend_flags(1) by (simp add: manager_inv_def)
  then have "manager_inv ?m3" by (rule manager_inv_publish)
  with eq show thesis
    using that [of ?m3] Suspend_flags(1) by (simp add: Suspend_def persisted_suspension_def DeployerUpdate_def)
qed

lemma manager_Resume_ok:
  assumes "manager_inv m" and "mg_isSuspended m"
  obtains m' where "manager_Resume V E m = (None, m')" and "manager_inv m'" and "\<not> mg_isSuspended m'"
    and "\<not> bu_isSuspended (mg_builder m')" and "\<not> dp_isSuspended (mg_deployer m')"
    and "persisted_suspension (mg_store m') = Some False"
proof -
  have b0: "builder_inv (the_builder m)" "bu_isSuspended (the_builder m)"
    using assms by (simp_all add: manager_inv_def)
  obtain b where br: "builder_Resume V (the_builder m) = (None, b)" and bns: "\<not> bu_isSuspended b"
    using builder_Resume_ok(1,2) [OF b0, of V] by (metis prod.collapse)
  have bi: "builder_inv b" using builder_Resume_inv [OF b0(1) br] .
  have bp: "persisted_suspension (bu_store b) = persisted_suspension (mg_store m)"
    using br build_suspension [of "(the_builder m)\<lparr>bu_isSuspended := False\<rparr>" V]
    by (auto simp: builder_Resume_def Let_def same_suspension_def split: if_splits sum.splits)
  let ?m1 = "with_builder b m"
  let ?d = "Resume E (the_deployer ?m1)"
  let ?m2 = "(with_deployer ?d ?m1)\<lparr>mg_isSuspended := False\<rparr>"
  let ?m3 = "?m2\<lparr>mg_store := publish Event_Resume (clk E 0) (mg_store ?m2)\<rparr>"
  have eq: "manager_Resume V E m = (None, ?m3)"
    using assms(2) by (simp add: manager_Resume_def br Let_def)
  have di: "deployer_inv ?d"
  proof (rule client_inv)
    have "the_deployer ?m1 = (the_deployer m)\<lparr>dp_store := bu_store b\<rparr>"
      by (simp add: the_deployer_def with_builder_def)
    then show "deployer_inv (the_deployer ?m1)"
      using deployer_inv_store [of "the_deployer m" "bu_store b"] assms(1) bp by (simp add: manager_inv_def)
  qed
  have "the_builder ?m2 = b\<lparr>bu_store := dp_store ?d\<rparr>" "the_deployer ?m2 = ?d"
    by (simp_all add: the_builder_def the_deployer_def with_builder_def with_deployer_def)
  moreover have "builder_inv (b\<lparr>bu_store := dp_store ?d\<rparr>)"
    by (rule builder_inv_store [OF bi]) (use Suspend_flags(4) [of "the_deployer ?m1"] in simp)
  ultimately have "manager_inv ?m2"
    using assms(1) di bns Suspend_flags(3) by (simp add: manager_inv_def)
  then have "manager_inv ?m3" by (rule manager_inv_publish)
  with eq show thesis
    using that [of ?m3] Suspend_flags(3) bns by (simp add: Resume_def persisted_suspension_def DeployerUpdate_def)
qed

lemma suspend_resume_inv:
  assumes "manager_inv m"
  shows "manager_inv (snd (manager_Suspend V E m))" and "manager_inv (snd (manager_Resume V E m))"
proof -
  show "manager_inv (snd (manager_Suspend V E m))"
  proof (cases "mg_isSuspended m")
    case False
    then show ?thesis using manager_Suspend_ok [OF assms, of V E] by (metis snd_conv)
  qed (simp add: manager_Suspend_def assms)
  show "manager_inv (snd (manager_Resume V E m))"
  proof (cases "mg_isSuspended m")
    case True
    then show ?thesis using manager_Resume_ok [OF assms, of V E] by (metis snd_conv)
  qed (simp add: manager_Resume_def assms)
qed

lemma events_inv:
  "manager_inv m \<Longrightarrow> length es \<le> 5 \<Longrightarrow> manager_inv (m\<lparr>mg_brokerEvents := es\<rparr>)"
  by (simp add: manager_inv_def)

lemma channels_inv:
  assumes "manager_inv m"
  shows "bu_EvaluationDone (mg_builder m) = u # us \<Longrightarrow>
      manager_inv (m\<lparr>mg_builder := (mg_builder m)\<lparr>bu_EvaluationDone := us\<rparr>\<rparr>)"
    and "bu_BuildDone (mg_builder m) = u # us \<Longrightarrow>
      manager_inv (m\<lparr>mg_builder := (mg_builder m)\<lparr>bu_BuildDone := us\<rparr>\<rparr>)"
proof -
  have b: "builder_inv (the_builder m)" using assms by (simp add: manager_inv_def)
  have swap: "c\<lparr>bu_EvaluationDone := us, bu_store := s\<rparr> = c\<lparr>bu_store := s, bu_EvaluationDone := us\<rparr>"
    "c\<lparr>bu_BuildDone := us, bu_store := s\<rparr> = c\<lparr>bu_store := s, bu_BuildDone := us\<rparr>" for c :: builder and s
    by (cases c; simp)+
  show "manager_inv (m\<lparr>mg_builder := (mg_builder m)\<lparr>bu_EvaluationDone := us\<rparr>\<rparr>)"
    if "bu_EvaluationDone (mg_builder m) = u # us"
    using builder_step_inv [OF b bstep_evaluated [of "the_builder m" u us]] assms that
    by (simp add: manager_inv_def the_builder_def the_deployer_def swap)
  show "manager_inv (m\<lparr>mg_builder := (mg_builder m)\<lparr>bu_BuildDone := us\<rparr>\<rparr>)"
    if "bu_BuildDone (mg_builder m) = u # us"
    using builder_step_inv [OF b bstep_built [of "the_builder m" u us]] assms that
    by (simp add: manager_inv_def the_builder_def the_deployer_def swap)
qed

lemma builder_goroutines_inv:
  assumes "manager_inv m"
  shows "eval_finish V (the_builder m) = Some b \<Longrightarrow> manager_inv (with_builder b m)"
    and "build_finish V (the_builder m) = Some b \<Longrightarrow> manager_inv (with_builder b m)"
    and "manager_inv (with_builder (cancel_eval w (the_builder m)) m)"
    and "manager_inv (with_builder (cancel_build w (the_builder m)) m)"
proof -
  have b: "builder_inv (the_builder m)" using assms by (simp add: manager_inv_def)
  show "eval_finish V (the_builder m) = Some b \<Longrightarrow> manager_inv (with_builder b m)"
    by (rule with_builder_inv [OF assms eval_finish_inv(1) [OF b] eval_finish_suspension])
  show "build_finish V (the_builder m) = Some b \<Longrightarrow> manager_inv (with_builder b m)"
    by (rule with_builder_inv [OF assms build_finish_inv(1) [OF b] build_finish_suspension])
  show "manager_inv (with_builder (cancel_eval w (the_builder m)) m)"
    by (rule with_builder_inv [OF assms cancel_inv(1) [OF b]]) (simp add: same_suspension_def)
  show "manager_inv (with_builder (cancel_build w (the_builder m)) m)"
    by (rule with_builder_inv [OF assms cancel_inv(2) [OF b]]) (simp add: same_suspension_def)
qed

lemma deployer_goroutine_inv:
  assumes "manager_inv m"
  shows "runner_step W (the_deployer m) = Some d \<Longrightarrow> manager_inv (with_deployer d m)"
    and "receive_done (the_deployer m) = Some (dpl, d) \<Longrightarrow> manager_inv (with_deployer d m)"
proof -
  have di: "deployer_inv (the_deployer m)" using assms by (simp add: manager_inv_def)
  show "manager_inv (with_deployer d m)" if r: "runner_step W (the_deployer m) = Some d"
    using assms runner_step_inv [OF r di] runner_step_generations [OF r] runner_step_suspended [OF r]
    by (intro with_deployer_inv) (auto simp: manager_inv_def)
  show "manager_inv (with_deployer d m)" if r: "receive_done (the_deployer m) = Some (dpl, d)"
    using assms client_inv(4) [OF di r] r
    by (intro with_deployer_inv) (auto simp: manager_inv_def receive_done_def split: list.splits)
qed

lemma manager_act_inv: "manager_inv m \<Longrightarrow> manager_act a m m' \<Longrightarrow> manager_inv m'"
proof (rotate_tac, induction rule: manager_act.induct)
  case (ma_event m e es E V)
  have "manager_inv (m\<lparr>mg_brokerEvents := es\<rparr>)"
    using ma_event by (intro events_inv) (auto simp: manager_inv_def)
  with ma_event show ?case by (intro on_event_inv) simp_all
next
  case (ma_evaluated m u us)
  then show ?case by (intro handlers_inv channels_inv)
next
  case (ma_built m u us)
  then show ?case by (intro handlers_inv channels_inv)
next
  case (ma_broker m e)
  then show ?case by (intro events_inv) auto
qed (auto intro: handlers_inv builder_goroutines_inv deployer_goroutine_inv suspend_resume_inv)

lemma manager_step_inv: "manager_inv m \<Longrightarrow> manager_step m m' \<Longrightarrow> manager_inv m'"
  unfolding manager_step_def using manager_act_inv by blast

lemma manager_init_inv: "manager_init m \<Longrightarrow> manager_inv m"
proof -
  assume "manager_init m"
  then obtain s f path dir attr host d previous cmd machineId hostname bm bt dm dt ops where
    s: "generations_inv s" and d: "deployer_New s previous cmd = Some d" and
    m: "m = manager_New s f (builder_New s path dir attr host) d machineId hostname
           (NewConfirmer bm bt) (NewConfirmer dm dt) ops"
    unfolding manager_init_def by blast
  have "deployer_inv d"
    by (rule deployer_runs.inv_init) (use d in \<open>auto simp: deployer_init_def\<close>)
  moreover have "dp_store d = s" using d by (auto simp: deployer_New_def)
  moreover have "builder_inv (builder_New s path dir attr host)"
    by (rule builder_runs.inv_init) (unfold builder_init_def, use s in blast)
  ultimately show ?thesis
    by (auto simp: m manager_inv_def manager_New_def the_builder_def the_deployer_def builder_New_def)
qed

interpretation manager_runs: invariant_of manager_init manager_step manager_inv
  by unfold_locales (auto intro: manager_init_inv manager_step_inv)

section \<open>Properties\<close>


definition example_manager :: manager where
  "example_manager = manager_New example_new \<lparr>pf_IsFetching = None, pf_GitRepositoryStatus = None\<rparr>
     (builder_New example_new ''path'' ''dir'' ''attr'' ''host'') example_deployer ''mid'' ''host''
     (NewConfirmer Without 0) (NewConfirmer Without 0) [(''origin'', [(''main'', ''switch'')])]"

lemma example_manager_init: "manager_init example_manager"
proof -
  have "generations_inv example_new"
    by (simp add: generations_inv_def last_uuids_def store_simps)
  moreover have "deployer_New example_new None [] = Some example_deployer"
    by (simp add: deployer_New_def example_deployer_def store_simps)
  ultimately show ?thesis unfolding manager_init_def example_manager_def by blast
qed


text \<open>
  Suspending works and is reversible: in every reachable state that is not suspended,
  a suspend request succeeds and suspends the manager, the builder and the deployer and persists it;
  a resume request right after succeeds too and resumes all of them.
\<close>

theorem suspend_resume:
  assumes "reachable manager_init manager_step m" and "\<not> mg_isSuspended m"
  shows "\<exists>m1 m2. manager_Suspend V E m = (None, m1) \<and> mg_isSuspended m1 \<and>
    bu_isSuspended (mg_builder m1) \<and> dp_isSuspended (mg_deployer m1) \<and>
    persisted_suspension (mg_store m1) = Some True \<and>
    manager_Resume V' E' m1 = (None, m2) \<and> \<not> mg_isSuspended m2 \<and>
    \<not> bu_isSuspended (mg_builder m2) \<and> \<not> dp_isSuspended (mg_deployer m2) \<and>
    persisted_suspension (mg_store m2) = Some False"
proof -
  have inv: "manager_inv m" using assms(1) by (rule manager_runs.reachable_inv)
  obtain m1 where m1: "manager_Suspend V E m = (None, m1)" "manager_inv m1" "mg_isSuspended m1"
    "bu_isSuspended (mg_builder m1)" "dp_isSuspended (mg_deployer m1)"
    "persisted_suspension (mg_store m1) = Some True"
    using manager_Suspend_ok [OF inv assms(2)] .
  obtain m2 where "manager_Resume V' E' m1 = (None, m2)" "\<not> mg_isSuspended m2"
    "\<not> bu_isSuspended (mg_builder m2)" "\<not> dp_isSuspended (mg_deployer m2)"
    "persisted_suspension (mg_store m2) = Some False"
    using manager_Resume_ok [OF m1(2,3)] .
  with m1 show ?thesis by blast
qed

theorem suspend_resume_witness:
  "\<exists>m1. manager_Suspend example_benv (example_env 0 0) example_manager = (None, m1) \<and>
     dp_isSuspended (mg_deployer m1)"
proof -
  have "reachable manager_init manager_step example_manager"
    by (rule reachable_init) (rule example_manager_init)
  moreover have "\<not> mg_isSuspended example_manager" by (simp add: example_manager_def manager_New_def)
  ultimately show ?thesis
    using suspend_resume [of example_manager example_benv "example_env 0 0" example_benv "example_env 0 0"]
    by blast
qed

text \<open>
  A suspension that survived a restart cannot be lifted by a resume request: the deployer
  restores its suspension from the store, the manager does not, and refuses to resume. Nothing
  changes and the deployer stays suspended.
\<close>

theorem restart_suspended_cannot_resume:
  assumes "deployer_New s previous cmd = Some d" and "persisted_suspension s = Some True"
  shows "manager_Resume V E (manager_New s f b d machineId hostname bc dc ops) =
      (Some ManagerNotSuspended, manager_New s f b d machineId hostname bc dc ops) \<and>
    dp_isSuspended (mg_deployer (manager_New s f b d machineId hostname bc dc ops))"
  using assms by (auto simp: manager_Resume_def manager_New_def deployer_New_def persisted_suspension_def)

theorem restart_suspended_cannot_resume_witness:
  "\<exists>d. deployer_New (DeployerUpdate (example_env 0 0) \<lparr>ds_IsSuspended = True, ds_SuspendReason = ''why''\<rparr> example_new)
       None [] = Some d \<and> dp_isSuspended d"
proof -
  let ?s = "DeployerUpdate (example_env 0 0) \<lparr>ds_IsSuspended = True, ds_SuspendReason = ''why''\<rparr> example_new"
  have p: "persisted_suspension ?s = Some True" by simp
  then obtain d where d: "deployer_New ?s None [] = Some d"
    by (auto simp: deployer_New_def persisted_suspension_def)
  from restart_suspended_cannot_resume [OF d p] d show ?thesis
    by (auto simp: manager_New_def)
qed

end
