(* ===== verification/Manager_Correct.thy ===== *)
theory Manager_Correct
  imports Manager
begin

text \<open>
  What the pipeline of the manager does with a commit: the gates on the way from a fetched commit to a
  deployment, the operation it is deployed with, and two interleavings of the pipeline.
\<close>

section \<open>From a fetched commit to its evaluation\<close>

lemma find_first_last: "find_first P xs = None \<Longrightarrow> P x \<Longrightarrow> find_first P (xs @ [x]) = Some x"
  by (induction xs) (auto split: if_splits)

lemma idle_Stop:
  "bu_evaluator b = None \<Longrightarrow> bu_buildator b = None \<Longrightarrow>
     Stop V b = b\<lparr>bu_isEvaluating := False, bu_isBuilding := False\<rparr>"
  by (simp add: Stop_def stopEval_def stopBuild_def eval_finish_def build_finish_def cancel_eval_def
      cancel_build_def)

lemma fetched_is_evaluated:
  assumes "bu_evaluator (mg_builder m) = None" and "bu_buildator (mg_builder m) = None"
    and "fresh_uuids E (st_persisted (mg_store m))"
  obtains b g git where
    "on_event V E (mk_event (Event_Fetched True True (Some rs)) now) m = with_builder b m"
    and "GenerationGet (newUuid E 0) (bu_store b) = Inr g" and "g_EvalStatus g = ''evaluating''"
    and "g_Source g = Some (Source (Some git))" and "git_SelectedCommitId git = rs_SelectedCommitId rs"
    and "git_SelectedRemoteName git = rs_SelectedRemoteName rs"
    and "git_SelectedBranchName git = rs_SelectedBranchName rs"
    and "bu_evaluator b = Some (newUuid E 0, g_Source g, None)"
    and "g_EvalErr g = []" and "g_BuildStatus g = ''initialized''" and "g_BuildErr g = []"
    and "bu_GenerationUuid b = newUuid E 0" and "\<not> bu_isBuilding b" and "bu_buildator b = None"
    and "bu_EvaluationDone b = bu_EvaluationDone (mg_builder m)" and "bu_BuildDone b = bu_BuildDone (mg_builder m)"
    and "bu_isSuspended b = bu_isSuspended (mg_builder m)"
proof -
  let ?b = "the_builder m"
  obtain g s where n: "NewGeneration E (bu_hostname ?b) (bu_repositoryDir ?b) (bu_systemAttr ?b) rs (mg_store m) = (g, s)"
    by fastforce
  have u: "g_Uuid g = newUuid E 0" using n by (auto simp: NewGeneration_def Let_def)
  obtain git where git: "g_Source g = Some (Source (Some git))"
        "git_SelectedCommitId git = rs_SelectedCommitId rs"
        "git_SelectedRemoteName git = rs_SelectedRemoteName rs"
        "git_SelectedBranchName git = rs_SelectedBranchName rs"
    using n by (auto simp: NewGeneration_def Let_def)
  have s: "st_Generations s = st_Generations (mg_store m) @ [g]"
    using n by (auto simp: NewGeneration_def Let_def upd_generations_def)
  have "find_first (\<lambda>x. g_Uuid x = g_Uuid g) (st_Generations (mg_store m)) = None"
    unfolding find_first_None
  proof
    fix x assume "x \<in> set (st_Generations (mg_store m))"
    then have "g_Uuid x \<in> g_Uuid ` set (st_Generations (mg_store m))" by (rule imageI)
    then show "g_Uuid x \<noteq> g_Uuid g" using fresh_uuidsD(3) [OF assms(3), of 0] u by auto
  qed
  then have get: "generationGet (g_Uuid g) (st_Generations s) = Some g"
    by (simp add: s generationGet_def find_first_last)
  have idle: "bu_evaluator (?b\<lparr>bu_store := s\<rparr>) = None" "bu_buildator (?b\<lparr>bu_store := s\<rparr>) = None"
    using assms(1,2) by (simp_all add: the_builder_def)
  obtain s1 where s1: "GenerationEvalStarted (bv_env V 4) (g_Uuid g) s = Inr s1"
    using get by (auto simp: GenerationEvalStarted_def change_generation_def)
  let ?g = "g\<lparr>g_EvalStartedAt := Some (clk (bv_env V 4) 0), g_EvalStatus := ''evaluating''\<rparr>"
  have get1: "generationGet (g_Uuid g) (st_Generations s1) = Some ?g"
    using eval_started.ok_get [OF s1 [unfolded GenerationEvalStarted_def]] get by auto
  let ?b' = "snd (Eval V g (?b\<lparr>bu_store := s\<rparr>))"
  have b': "bu_evaluator ?b' = Some (g_Uuid g, g_Source g, None)" "st_Generations (bu_store ?b') = st_Generations s1"
    "bu_GenerationUuid ?b' = g_Uuid g" "\<not> bu_isBuilding ?b'" "bu_buildator ?b' = None"
    "bu_EvaluationDone ?b' = bu_EvaluationDone (mg_builder m)" "bu_BuildDone ?b' = bu_BuildDone (mg_builder m)"
    "bu_isSuspended ?b' = bu_isSuspended (mg_builder m)"
    using assms(2) by (simp_all add: Eval_def Let_def idle_Stop [OF idle] s1) (simp_all add: the_builder_def)
  have g: "g_EvalErr g = []" "g_BuildStatus g = ''initialized''" "g_BuildErr g = []"
    using n by (auto simp: NewGeneration_def Let_def Generation0_def)
  show thesis
  proof (rule that)
    show "on_event V E (mk_event (Event_Fetched True True (Some rs)) now) m = with_builder ?b' m"
      by (simp add: on_event_def mk_event_def n split: prod.split)
    show "GenerationGet (newUuid E 0) (bu_store ?b') = Inr ?g"
      using get1 b'(2) u by (simp add: GenerationGet_def)
  qed (use git b'(1,3-) u g in simp_all)
qed

text \<open>
  Only verified updates are evaluated, and then exactly the fetched commit. An event that
  is not an updated fetch, or whose commit is not verified, changes nothing. For a verified update
  that finds the builder idle, a new generation of the selected commit, branch and remote is in the
  store and its evaluation is in flight.
\<close>

theorem verified_commit_is_evaluated:
  assumes "bu_evaluator (mg_builder m) = None" and "bu_buildator (mg_builder m) = None"
    and "fresh_uuids E (st_persisted (mg_store m))"
  shows "(updated \<and> verified \<longrightarrow>
      (\<exists>g git. GenerationGet (newUuid E 0) (mg_store (on_event V E (mk_event (Event_Fetched updated verified (Some rs)) now) m)) = Inr g \<and>
        g_EvalStatus g = ''evaluating'' \<and> g_Source g = Some (Source (Some git)) \<and>
        git_SelectedCommitId git = rs_SelectedCommitId rs \<and>
        git_SelectedRemoteName git = rs_SelectedRemoteName rs \<and>
        git_SelectedBranchName git = rs_SelectedBranchName rs \<and>
        bu_evaluator (mg_builder (on_event V E (mk_event (Event_Fetched updated verified (Some rs)) now) m)) =
          Some (newUuid E 0, g_Source g, None))) \<and>
    (\<not> (updated \<and> verified) \<longrightarrow>
      on_event V E (mk_event (Event_Fetched updated verified (Some rs)) now) m = m)"
proof (intro conjI impI)
  assume uv: "updated \<and> verified"
  obtain b g git where
    "on_event V E (mk_event (Event_Fetched True True (Some rs)) now) m = with_builder b m"
    "GenerationGet (newUuid E 0) (bu_store b) = Inr g" "g_EvalStatus g = ''evaluating''"
    "g_Source g = Some (Source (Some git))" "git_SelectedCommitId git = rs_SelectedCommitId rs"
    "git_SelectedRemoteName git = rs_SelectedRemoteName rs"
    "git_SelectedBranchName git = rs_SelectedBranchName rs"
    "bu_evaluator b = Some (newUuid E 0, g_Source g, None)"
    using assms by (rule fetched_is_evaluated)
  then show "\<exists>g git. GenerationGet (newUuid E 0) (mg_store (on_event V E (mk_event (Event_Fetched updated verified (Some rs)) now) m)) = Inr g \<and>
        g_EvalStatus g = ''evaluating'' \<and> g_Source g = Some (Source (Some git)) \<and>
        git_SelectedCommitId git = rs_SelectedCommitId rs \<and>
        git_SelectedRemoteName git = rs_SelectedRemoteName rs \<and>
        git_SelectedBranchName git = rs_SelectedBranchName rs \<and>
        bu_evaluator (mg_builder (on_event V E (mk_event (Event_Fetched updated verified (Some rs)) now) m)) =
          Some (newUuid E 0, g_Source g, None)"
    using uv by (intro exI [of _ g] exI [of _ git]) (simp add: with_builder_def)
qed (simp add: on_event_def mk_event_def)

definition example_status :: GitRepositoryStatus where
  "example_status = GitRepositoryStatus0\<lparr>rs_SelectedCommitId := ''c1''\<rparr>"

theorem verified_commit_is_evaluated_witness:
  "\<exists>g git. GenerationGet ''u'' (mg_store (on_event example_benv (example_env 0 1)
       (mk_event (Event_Fetched True True (Some example_status)) 7) example_manager)) = Inr g \<and>
     g_Source g = Some (Source (Some git)) \<and> git_SelectedCommitId git = ''c1''"
proof -
  have idle: "bu_evaluator (mg_builder example_manager) = None" "bu_buildator (mg_builder example_manager) = None"
    by (simp_all add: example_manager_def manager_New_def builder_New_def)
  have f: "fresh_uuids (example_env 0 1) (st_persisted (mg_store example_manager))"
    by (rule example_env_fresh) (simp add: example_manager_def manager_New_def store_simps)
  from verified_commit_is_evaluated [OF idle f, of True True example_benv example_status 7]
  show ?thesis by (auto simp: example_status_def)
qed

section \<open>From an evaluation to a deployment\<close>

lemma already_built_submitted:
  assumes "bu_evaluator (mg_builder m) = Some (u, source, None)"
    and "bv_Eval V source = (drvPath, outPath, machineId, err)" and "bv_IsStorePathExist V outPath"
    and "GenerationGet u (mg_store m) = Inr g0" and "GetGit (g_Source g0) \<noteq> None"
    and "dp_previousDeployment (mg_deployer m) = None"
    and "eval_finish V (the_builder m) = Some b"
  shows "mg_pc (on_build_done u (with_builder b m)) = SubmittingDeploy u"
    and "\<exists>g. GenerationGet u (bu_store b) = Inr g \<and> g_MachineId g = machineId"
proof -
  have "generationGet u (st_Generations (mg_store m)) = Some g0"
    using assms(4) by (simp add: GenerationGet_def split: option.splits)
  from this obtain s1 s2 s3 where
    s: "GenerationEvalFinished (bv_env V 0) u drvPath outPath machineId err (mg_store m) = Inr s1"
      "GenerationBuildStart (bv_env V 1) u BuildReasonAlreadyBuilt s1 = Inr s2"
      "GenerationBuildFinished (bv_env V 2) u None s2 = Inr s3"
    and ex: "\<exists>g. generationGet u (st_Generations s3) = Some g \<and> g_BuildStatus g = ''built'' \<and>
      g_BuildErr g = [] \<and> g_OutPath g = outPath \<and> g_MachineId g = machineId \<and> g_Source g = g_Source g0 \<and>
      g_EvalErr g = (case err of None \<Rightarrow> g_EvalErr g0 | Some e \<Rightarrow> e)"
    by (rule already_built_chain)
  have "bu_store b = s3"
    using assms(1-3,7) s by (auto simp: eval_finish_def Let_def logged_def the_builder_def exec_result_def)
  with ex assms(5) obtain g where g: "GenerationGet u (bu_store b) = Inr g" "GetGit (g_Source g) \<noteq> None"
    "g_MachineId g = machineId" "g_BuildErr g = []"
    by (auto simp: GenerationGet_def)
  have "\<not> IsAlreadyDeployed g op (mg_deployer m)" for op
    using assms(6) by (simp add: IsAlreadyDeployed_def)
  moreover obtain op where "generation_operation g (with_builder b m) = Some op"
    using g(2) by (auto simp: generation_operation_def)
  ultimately show "mg_pc (on_build_done u (with_builder b m)) = SubmittingDeploy u"
    using g by (simp add: on_build_done_def)
  show "\<exists>g. GenerationGet u (bu_store b) = Inr g \<and> g_MachineId g = machineId" using g by blast
qed

text \<open>
  The machine id is not checked for a system that is already built: when an evaluation
  ends, with or without an error, with a store path that exists, the builder announces a build, and
  the manager submits the generation for deployment although its machine id is not the one of the
  host. The end of the same evaluation, announced as an evaluation, would not be submitted.
\<close>

theorem already_built_bypasses_machine_id:
  assumes "bu_evaluator (mg_builder m) = Some (u, source, None)"
    and "bv_Eval V source = (drvPath, outPath, machineId, err)" and "bv_IsStorePathExist V outPath"
    and "machineId \<noteq> []" and "machineId \<noteq> mg_machineId m"
    and "GenerationGet u (mg_store m) = Inr g0" and "GetGit (g_Source g0) \<noteq> None"
    and "dp_previousDeployment (mg_deployer m) = None"
    and "eval_finish V (the_builder m) = Some b"
  shows "mg_pc (on_build_done u (with_builder b m)) = SubmittingDeploy u \<and>
    on_evaluation_done u (with_builder b m) = with_builder b m"
  using already_built_submitted [OF assms(1-3,6-9)] assms(4,5)
  by (auto simp: on_evaluation_done_def with_builder_def)

definition example_running :: manager where
  "example_running = on_event example_benv (example_env 0 1)
     (mk_event (Event_Fetched True True (Some example_status)) 7) example_manager"

lemma example_running_view:
  obtains g where "bu_evaluator (mg_builder example_running) = Some (''u'', g_Source g, None)"
    and "GenerationGet ''u'' (mg_store example_running) = Inr g" and "GetGit (g_Source g) \<noteq> None"
    and "mg_machineId example_running = ''mid''" and "dp_previousDeployment (mg_deployer example_running) = None"
proof -
  have idle: "bu_evaluator (mg_builder example_manager) = None" "bu_buildator (mg_builder example_manager) = None"
    by (simp_all add: example_manager_def manager_New_def builder_New_def)
  have f: "fresh_uuids (example_env 0 1) (st_persisted (mg_store example_manager))"
    by (rule example_env_fresh) (simp add: example_manager_def manager_New_def store_simps)
  obtain b g git where r: "example_running = with_builder b example_manager"
    "GenerationGet (newUuid (example_env 0 1) 0) (bu_store b) = Inr g" "g_Source g = Some (Source (Some git))"
    "bu_evaluator b = Some (newUuid (example_env 0 1) 0, g_Source g, None)"
    unfolding example_running_def using idle f by (rule fetched_is_evaluated)
  show thesis
    by (rule that [of g]) (use r(2-) in \<open>simp_all add: r(1) with_builder_def example_manager_def manager_New_def example_deployer_def deployer_New_def store_simps\<close>)
qed

theorem already_built_bypasses_machine_id_witness:
  "\<exists>b. eval_finish (example_benv\<lparr>bv_IsStorePathExist := (\<lambda>_. True),
        bv_Eval := (\<lambda>_. (''drv'', ''st3'', ''other'', None))\<rparr>) (the_builder example_running) = Some b \<and>
     mg_pc (on_build_done ''u'' (with_builder b example_running)) = SubmittingDeploy ''u''"
proof -
  let ?V = "example_benv\<lparr>bv_IsStorePathExist := (\<lambda>_. True), bv_Eval := (\<lambda>_. (''drv'', ''st3'', ''other'', None))\<rparr>"
  obtain g where v: "bu_evaluator (mg_builder example_running) = Some (''u'', g_Source g, None)"
    "GenerationGet ''u'' (mg_store example_running) = Inr g" "GetGit (g_Source g) \<noteq> None"
    "mg_machineId example_running = ''mid''" "dp_previousDeployment (mg_deployer example_running) = None"
    by (rule example_running_view)
  obtain b where b: "eval_finish ?V (the_builder example_running) = Some b"
    using eval_finish_None [of ?V "the_builder example_running"] v(1)
    by (auto simp: the_builder_def)
  have "mg_pc (on_build_done ''u'' (with_builder b example_running)) = SubmittingDeploy ''u''"
    using already_built_bypasses_machine_id [OF v(1) _ _ _ _ v(2,3,5) b] v(4) by simp
  with b show ?thesis by blast
qed

text \<open>
  The operation of a deployment is the configured one for its remote and branch. For an
  unknown remote it is a test; for an unknown branch of a known remote it is the empty string and
  not, as logged, a test.
\<close>

theorem operation_from_configuration:
  "getOperationFromConfigurationOperations ops remote branch =
     (if remote \<notin> fst ` set ops then ''test''
      else if branch \<notin> fst ` set (the (map_of ops remote)) then []
      else the (map_of (the (map_of ops remote)) branch))"
  by (auto simp: getOperationFromConfigurationOperations_def map_of_eq_None_iff
      split: option.split) (force dest: map_of_SomeD)+

section \<open>A deadlock of the manager with a confirmer\<close>

text \<open>The manager submits to a confirmer that is sending to the manager.\<close>

definition stuck :: "uuid \<Rightarrow> uuid \<Rightarrow> manager \<Rightarrow> bool" where
  "stuck u v m \<longleftrightarrow> mg_pc m = SubmittingBuild v \<and> co_sending (mg_BuildConfirmer m) = Some u"

lemma client_frames [simp]:
  "mg_pc (snd (manager_Suspend V E m)) = mg_pc m"
  "mg_BuildConfirmer (snd (manager_Suspend V E m)) = mg_BuildConfirmer m"
  "mg_pc (snd (manager_Resume V E m)) = mg_pc m"
  "mg_BuildConfirmer (snd (manager_Resume V E m)) = mg_BuildConfirmer m"
  "mg_pc (snd (DeploymentLatestSubmit op m)) = mg_pc m"
  "mg_BuildConfirmer (snd (DeploymentLatestSubmit op m)) = mg_BuildConfirmer m"
  "mg_pc (on_deployment_done N E dpl m) = mg_pc m"
  "mg_BuildConfirmer (on_deployment_done N E dpl m) = mg_BuildConfirmer m"
  by (auto simp: manager_Suspend_def manager_Resume_def DeploymentLatestSubmit_def
      on_deployment_done_def Let_def split: option.split prod.split)

lemma stuck_act: "stuck u v m \<Longrightarrow> manager_act a m m' \<Longrightarrow> stuck u v m'"
  by (rotate_tac, induction rule: manager_act.induct) (auto simp: stuck_def confirmer_select.simps)

lemma stuck_step: "stuck u v m \<Longrightarrow> manager_step m m' \<Longrightarrow> stuck u v m'"
  unfolding manager_step_def using stuck_act by blast

interpretation deadlock: invariant_of "stuck u v" manager_step "stuck u v" for u v
  by unfold_locales (auto intro: stuck_step)

text \<open>
  The manager and a confirmer can block each other for ever. When a second evaluation
  ends while the build confirmer is sending the first generation to the manager, the manager may
  take the end of the evaluation first and submit that generation: both then wait for the other.
  From such a state, whatever the other components and the clients do, the manager never handles
  anything again.
\<close>

theorem manager_confirmer_deadlock:
  assumes "mg_pc m = Selecting" and "co_sending (mg_BuildConfirmer m) = Some u"
    and "bu_EvaluationDone (mg_builder m) = [v]"
    and "GenerationGet v (mg_store m) = Inr g" and "g_EvalErr g = []" and "g_MachineId g = []"
  shows "\<exists>m'. manager_step m m' \<and> (\<forall>m''. manager_step\<^sup>*\<^sup>* m' m'' \<longrightarrow>
    mg_pc m'' = SubmittingBuild v \<and> co_sending (mg_BuildConfirmer m'') = Some u)"
proof -
  let ?m = "m\<lparr>mg_builder := (mg_builder m)\<lparr>bu_EvaluationDone := []\<rparr>\<rparr>"
  have "manager_step m (on_evaluation_done v ?m)" using assms(1,3) by (rule ms_evaluated)
  moreover have "stuck u v (on_evaluation_done v ?m)"
    using assms by (simp add: stuck_def on_evaluation_done_def)
  ultimately show ?thesis using deadlock.star_inv unfolding stuck_def by blast
qed

theorem manager_confirmer_deadlock_witness:
  "\<exists>m m'. manager_step m m' \<and> (\<forall>m''. manager_step\<^sup>*\<^sup>* m' m'' \<longrightarrow> mg_pc m'' = SubmittingBuild ''g'')"
proof -
  let ?s = "upd_generations (\<lambda>_. [example_gen]) example_new"
  let ?m = "example_manager\<lparr>mg_store := ?s,
     mg_builder := (mg_builder example_manager)\<lparr>bu_EvaluationDone := [''g'']\<rparr>,
     mg_BuildConfirmer := the (confirmer_select 0 (CSubmit ''a'') (NewConfirmer Without 0))\<rparr>"
  have "mg_pc ?m = Selecting" "co_sending (mg_BuildConfirmer ?m) = Some ''a''"
    "bu_EvaluationDone (mg_builder ?m) = [''g'']" "GenerationGet ''g'' (mg_store ?m) = Inr example_gen"
    "g_EvalErr example_gen = []" "g_MachineId example_gen = []"
    by (simp_all add: example_manager_def manager_New_def confirmer_select.simps confirmer_defs NewConfirmer_def
        GenerationGet_def generationGet_def example_gen_def Generation0_def)
  from manager_confirmer_deadlock [OF this] show ?thesis by blast
qed

end
