(* ===== verification/Go_Strings.thy ===== *)
theory Go_Strings
  imports Prelude
begin

text \<open>
  The functions of Go's packages \<open>strings\<close>, \<open>unicode\<close>, \<open>path\<close> and \<open>path/filepath\<close> the program
  uses. A \<open>char\<close> stands for a rune of the Latin-1 range: all separators and quotes the program
  looks for are in it, and \<open>IsSpace\<close> is \<open>unicode.IsSpace\<close> on it. Paths are Unix paths.
\<close>

section \<open>Spaces, prefixes and suffixes\<close>

definition IsSpace :: "char \<Rightarrow> bool" where
  "IsSpace c \<longleftrightarrow> c \<in> {CHR 0x09, CHR 0x0A, CHR 0x0B, CHR 0x0C, CHR 0x0D, CHR 0x20, CHR 0x85, CHR 0xA0}"

definition TrimLeftFunc :: "(char \<Rightarrow> bool) \<Rightarrow> string \<Rightarrow> string" where
  "TrimLeftFunc f s = dropWhile f s"

definition TrimSpace :: "string \<Rightarrow> string" where
  "TrimSpace s = rev (dropWhile IsSpace (rev (dropWhile IsSpace s)))"

definition HasPrefix :: "string \<Rightarrow> string \<Rightarrow> bool" where
  "HasPrefix s p \<longleftrightarrow> take (length p) s = p"

definition HasSuffix :: "string \<Rightarrow> string \<Rightarrow> bool" where
  "HasSuffix s p \<longleftrightarrow> HasPrefix (rev s) (rev p)"

definition TrimPrefix :: "string \<Rightarrow> string \<Rightarrow> string" where
  "TrimPrefix s p = (if HasPrefix s p then drop (length p) s else s)"

definition TrimSuffix :: "string \<Rightarrow> string \<Rightarrow> string" where
  "TrimSuffix s p = (if HasSuffix s p then take (length s - length p) s else s)"

fun Contains :: "string \<Rightarrow> string \<Rightarrow> bool" where
  "Contains [] p = (p = [])"
| "Contains (c # s) p = (HasPrefix (c # s) p \<or> Contains s p)"

definition ContainsAny :: "string \<Rightarrow> string \<Rightarrow> bool" where
  "ContainsAny s chars = list_ex (\<lambda>c. c \<in> set chars) s"

lemma HasPrefix_iff: "HasPrefix s p \<longleftrightarrow> (\<exists>t. s = p @ t)"
  unfolding HasPrefix_def by (metis append_eq_conv_conj append_take_drop_id)

lemma HasPrefix_append [simp]: "HasPrefix (p @ s) p" "HasPrefix s []"
  by (simp_all add: HasPrefix_def)

lemma HasPrefix_Cons [simp]: "HasPrefix (c # s) (d # p) \<longleftrightarrow> c = d \<and> HasPrefix s p" "\<not> HasPrefix [] (d # p)"
  by (auto simp: HasPrefix_def)

lemma TrimPrefix_append [simp]: "TrimPrefix (p @ s) p = s"
  by (simp add: TrimPrefix_def)

lemma HasSuffix_append [simp]: "HasSuffix (s @ p) p"
  by (simp add: HasSuffix_def)

lemma TrimSuffix_append [simp]: "TrimSuffix (s @ p) p = s"
  by (simp add: TrimSuffix_def)

lemma TrimSuffix_length: "length (TrimSuffix s p) \<le> length s"
  by (simp add: TrimSuffix_def)

lemma Contains_single [simp]: "Contains s [c] \<longleftrightarrow> c \<in> set s"
  by (induction s) auto

lemma TrimSpace_id:
  "s \<noteq> [] \<Longrightarrow> \<not> IsSpace (hd s) \<Longrightarrow> \<not> IsSpace (last s) \<Longrightarrow> TrimSpace s = s"
proof -
  assume a: "s \<noteq> []" "\<not> IsSpace (hd s)" "\<not> IsSpace (last s)"
  then have "dropWhile IsSpace s = s" by (cases s) auto
  moreover have "dropWhile IsSpace (rev s) = rev s"
    using a by (cases "rev s") (auto simp: last_rev hd_rev dest: arg_cong [where f = rev])
  ultimately show ?thesis by (simp add: TrimSpace_def)
qed

lemma TrimSpace_set: "set (TrimSpace s) \<subseteq> set s"
  by (auto simp: TrimSpace_def dest!: set_dropWhileD)

section \<open>Split and Join\<close>

text \<open>\<open>strings.Split\<close> with a separator of one character.\<close>

fun Split :: "string \<Rightarrow> char \<Rightarrow> string list" where
  "Split [] sep = [[]]"
| "Split (c # s) sep =
     (case Split s sep of [] \<Rightarrow> [] | x # xs \<Rightarrow> if c = sep then [] # x # xs else (c # x) # xs)"

fun Join :: "string list \<Rightarrow> string \<Rightarrow> string" where
  "Join [] sep = []"
| "Join [x] sep = x"
| "Join (x # y # ys) sep = x @ sep @ Join (y # ys) sep"

lemma Split_nonempty [simp]: "Split s sep \<noteq> []"
  by (induction s) (auto split: list.splits)

lemma Join_Cons: "xs \<noteq> [] \<Longrightarrow> Join (x # xs) sep = x @ sep @ Join xs sep"
  by (cases xs) auto

lemma Join_head: "Join ((c # x) # xs) sep = c # Join (x # xs) sep"
  by (cases xs) auto

lemma Join_Split [simp]: "Join (Split s sep) [sep] = s"
proof (induction s)
  case (Cons c s)
  obtain x xs where "Split s sep = x # xs" by (meson Split_nonempty list.exhaust)
  with Cons show ?case by (simp add: Join_head)
qed simp

lemma Split_pieces: "x \<in> set (Split s sep) \<Longrightarrow> sep \<notin> set x"
proof (induction s arbitrary: x)
  case (Cons c s)
  obtain y ys where "Split s sep = y # ys" by (meson Split_nonempty list.exhaust)
  with Cons show ?case by (auto split: if_splits)
qed simp

lemma Split_append: "sep \<notin> set x \<Longrightarrow> Split (x @ sep # s) sep = x # Split s sep"
  by (induction x) (auto split: list.split dest: Split_nonempty [THEN notE])

lemma Split_single: "sep \<notin> set x \<Longrightarrow> Split x sep = [x]"
  by (induction x) auto

lemma Split_Join:
  "xs \<noteq> [] \<Longrightarrow> \<forall>x \<in> set xs. sep \<notin> set x \<Longrightarrow> Split (Join xs [sep]) sep = xs"
  by (induction xs "[sep]" rule: Join.induct) (auto simp: Split_single Split_append)

section \<open>Paths\<close>

text \<open>
  \<open>path.Clean\<close> goes through the elements of the path with the list of those it keeps (reversed):
  empty elements and dots are dropped, a double dot removes the last kept element.
\<close>

fun clean_elems :: "bool \<Rightarrow> string list \<Rightarrow> string list \<Rightarrow> string list" where
  "clean_elems rooted kept [] = rev kept"
| "clean_elems rooted kept (e # es) =
     (if e = [] \<or> e = ''.'' then clean_elems rooted kept es
      else if e = ''..'' then
        (case kept of
           [] \<Rightarrow> clean_elems rooted (if rooted then [] else [e]) es
         | k # ks \<Rightarrow> clean_elems rooted (if k = ''..'' then e # kept else ks) es)
      else clean_elems rooted (e # kept) es)"

definition Clean :: "string \<Rightarrow> string" where
  "Clean p =
     (let rooted = HasPrefix p ''/'';
          r = (if rooted then ''/'' else []) @ Join (clean_elems rooted [] (Split p CHR ''/'')) ''/''
      in if r = [] then ''.'' else r)"

definition path_Join :: "string list \<Rightarrow> string" where
  "path_Join elems = (case dropWhile (\<lambda>e. e = []) elems of [] \<Rightarrow> [] | es \<Rightarrow> Clean (Join es ''/''))"

lemma Clean_nonempty [simp]: "Clean p \<noteq> []"
  by (simp add: Clean_def Let_def)

lemma path_Join_nonempty: "path_Join (xs @ [e]) \<noteq> [] \<longleftrightarrow> e \<noteq> [] \<or> (\<exists>x \<in> set xs. x \<noteq> [])"
  unfolding path_Join_def by (induction xs) (auto simp del: Join.simps)

lemma clean_elems_plain:
  "\<forall>e \<in> set es. e \<notin> {[], ''.'', ''..''} \<Longrightarrow> clean_elems rooted kept es = rev kept @ es"
  by (induction es arbitrary: kept) auto

text \<open>Clean absolute paths are joined with a plain name by a slash.\<close>

definition plain_name :: "string \<Rightarrow> bool" where
  "plain_name e \<longleftrightarrow> e \<notin> {[], ''.'', ''..''} \<and> CHR ''/'' \<notin> set e"

definition clean_dir :: "string \<Rightarrow> bool" where
  "clean_dir p \<longleftrightarrow> HasPrefix p ''/'' \<and> list_all plain_name (Split (tl p) CHR ''/'')"

lemma Join_snoc: "xs \<noteq> [] \<Longrightarrow> Join (xs @ [x]) sep = Join xs sep @ sep @ x"
  by (induction xs sep rule: Join.induct) auto

lemma path_Join_plain:
  assumes "clean_dir p" and "plain_name e"
  shows "path_Join [p, e] = p @ ''/'' @ e"
proof -
  obtain q where q: "p = CHR ''/'' # q" using assms(1) by (cases p) (auto simp: clean_dir_def)
  let ?es = "Split q CHR ''/'' @ [e]"
  have plain: "\<forall>x \<in> set ?es. x \<notin> {[], ''.'', ''..''}" "\<forall>x \<in> set ?es. CHR ''/'' \<notin> set x"
    using assms q by (auto simp: clean_dir_def plain_name_def list_all_iff)
  have "q @ ''/'' @ e = Join ?es ''/''" by (simp add: Join_snoc)
  then have s: "Split (q @ ''/'' @ e) CHR ''/'' = ?es" using plain(2) by (simp add: Split_Join)
  have "clean_elems True [] ([] # ?es) = ?es" using clean_elems_plain [OF plain(1), of True "[]"] by simp
  moreover have "Split (p @ ''/'' @ e) CHR ''/'' = [] # ?es"
    using Split_append [of "CHR ''/''" "[]" "q @ ''/'' @ e"] s q by (simp del: Split.simps)
  ultimately show ?thesis
    using q by (simp add: path_Join_def Clean_def Let_def Join_snoc del: Split.simps)
qed

end
