(* ===== verification/Config.thy ===== *)
theory Config
  imports Go_Strings
begin

text \<open>
  The configuration of the agent (\<open>internal/types/types.go\<close>) and how it is read
  (\<open>internal/config/config.go\<close>): the structs as records with the prefix \<open>cfg_\<close>, and \<open>Read\<close> with
  the file system and the YAML decoder, a third-party package, as parameters. \<open>Read\<close> returns the
  configuration together with its error, as the code does: after an error the configuration is
  only partly completed.
\<close>

section \<open>Types\<close>

record cfg_Poller =
  po_Period :: int

record cfg_Auth =
  au_AccessToken :: string
  au_AccessTokenPath :: string
  au_SshDeployKeyPath :: string
  au_SshKnownHostsPath :: string
  au_Username :: string

record cfg_Branch =
  cb_Name :: string
  cb_Protected :: bool
  cb_Operation :: string

record cfg_Branches =
  cb_Main :: cfg_Branch
  cb_Testing :: cfg_Branch

record cfg_Remote =
  cr_Name :: string
  cr_URL :: string
  cr_Auth :: cfg_Auth
  cr_Branches :: cfg_Branches
  cr_Timeout :: int
  cr_Poller :: cfg_Poller

record cfg_GitConfig =
  gc_Path :: string
  gc_Dir :: string
  gc_Remotes :: "cfg_Remote list"
  gc_GpgPublicKeyPaths :: "string list"
  gc_SshAllowedSignersPath :: string
  gc_Submodules :: bool

record cfg_HttpServer =
  hs_ListenAddress :: string
  hs_Port :: int

record cfg_Grpc =
  gr_UnixSocketPath :: string

record cfg_Confirmer =
  cc_Mode :: string
  cc_AutoDuration :: int

record cfg_Retention =
  re_DeploymentBootEntryCapacity :: int
  re_DeploymentSuccessfulCapacity :: int
  re_DeploymentAnyCapacity :: int

record Configuration =
  cg_Hostname :: string
  cg_StateDir :: string
  cg_StateFilepath :: string
  cg_RepositoryType :: string
  cg_RepositorySubdir :: string
  cg_Submodules :: bool
  cg_SystemAttr :: string
  cg_Remotes :: "cfg_Remote list"
  cg_ApiServer :: cfg_HttpServer
  cg_Grpc :: cfg_Grpc
  cg_Exporter :: cfg_HttpServer
  cg_GpgPublicKeyPaths :: "string list"
  cg_SshAllowedSignersPath :: string
  cg_PostDeploymentCommand :: string
  cg_BuildConfirmer :: cfg_Confirmer
  cg_DeployConfirmer :: cfg_Confirmer
  cg_Retention :: cfg_Retention
  cg_EvalTimeout :: int
  cg_BuildTimeout :: int

text \<open>The zero value of the struct, which \<open>Read\<close> returns when the file cannot be opened.\<close>

definition Configuration0 :: Configuration where
  "Configuration0 = \<lparr>cg_Hostname = [], cg_StateDir = [], cg_StateFilepath = [], cg_RepositoryType = [],
     cg_RepositorySubdir = [], cg_Submodules = False, cg_SystemAttr = [], cg_Remotes = [],
     cg_ApiServer = \<lparr>hs_ListenAddress = [], hs_Port = 0\<rparr>, cg_Grpc = \<lparr>gr_UnixSocketPath = []\<rparr>,
     cg_Exporter = \<lparr>hs_ListenAddress = [], hs_Port = 0\<rparr>, cg_GpgPublicKeyPaths = [],
     cg_SshAllowedSignersPath = [], cg_PostDeploymentCommand = [],
     cg_BuildConfirmer = \<lparr>cc_Mode = [], cc_AutoDuration = 0\<rparr>,
     cg_DeployConfirmer = \<lparr>cc_Mode = [], cc_AutoDuration = 0\<rparr>,
     cg_Retention = \<lparr>re_DeploymentBootEntryCapacity = 0, re_DeploymentSuccessfulCapacity = 0,
       re_DeploymentAnyCapacity = 0\<rparr>, cg_EvalTimeout = 0, cg_BuildTimeout = 0\<rparr>"

section \<open>Reading\<close>

datatype config_error =
    OpenError string
  | DecodeError string
  | TokenError string
  | RepositoryTypeError string

text \<open>What the files hold: the error of opening a path, the decoded YAML document, and the
  content of a token file.\<close>

record cenv =
  cv_Open :: "string \<Rightarrow> string option"
  cv_Decode :: "string \<Rightarrow> Configuration \<times> string option"
  cv_ReadFile :: "string \<Rightarrow> string + string"

text \<open>The body of the loop over the remotes; \<open>Inl\<close> is the early return.\<close>

definition token_of :: "cenv \<Rightarrow> cfg_Remote \<Rightarrow> config_error + string" where
  "token_of V r =
     (if au_AccessTokenPath (cr_Auth r) \<noteq> []
      then case cv_ReadFile V (au_AccessTokenPath (cr_Auth r)) of
             Inl e \<Rightarrow> Inl (TokenError e)
           | Inr content \<Rightarrow> Inr (TrimSpace content)
      else Inr (au_AccessToken (cr_Auth r)))"

definition or_default :: "'a \<Rightarrow> 'a \<Rightarrow> 'a \<Rightarrow> 'a" where
  "or_default zero d v = (if v = zero then d else v)"

definition complete_remote :: "string \<Rightarrow> cfg_Remote \<Rightarrow> cfg_Remote" where
  "complete_remote token r =
     (let auth = cr_Auth r; bs = cr_Branches r in
      r\<lparr>cr_Auth := auth\<lparr>au_AccessToken := token,
                         au_Username := or_default [] ''comin'' (au_Username auth)\<rparr>,
        cr_Timeout := or_default 0 300 (cr_Timeout r),
        cr_Branches := bs
          \<lparr>cb_Main := (cb_Main bs)\<lparr>cb_Operation := or_default [] ''switch'' (cb_Operation (cb_Main bs))\<rparr>,
           cb_Testing := (cb_Testing bs)
             \<lparr>cb_Operation := or_default [] ''test'' (cb_Operation (cb_Testing bs))\<rparr>\<rparr>\<rparr>)"

fun complete_remotes :: "cenv \<Rightarrow> cfg_Remote list \<Rightarrow> cfg_Remote list \<times> config_error option" where
  "complete_remotes V [] = ([], None)"
| "complete_remotes V (r # rs) =
     (case token_of V r of
        Inl e \<Rightarrow> (r # rs, Some e)
      | Inr token \<Rightarrow>
          (let (rs', err) = complete_remotes V rs in (complete_remote token r # rs', err)))"

definition complete_server :: "string \<Rightarrow> int \<Rightarrow> cfg_HttpServer \<Rightarrow> cfg_HttpServer" where
  "complete_server address port h =
     \<lparr>hs_ListenAddress = or_default [] address (hs_ListenAddress h), hs_Port = or_default 0 port (hs_Port h)\<rparr>"

definition complete_paths :: "cfg_Remote list \<Rightarrow> Configuration \<Rightarrow> Configuration" where
  "complete_paths rs c = c\<lparr>cg_Remotes := rs,
     cg_ApiServer := complete_server ''127.0.0.1'' 4242 (cg_ApiServer c),
     cg_Exporter := complete_server ''0.0.0.0'' 4243 (cg_Exporter c),
     cg_StateFilepath := or_default [] (path_Join [cg_StateDir c, ''state.json'']) (cg_StateFilepath c),
     cg_RepositorySubdir := or_default [] ''.'' (cg_RepositorySubdir c)\<rparr>"

definition complete_timeouts :: "Configuration \<Rightarrow> Configuration" where
  "complete_timeouts c = c\<lparr>cg_Grpc := \<lparr>gr_UnixSocketPath = or_default []
       (path_Join [cg_StateDir c, ''grpc.sock'']) (gr_UnixSocketPath (cg_Grpc c))\<rparr>,
     cg_EvalTimeout := or_default 0 1800 (cg_EvalTimeout c),
     cg_BuildTimeout := or_default 0 1800 (cg_BuildTimeout c)\<rparr>"

definition Read :: "cenv \<Rightarrow> string \<Rightarrow> Configuration \<times> config_error option" where
  "Read V path =
     (case cv_Open V path of
        Some e \<Rightarrow> (Configuration0, Some (OpenError e))
      | None \<Rightarrow>
          (case cv_Decode V path of
             (c, Some e) \<Rightarrow> (c, Some (DecodeError e))
           | (c, None) \<Rightarrow>
               (case complete_remotes V (cg_Remotes c) of
                  (rs, Some e) \<Rightarrow> (c\<lparr>cg_Remotes := rs\<rparr>, Some e)
                | (rs, None) \<Rightarrow>
                    (if cg_RepositoryType c \<notin> {''flake'', ''nix''}
                     then (complete_paths rs c, Some (RepositoryTypeError (cg_RepositoryType c)))
                     else (complete_timeouts (complete_paths rs c), None)))))"

definition MkGitConfig :: "Configuration \<Rightarrow> cfg_GitConfig" where
  "MkGitConfig c =
     \<lparr>gc_Path = path_Join [cg_StateDir c, ''repository''], gc_Dir = cg_RepositorySubdir c,
      gc_Remotes = cg_Remotes c, gc_GpgPublicKeyPaths = cg_GpgPublicKeyPaths c,
      gc_SshAllowedSignersPath = cg_SshAllowedSignersPath c, gc_Submodules = cg_Submodules c\<rparr>"

section \<open>Completeness of a configuration\<close>

lemma or_default_nonzero: "d \<noteq> zero \<Longrightarrow> or_default zero d v \<noteq> zero"
  by (simp add: or_default_def)

lemma or_default_idem: "or_default zero d (or_default zero d v) = or_default zero d v"
  by (simp add: or_default_def)

text \<open>What the rest of the agent relies on.\<close>

definition remote_complete :: "cfg_Remote \<Rightarrow> bool" where
  "remote_complete r \<longleftrightarrow> au_Username (cr_Auth r) \<noteq> [] \<and> cr_Timeout r \<noteq> 0 \<and>
     cb_Operation (cb_Main (cr_Branches r)) \<noteq> [] \<and> cb_Operation (cb_Testing (cr_Branches r)) \<noteq> []"

definition config_complete :: "Configuration \<Rightarrow> bool" where
  "config_complete c \<longleftrightarrow> list_all remote_complete (cg_Remotes c) \<and>
     hs_ListenAddress (cg_ApiServer c) \<noteq> [] \<and> hs_Port (cg_ApiServer c) \<noteq> 0 \<and>
     hs_ListenAddress (cg_Exporter c) \<noteq> [] \<and> hs_Port (cg_Exporter c) \<noteq> 0 \<and>
     cg_StateFilepath c \<noteq> [] \<and> cg_RepositorySubdir c \<noteq> [] \<and>
     (cg_RepositoryType c = ''flake'' \<or> cg_RepositoryType c = ''nix'') \<and>
     gr_UnixSocketPath (cg_Grpc c) \<noteq> [] \<and> cg_EvalTimeout c \<noteq> 0 \<and> cg_BuildTimeout c \<noteq> 0"

text \<open>The fields of a remote that the user has set are kept.\<close>

definition remote_keeps :: "cfg_Remote \<Rightarrow> cfg_Remote \<Rightarrow> bool" where
  "remote_keeps r r' \<longleftrightarrow> cr_Name r' = cr_Name r \<and> cr_URL r' = cr_URL r \<and>
     cr_Poller r' = cr_Poller r \<and> (cr_Timeout r \<noteq> 0 \<longrightarrow> cr_Timeout r' = cr_Timeout r) \<and>
     cb_Name (cb_Main (cr_Branches r')) = cb_Name (cb_Main (cr_Branches r)) \<and>
     cb_Name (cb_Testing (cr_Branches r')) = cb_Name (cb_Testing (cr_Branches r)) \<and>
     (cb_Operation (cb_Main (cr_Branches r)) \<noteq> [] \<longrightarrow>
        cb_Operation (cb_Main (cr_Branches r')) = cb_Operation (cb_Main (cr_Branches r))) \<and>
     (cb_Operation (cb_Testing (cr_Branches r)) \<noteq> [] \<longrightarrow>
        cb_Operation (cb_Testing (cr_Branches r')) = cb_Operation (cb_Testing (cr_Branches r)))"

lemma complete_remote_ok: "remote_complete (complete_remote t r)" "remote_keeps r (complete_remote t r)"
  by (simp_all add: complete_remote_def remote_complete_def remote_keeps_def Let_def or_default_def)

lemma complete_remotes_ok:
  "complete_remotes V rs = (rs', None) \<Longrightarrow> list_all remote_complete rs' \<and> list_all2 remote_keeps rs rs'"
  by (induction rs arbitrary: rs')
    (auto simp: complete_remote_ok split: sum.splits prod.splits)

lemma complete_server_ok:
  "a \<noteq> [] \<Longrightarrow> p \<noteq> 0 \<Longrightarrow> hs_ListenAddress (complete_server a p h) \<noteq> [] \<and> hs_Port (complete_server a p h) \<noteq> 0"
  by (simp add: complete_server_def or_default_def)

lemma state_path_nonempty: "e \<noteq> [] \<Longrightarrow> path_Join [d, e] \<noteq> []"
  using path_Join_nonempty [of "[d]" e] by simp

lemma Read_ok:
  "Read V path = (c, None) \<longleftrightarrow> cv_Open V path = None \<and>
     (\<exists>c0 rs. cv_Decode V path = (c0, None) \<and> complete_remotes V (cg_Remotes c0) = (rs, None) \<and>
        cg_RepositoryType c0 \<in> {''flake'', ''nix''} \<and> c = complete_timeouts (complete_paths rs c0))"
  unfolding Read_def by (auto split: option.splits prod.splits if_splits)

lemma complete_config_ok:
  "list_all remote_complete rs \<Longrightarrow> cg_RepositoryType c \<in> {''flake'', ''nix''} \<Longrightarrow>
     config_complete (complete_timeouts (complete_paths rs c))"
  unfolding config_complete_def complete_timeouts_def complete_paths_def
  by (auto simp: complete_server_ok or_default_nonzero state_path_nonempty)

lemma complete_config_view [simp]:
  "cg_Remotes (complete_timeouts (complete_paths rs c)) = rs"
  "cg_StateFilepath (complete_timeouts (complete_paths rs c)) =
     or_default [] (path_Join [cg_StateDir c, ''state.json'']) (cg_StateFilepath c)"
  by (simp_all add: complete_timeouts_def complete_paths_def)


definition example_remote :: cfg_Remote where
  "example_remote = \<lparr>cr_Name = ''origin'', cr_URL = ''url'',
     cr_Auth = \<lparr>au_AccessToken = [], au_AccessTokenPath = ''t'', au_SshDeployKeyPath = [],
       au_SshKnownHostsPath = [], au_Username = []\<rparr>,
     cr_Branches = \<lparr>cb_Main = \<lparr>cb_Name = ''main'', cb_Protected = False, cb_Operation = []\<rparr>,
       cb_Testing = \<lparr>cb_Name = ''testing'', cb_Protected = False, cb_Operation = ''boot''\<rparr>\<rparr>,
     cr_Timeout = 0, cr_Poller = \<lparr>po_Period = 60\<rparr>\<rparr>"

definition example_cenv :: cenv where
  "example_cenv = \<lparr>cv_Open = (\<lambda>_. None),
     cv_Decode = (\<lambda>_. (Configuration0\<lparr>cg_StateDir := ''/var/lib/comin'', cg_RepositoryType := ''flake'',
       cg_Remotes := [example_remote]\<rparr>, None)), cv_ReadFile = (\<lambda>_. Inr '' token '')\<rparr>"


end
