(* ===== verification/Signers.thy ===== *)
theory Signers
  imports Go_Strings
begin

text \<open>
  Which commits are trusted (\<open>internal/repository/git.go\<close>): the parser of the SSH allowed signers
  file, the parser of an SSH signature and the verification of a commit by GPG keys and by SSH
  signers. The cryptography and the wire formats (\<open>golang.org/x/crypto/ssh\<close>, \<open>go-git\<close>'s GPG
  verification, PEM and the SHA-2 sums) are the fields of \<open>sigenv\<close>; a public key is an opaque
  value, here a string. Every error of the source is a constructor of \<open>signer_error\<close>.
\<close>

section \<open>Allowed signers\<close>

datatype signer_error =
    MissingField
  | UnsupportedPrincipal string
  | MissingKey
  | UnterminatedQuote
  | UnsupportedOption string
  | DuplicateNamespaces
  | UnsupportedNamespace string
  | KeyError string
  | TrailingData
  | CertificateKey
  | AtLine nat signer_error
  | NoSigners

record ssh_Signature =
  ss_Format :: string
  ss_Blob :: string

record sshSignatureWire =
  sw_Version :: int
  sw_PublicKey :: string
  sw_Namespace :: string
  sw_Reserved :: string
  sw_HashAlgorithm :: string
  sw_Signature :: string

record sshSignedDataWire =
  sd_Namespace :: string
  sd_Reserved :: string
  sd_HashAlgorithm :: string
  sd_Hash :: string

type_synonym ssh_key = string

record sigenv =
  sv_ParseAuthorizedKey :: "string \<Rightarrow> string + (ssh_key \<times> string list \<times> string)"
  sv_isCertificate :: "ssh_key \<Rightarrow> bool"
  sv_Marshal :: "ssh_key \<Rightarrow> string"
  sv_Verify :: "ssh_key \<Rightarrow> string \<Rightarrow> ssh_Signature \<Rightarrow> bool"
  sv_PemDecode :: "string \<Rightarrow> (string \<times> string) option"
  sv_UnmarshalWire :: "string \<Rightarrow> string + sshSignatureWire"
  sv_ParsePublicKey :: "string \<Rightarrow> string option"
  sv_UnmarshalSignature :: "string \<Rightarrow> string + ssh_Signature"
  sv_MarshalSignedData :: "sshSignedDataWire \<Rightarrow> string"
  sv_Sum256 :: "string \<Rightarrow> string"
  sv_Sum512 :: "string \<Rightarrow> string"

record sshAllowedSigner =
  sg_principal :: string
  sg_key :: ssh_key
  sg_namespaces :: "string list"

definition splitFirstField :: "string \<Rightarrow> (string \<times> string) option" where
  "splitFirstField line =
     (case dropWhile (\<lambda>c. \<not> IsSpace c) line of
        [] \<Rightarrow> None
      | rest \<Rightarrow> Some (takeWhile (\<lambda>c. \<not> IsSpace c) line, TrimLeftFunc IsSpace rest))"

text \<open>The loop of \<open>splitSSHToken\<close>; \<open>acc\<close> is the token so far, reversed.\<close>

fun token_scan :: "bool \<Rightarrow> string \<Rightarrow> string \<Rightarrow> signer_error + (string \<times> string)" where
  "token_scan inQuote acc [] = (if inQuote then Inl UnterminatedQuote else Inr (rev acc, []))"
| "token_scan inQuote acc (c # s) =
     (if c = CHR 0x22 then token_scan (\<not> inQuote) (c # acc) s
      else if IsSpace c \<and> \<not> inQuote then Inr (rev acc, TrimLeftFunc IsSpace (c # s))
      else token_scan inQuote (c # acc) s)"

definition splitSSHToken :: "string \<Rightarrow> signer_error + (string \<times> string)" where
  "splitSSHToken s = token_scan False [] s"

definition isSSHPublicKeyType :: "string \<Rightarrow> bool" where
  "isSSHPublicKeyType token \<longleftrightarrow>
     HasPrefix token ''ssh-'' \<or> HasPrefix token ''ecdsa-'' \<or> HasPrefix token ''sk-''"

definition splitSSHAllowedSignersRest :: "string \<Rightarrow> signer_error + (string \<times> string)" where
  "splitSSHAllowedSignersRest rest =
     (case splitSSHToken rest of
        Inl e \<Rightarrow> Inl e
      | Inr (first, remaining) \<Rightarrow>
          if first = [] then Inl MissingKey
          else if isSSHPublicKeyType first then Inr ([], rest)
          else if remaining = [] then Inl MissingKey
          else Inr (first, remaining))"

definition isSupportedSSHPattern :: "string \<Rightarrow> bool" where
  "isSupportedSSHPattern pattern \<longleftrightarrow>
     pattern \<noteq> [] \<and> pattern = TrimSpace pattern \<and>
     (pattern = ''*'' \<or> \<not> ContainsAny pattern [CHR ''*'', CHR ''?'', CHR ''!'', CHR 0x22, CHR 0x27])"

definition sshPrincipalFromPatternList :: "string \<Rightarrow> signer_error + string" where
  "sshPrincipalFromPatternList patternList =
     (let principals = Split patternList CHR '','' in
      case find_first (\<lambda>p. \<not> isSupportedSSHPattern p) principals of
        Some p \<Rightarrow> Inl (UnsupportedPrincipal p)
      | None \<Rightarrow> Inr (hd principals))"

fun option_scan :: "bool \<Rightarrow> string \<Rightarrow> string \<Rightarrow> signer_error + string list" where
  "option_scan inQuote acc [] =
     (if inQuote then Inl UnterminatedQuote
      else if acc = [] then Inl (UnsupportedOption []) else Inr [rev acc])"
| "option_scan inQuote acc (c # s) =
     (if c = CHR 0x22 then option_scan (\<not> inQuote) (c # acc) s
      else if c = CHR '','' \<and> \<not> inQuote then
        (if acc = [] then Inl (UnsupportedOption [])
         else case option_scan inQuote [] s of
                Inl e \<Rightarrow> Inl e
              | Inr tokens \<Rightarrow> Inr (rev acc # tokens))
      else option_scan inQuote (c # acc) s)"

definition splitSSHOptionTokens :: "string \<Rightarrow> signer_error + string list" where
  "splitSSHOptionTokens options = option_scan False [] options"

definition parseSSHOptionValue :: "string \<Rightarrow> signer_error + string" where
  "parseSSHOptionValue value =
     (if \<not> HasPrefix value [CHR 0x22] \<or> \<not> HasSuffix value [CHR 0x22] \<or> Contains value [CHR 0x5C]
      then Inl (UnsupportedNamespace value)
      else Inr (TrimSuffix (TrimPrefix value [CHR 0x22]) [CHR 0x22]))"

fun namespaces_loop :: "bool \<Rightarrow> string list \<Rightarrow> string list \<Rightarrow> signer_error + string list" where
  "namespaces_loop seen namespaces [] = Inr namespaces"
| "namespaces_loop seen namespaces (opt # opts) =
     (if HasPrefix opt ''namespaces='' then
        (if seen then Inl DuplicateNamespaces
         else case parseSSHOptionValue (TrimPrefix opt ''namespaces='') of
                Inl e \<Rightarrow> Inl e
              | Inr value \<Rightarrow>
                  (case find_first (\<lambda>n. \<not> isSupportedSSHPattern n) (Split value CHR '','') of
                     Some n \<Rightarrow> Inl (UnsupportedNamespace n)
                   | None \<Rightarrow> namespaces_loop True (Split value CHR '','') opts))
      else Inl (UnsupportedOption opt))"

definition sshNamespacesFromOptions :: "string \<Rightarrow> signer_error + string list" where
  "sshNamespacesFromOptions options =
     (if options = [] then Inr []
      else case splitSSHOptionTokens options of
             Inl e \<Rightarrow> Inl e
           | Inr tokens \<Rightarrow> namespaces_loop False [] tokens)"

text \<open>The body of the loop over the lines, for a line that is neither empty nor a comment.\<close>

definition parse_line :: "sigenv \<Rightarrow> string \<Rightarrow> signer_error + sshAllowedSigner" where
  "parse_line V line =
     (case splitFirstField line of
        None \<Rightarrow> Inl MissingField
      | Some (principalField, rest) \<Rightarrow>
          (case sshPrincipalFromPatternList principalField of
             Inl e \<Rightarrow> Inl e
           | Inr name \<Rightarrow>
               (case splitSSHAllowedSignersRest rest of
                  Inl e \<Rightarrow> Inl e
                | Inr (options, keyInput) \<Rightarrow>
                    (case sshNamespacesFromOptions options of
                       Inl e \<Rightarrow> Inl e
                     | Inr namespaces \<Rightarrow>
                         (case sv_ParseAuthorizedKey V keyInput of
                            Inl e \<Rightarrow> Inl (KeyError e)
                          | Inr (key, keyOptions, keyRest) \<Rightarrow>
                              if keyOptions \<noteq> [] then Inl (UnsupportedOption (hd keyOptions))
                              else if TrimSpace keyRest \<noteq> [] then Inl TrailingData
                              else if sv_isCertificate V key then Inl CertificateKey
                              else Inr \<lparr>sg_principal = name, sg_key = key,
                                        sg_namespaces = namespaces\<rparr>)))))"

fun parse_lines :: "sigenv \<Rightarrow> nat \<Rightarrow> string list \<Rightarrow> signer_error + sshAllowedSigner list" where
  "parse_lines V n [] = Inr []"
| "parse_lines V n (l # ls) =
     (let line = TrimSpace l in
      if line = [] \<or> HasPrefix line ''#'' then parse_lines V (Suc n) ls
      else case parse_line V line of
             Inl e \<Rightarrow> Inl (AtLine (Suc n) e)
           | Inr signer \<Rightarrow>
               (case parse_lines V (Suc n) ls of
                  Inl e \<Rightarrow> Inl e
                | Inr signers \<Rightarrow> Inr (signer # signers)))"

definition parseSSHAllowedSigners :: "sigenv \<Rightarrow> string \<Rightarrow> signer_error + sshAllowedSigner list" where
  "parseSSHAllowedSigners V allowedSigners =
     (case parse_lines V 0 (Split allowedSigners CHR 0x0A) of
        Inl e \<Rightarrow> Inl e
      | Inr signers \<Rightarrow> if signers = [] then Inl NoSigners else Inr signers)"

definition allowsNamespace :: "sshAllowedSigner \<Rightarrow> string \<Rightarrow> bool" where
  "allowsNamespace s namespace \<longleftrightarrow> sg_namespaces s = [] \<or>
     list_ex (\<lambda>allowed. allowed = namespace \<or> allowed = ''*'') (sg_namespaces s)"

section \<open>Signatures of commits\<close>

text \<open>
  What \<open>go-git\<close> tells of a commit object: its message, its signature, its encoding without the
  signature (or the error of one of the three calls that read it), and the name of the primary
  identity of the entity that a GPG key verifies it for.
\<close>

record commit =
  cm_Message :: string
  cm_PGPSignature :: string
  cm_Encoded :: "string + string"
  cm_Verify :: "string \<Rightarrow> string option"

record sshCommitSignature =
  sc_publicKey :: string
  sc_namespace :: string
  sc_reserved :: string
  sc_hashAlgorithm :: string
  sc_signature :: ssh_Signature

datatype verify_error =
    CommitObjectError string
  | NotSigned
  | NotSignedWithSSH
  | NotAnSSHSignature
  | MissingMagic
  | UnmarshalError string
  | UnsupportedVersion int
  | PublicKeyError string
  | UnsupportedAlgorithm string
  | WrongNamespace string
  | EncodeError string
  | UnsupportedHash string
  | Joined verify_error verify_error

definition parseSSHSignature :: "sigenv \<Rightarrow> string \<Rightarrow> verify_error + sshCommitSignature" where
  "parseSSHSignature V signature =
     (case sv_PemDecode V (TrimSpace signature) of
        None \<Rightarrow> Inl NotAnSSHSignature
      | Some (blockType, bytes) \<Rightarrow>
          if blockType \<noteq> ''SSH SIGNATURE'' then Inl NotAnSSHSignature
          else if \<not> HasPrefix bytes ''SSHSIG'' then Inl MissingMagic
          else case sv_UnmarshalWire V (drop (length ''SSHSIG'') bytes) of
                 Inl e \<Rightarrow> Inl (UnmarshalError e)
               | Inr wire \<Rightarrow>
                   if sw_Version wire \<noteq> 1 then Inl (UnsupportedVersion (sw_Version wire))
                   else case sv_ParsePublicKey V (sw_PublicKey wire) of
                          Some e \<Rightarrow> Inl (PublicKeyError e)
                        | None \<Rightarrow>
                            (case sv_UnmarshalSignature V (sw_Signature wire) of
                               Inl e \<Rightarrow> Inl (UnmarshalError e)
                             | Inr sshSignature \<Rightarrow>
                                 if ss_Format sshSignature = ''ssh-rsa'' \<or> ss_Format sshSignature = ''ssh-dss''
                                 then Inl (UnsupportedAlgorithm (ss_Format sshSignature))
                                 else Inr \<lparr>sc_publicKey = sw_PublicKey wire, sc_namespace = sw_Namespace wire,
                                           sc_reserved = sw_Reserved wire,
                                           sc_hashAlgorithm = sw_HashAlgorithm wire,
                                           sc_signature = sshSignature\<rparr>))"

definition sshSignedData ::
  "sigenv \<Rightarrow> string \<Rightarrow> string \<Rightarrow> string \<Rightarrow> string \<Rightarrow> verify_error + string" where
  "sshSignedData V namespace reserved hashAlgorithm payload =
     (let data = (\<lambda>digest. ''SSHSIG'' @ sv_MarshalSignedData V
            \<lparr>sd_Namespace = namespace, sd_Reserved = reserved, sd_HashAlgorithm = hashAlgorithm,
             sd_Hash = digest\<rparr>)
      in if hashAlgorithm = ''sha256'' then Inr (data (sv_Sum256 V payload))
         else if hashAlgorithm = ''sha512'' then Inr (data (sv_Sum512 V payload))
         else Inl (UnsupportedHash hashAlgorithm))"

text \<open>The test of the loop over the signers.\<close>

definition signer_verifies :: "sigenv \<Rightarrow> sshCommitSignature \<Rightarrow> string \<Rightarrow> sshAllowedSigner \<Rightarrow> bool" where
  "signer_verifies V signature signedData s \<longleftrightarrow> allowsNamespace s (sc_namespace signature) \<and>
     sv_Marshal V (sg_key s) = sc_publicKey signature \<and>
     sv_Verify V (sg_key s) signedData (sc_signature signature)"

definition commitSignedBySSH ::
  "sigenv \<Rightarrow> (string \<Rightarrow> string + commit) \<Rightarrow> string \<Rightarrow> sshAllowedSigner list \<Rightarrow> verify_error + string" where
  "commitSignedBySSH V CommitObject hash signers =
     (case CommitObject hash of
        Inl e \<Rightarrow> Inl (CommitObjectError e)
      | Inr c \<Rightarrow>
          if \<not> HasPrefix (TrimSpace (cm_PGPSignature c)) ''-----BEGIN SSH SIGNATURE-----''
          then Inl NotSignedWithSSH
          else case parseSSHSignature V (cm_PGPSignature c) of
                 Inl e \<Rightarrow> Inl e
               | Inr signature \<Rightarrow>
                   if sc_namespace signature \<noteq> ''git'' then Inl (WrongNamespace (sc_namespace signature))
                   else case cm_Encoded c of
                          Inl e \<Rightarrow> Inl (EncodeError e)
                        | Inr payload \<Rightarrow>
                            (case sshSignedData V (sc_namespace signature) (sc_reserved signature)
                                    (sc_hashAlgorithm signature) payload of
                               Inl e \<Rightarrow> Inl e
                             | Inr signedData \<Rightarrow>
                                 (case find_first (signer_verifies V signature signedData) signers of
                                    None \<Rightarrow> Inl NotSigned
                                  | Some s \<Rightarrow> Inr (sg_principal s))))"

fun first_verified :: "commit \<Rightarrow> string list \<Rightarrow> string option" where
  "first_verified c [] = None"
| "first_verified c (k # ks) = (case cm_Verify c k of None \<Rightarrow> first_verified c ks | Some name \<Rightarrow> Some name)"

definition commitSignedByGPG ::
  "(string \<Rightarrow> string + commit) \<Rightarrow> string \<Rightarrow> string list \<Rightarrow> verify_error + string" where
  "commitSignedByGPG CommitObject hash publicKeys =
     (case CommitObject hash of
        Inl e \<Rightarrow> Inl (CommitObjectError e)
      | Inr c \<Rightarrow> (case first_verified c publicKeys of None \<Rightarrow> Inl NotSigned | Some name \<Rightarrow> Inr name))"

text \<open>\<open>errors.Join\<close> of the error so far, if any.\<close>

fun join_error :: "verify_error option \<Rightarrow> verify_error \<Rightarrow> verify_error" where
  "join_error None e = e"
| "join_error (Some d) e = Joined d e"

definition commitSignedBy ::
  "sigenv \<Rightarrow> (string \<Rightarrow> string + commit) \<Rightarrow> string \<Rightarrow> string list \<Rightarrow> sshAllowedSigner list \<Rightarrow>
     verify_error + string" where
  "commitSignedBy V CommitObject hash gpgPublicKeys sshAllowedSigners =
     (let gpg = (if gpgPublicKeys \<noteq> []
            then Some (commitSignedByGPG CommitObject hash gpgPublicKeys) else None)
      in case gpg of
           Some (Inr name) \<Rightarrow> Inr name
         | _ \<Rightarrow>
             (let verifyErr = (case gpg of Some (Inl e) \<Rightarrow> Some e | _ \<Rightarrow> None)
              in if sshAllowedSigners \<noteq> []
                 then case commitSignedBySSH V CommitObject hash sshAllowedSigners of
                        Inr name \<Rightarrow> Inr name
                      | Inl e \<Rightarrow> Inl (join_error verifyErr e)
                 else case verifyErr of Some e \<Rightarrow> Inl e | None \<Rightarrow> Inl NotSigned))"

end
