(* ===== verification/Signers_Correct.thy ===== *)
theory Signers_Correct
  imports Signers
begin

text \<open>
  Correctness of the allowed signers file and of the verification of commits: a printed file is
  read back, what is read is well formed, and a commit is accepted exactly when it is signed by a
  configured key in the sense of the declarative definition \<open>ssh_signed_by\<close>.
\<close>

section \<open>Scanning tokens\<close>

lemma not_space [simp]: "\<not> IsSpace CHR 0x22" "\<not> IsSpace CHR '',''" "IsSpace CHR '' ''" "IsSpace CHR 0x0A"
  by (simp_all add: IsSpace_def)

lemma token_scan_push:
  "CHR 0x22 \<notin> set x \<Longrightarrow> q \<or> list_all (\<lambda>c. \<not> IsSpace c) x \<Longrightarrow>
     token_scan q acc (x @ s) = token_scan q (rev x @ acc) s"
  by (induction x arbitrary: acc) auto

lemma token_scan_plain:
  "CHR 0x22 \<notin> set s \<Longrightarrow> token_scan False acc s =
     Inr (rev acc @ takeWhile (\<lambda>c. \<not> IsSpace c) s, TrimLeftFunc IsSpace (dropWhile (\<lambda>c. \<not> IsSpace c) s))"
  by (induction s arbitrary: acc) (auto simp: TrimLeftFunc_def)

lemma option_scan_push:
  "CHR 0x22 \<notin> set x \<Longrightarrow> q \<or> CHR '','' \<notin> set x \<Longrightarrow> option_scan q acc (x @ s) = option_scan q (rev x @ acc) s"
  by (induction x arbitrary: acc) auto

lemma splitFirstField_append:
  assumes "list_all (\<lambda>c. \<not> IsSpace c) x" and "s \<noteq> []" and "\<not> IsSpace (hd s)"
  shows "splitFirstField (x @ '' '' @ s) = Some (x, s)"
proof -
  have "dropWhile IsSpace s = s" using assms(2,3) by (cases s) auto
  moreover have "dropWhile (\<lambda>c. \<not> IsSpace c) (x @ '' '' @ s) = '' '' @ s"
    "takeWhile (\<lambda>c. \<not> IsSpace c) (x @ '' '' @ s) = x"
    using assms(1) by (simp_all add: list_all_iff dropWhile_append2 takeWhile_append2)
  ultimately show ?thesis by (simp add: splitFirstField_def TrimLeftFunc_def)
qed

section \<open>Printing and reading allowed signers\<close>

definition format_signer :: "(ssh_key \<Rightarrow> string) \<Rightarrow> sshAllowedSigner \<Rightarrow> string" where
  "format_signer print_key s = sg_principal s @ '' '' @
     (if sg_namespaces s = [] then []
      else ''namespaces='' @ [CHR 0x22] @ Join (sg_namespaces s) '','' @ [CHR 0x22] @ '' '') @
     print_key (sg_key s)"

definition format_signers :: "(ssh_key \<Rightarrow> string) \<Rightarrow> sshAllowedSigner list \<Rightarrow> string" where
  "format_signers print_key signers = Join (map (format_signer print_key) signers) [CHR 0x0A]"

text \<open>A name the file can hold: no space, no separator, no quote, none of the pattern characters.\<close>

definition plain_pattern :: "string \<Rightarrow> bool" where
  "plain_pattern p \<longleftrightarrow> p \<noteq> [] \<and> list_all (\<lambda>c. \<not> IsSpace c \<and> c \<notin> {CHR '','', CHR 0x5C, CHR 0x22, CHR 0x27,
     CHR ''*'', CHR ''?'', CHR ''!''}) p"

definition printable_key :: "sigenv \<Rightarrow> (ssh_key \<Rightarrow> string) \<Rightarrow> ssh_key \<Rightarrow> bool" where
  "printable_key V print_key k \<longleftrightarrow>
     sv_ParseAuthorizedKey V (print_key k) = Inr (k, [], []) \<and> \<not> sv_isCertificate V k \<and>
     HasPrefix (print_key k) ''ssh-'' \<and> CHR 0x22 \<notin> set (print_key k) \<and> CHR 0x0A \<notin> set (print_key k) \<and>
     \<not> IsSpace (last (print_key k))"

definition printable_signer :: "sigenv \<Rightarrow> (ssh_key \<Rightarrow> string) \<Rightarrow> sshAllowedSigner \<Rightarrow> bool" where
  "printable_signer V print_key s \<longleftrightarrow> plain_pattern (sg_principal s) \<and> hd (sg_principal s) \<noteq> CHR ''#'' \<and>
     list_all plain_pattern (sg_namespaces s) \<and> printable_key V print_key (sg_key s)"

lemma plain_pattern_supported:
  assumes "plain_pattern p"
  shows "isSupportedSSHPattern p"
proof -
  have ne: "p \<noteq> []" and all: "c \<in> set p \<Longrightarrow> \<not> IsSpace c \<and> c \<notin> {CHR ''*'', CHR ''?'', CHR ''!'', CHR 0x22, CHR 0x27}" for c
    using assms by (simp_all add: plain_pattern_def list_all_iff)
  have "TrimSpace p = p" using ne all [of "hd p"] all [of "last p"] by (intro TrimSpace_id) simp_all
  moreover have "\<not> ContainsAny p [CHR ''*'', CHR ''?'', CHR ''!'', CHR 0x22, CHR 0x27]"
    unfolding ContainsAny_def list_ex_iff using all by fastforce
  ultimately show ?thesis using ne by (simp add: isSupportedSSHPattern_def)
qed

lemma plain_pattern_chars:
  "plain_pattern p \<Longrightarrow> CHR '','' \<notin> set p \<and> CHR 0x22 \<notin> set p \<and> CHR 0x5C \<notin> set p \<and> CHR 0x0A \<notin> set p \<and>
     list_all (\<lambda>c. \<not> IsSpace c) p"
  unfolding plain_pattern_def list_all_iff by (auto simp: IsSpace_def)

lemma principal_plain: "plain_pattern p \<Longrightarrow> sshPrincipalFromPatternList p = Inr p"
  using plain_pattern_chars [of p] plain_pattern_supported [of p]
  by (simp add: sshPrincipalFromPatternList_def Split_single)

lemma set_Join: "set (Join xs sep) \<subseteq> (\<Union>x \<in> set xs. set x) \<union> set sep"
  by (induction xs sep rule: Join.induct) auto

lemma namespaces_chars:
  assumes "list_all plain_pattern ns"
  shows "CHR 0x22 \<notin> set (Join ns '','')" "CHR 0x5C \<notin> set (Join ns '','')" "CHR 0x0A \<notin> set (Join ns '','')"
    "list_all (\<lambda>c. \<not> IsSpace c) (Join ns '','')"
  using assms set_Join [of ns "'',''"] plain_pattern_chars by (fastforce simp: list_all_iff)+

lemma namespaces_read:
  assumes "list_all plain_pattern ns" and "ns \<noteq> []"
  shows "sshNamespacesFromOptions (''namespaces='' @ [CHR 0x22] @ Join ns '','' @ [CHR 0x22]) = Inr ns"
proof -
  let ?v = "Join ns '',''" and ?q = "[CHR 0x22]"
  have ch: "CHR 0x22 \<notin> set ?v" "CHR 0x5C \<notin> set ?v"
    using namespaces_chars [OF assms(1)] by auto
  have "option_scan True acc (?v @ ?q) = option_scan True (rev ?v @ acc) ?q" for acc
    using ch(1) by (rule option_scan_push) simp
  then have "splitSSHOptionTokens (''namespaces='' @ ?q @ ?v @ ?q) = Inr [''namespaces='' @ ?q @ ?v @ ?q]"
    by (simp add: splitSSHOptionTokens_def)
  moreover have "parseSSHOptionValue (?q @ ?v @ ?q) = Inr ?v"
  proof -
    have "HasSuffix (?q @ ?v @ ?q) ?q" using HasSuffix_append [of "?q @ ?v" ?q] by simp
    moreover have "TrimPrefix (?q @ ?v @ ?q) ?q = ?v @ ?q" by (rule TrimPrefix_append)
    moreover have "TrimSuffix (?v @ ?q) ?q = ?v" by (rule TrimSuffix_append)
    ultimately show ?thesis unfolding parseSSHOptionValue_def using ch by simp
  qed
  moreover have "TrimPrefix (''namespaces='' @ ?q @ ?v @ ?q) ''namespaces='' = ?q @ ?v @ ?q"
    by (rule TrimPrefix_append)
  moreover have sp: "Split ?v CHR '','' = ns"
    by (rule Split_Join) (use assms plain_pattern_chars in \<open>auto simp: list_all_iff\<close>)
  moreover have "find_first (\<lambda>n. \<not> isSupportedSSHPattern n) ns = None"
    using assms(1) plain_pattern_supported by (auto simp: find_first_None list_all_iff)
  ultimately show ?thesis
    unfolding sshNamespacesFromOptions_def by simp
qed

lemma printable_keyD:
  assumes "printable_key V K k"
  obtains r where "K k = ''ssh-'' @ r" and "CHR 0x22 \<notin> set (K k)" and "CHR 0x0A \<notin> set (K k)"
    and "sv_ParseAuthorizedKey V (K k) = Inr (k, [], [])" and "\<not> sv_isCertificate V k"
    and "\<not> IsSpace (last (K k))"
  using assms unfolding printable_key_def HasPrefix_iff by blast

lemma key_is_rest:
  assumes "printable_key V K k"
  shows "splitSSHAllowedSignersRest (K k) = Inr ([], K k)"
  using assms
proof (rule printable_keyD)
  fix r assume k: "K k = ''ssh-'' @ r" "CHR 0x22 \<notin> set (K k)"
  have "takeWhile (\<lambda>c. \<not> IsSpace c) (K k) = ''ssh-'' @ takeWhile (\<lambda>c. \<not> IsSpace c) r"
    unfolding k(1) by (simp add: IsSpace_def)
  moreover have "isSSHPublicKeyType (''ssh-'' @ x)" for x by (simp add: isSSHPublicKeyType_def)
  ultimately show ?thesis
    unfolding splitSSHAllowedSignersRest_def splitSSHToken_def token_scan_plain [OF k(2)] by simp
qed

lemma options_are_first:
  assumes "CHR 0x22 \<notin> set v" and "x \<noteq> []" and "\<not> IsSpace (hd x)"
  shows "splitSSHAllowedSignersRest (''namespaces='' @ [CHR 0x22] @ v @ [CHR 0x22] @ '' '' @ x) =
    Inr (''namespaces='' @ [CHR 0x22] @ v @ [CHR 0x22], x)"
proof -
  have "token_scan True acc (v @ s) = token_scan True (rev v @ acc) s" for acc s
    using assms(1) by (rule token_scan_push) simp
  moreover have "dropWhile IsSpace x = x" using assms(2,3) by (cases x) auto
  ultimately have "splitSSHToken (''namespaces='' @ [CHR 0x22] @ v @ [CHR 0x22] @ '' '' @ x) =
      Inr (''namespaces='' @ [CHR 0x22] @ v @ [CHR 0x22], x)"
    unfolding splitSSHToken_def by (simp add: TrimLeftFunc_def IsSpace_def)
  then show ?thesis
    unfolding splitSSHAllowedSignersRest_def using assms(2) by (simp add: isSSHPublicKeyType_def)
qed

lemma key_head: "printable_key V K k \<Longrightarrow> K k \<noteq> [] \<and> hd (K k) = CHR ''s''"
  by (auto elim: printable_keyD)

lemma parse_line_format:
  assumes "printable_signer V K s"
  shows "parse_line V (format_signer K s) = Inr s"
proof -
  have key: "printable_key V K (sg_key s)" and pp: "plain_pattern (sg_principal s)"
    and ns: "list_all plain_pattern (sg_namespaces s)"
    using assms by (simp_all add: printable_signer_def)
  let ?k = "K (sg_key s)"
  let ?opts = "if sg_namespaces s = [] then []
     else ''namespaces='' @ [CHR 0x22] @ Join (sg_namespaces s) '','' @ [CHR 0x22]"
  let ?rest = "if sg_namespaces s = [] then ?k
     else ''namespaces='' @ [CHR 0x22] @ Join (sg_namespaces s) '','' @ [CHR 0x22] @ '' '' @ ?k"
  have sp: "\<not> IsSpace (CHR ''s'')" "\<not> IsSpace (CHR ''n'')" by (simp_all add: IsSpace_def)
  have eq: "format_signer K s = sg_principal s @ '' '' @ ?rest" by (simp add: format_signer_def)
  have "?rest \<noteq> []" "\<not> IsSpace (hd ?rest)" using key_head [OF key] sp by simp_all
  then have first: "splitFirstField (format_signer K s) = Some (sg_principal s, ?rest)"
    unfolding eq using plain_pattern_chars [OF pp] by (intro splitFirstField_append) blast
  have split: "splitSSHAllowedSignersRest ?rest = Inr (?opts, ?k)"
  proof (cases "sg_namespaces s = []")
    case True
    with key_is_rest [OF key] show ?thesis by simp
  next
    case False
    have "splitSSHAllowedSignersRest
        (''namespaces='' @ [CHR 0x22] @ Join (sg_namespaces s) '','' @ [CHR 0x22] @ '' '' @ ?k) =
        Inr (''namespaces='' @ [CHR 0x22] @ Join (sg_namespaces s) '','' @ [CHR 0x22], ?k)"
      using namespaces_chars(1) [OF ns] key_head [OF key] sp by (intro options_are_first) simp_all
    then show ?thesis unfolding if_not_P [OF False] .
  qed
  have "sshNamespacesFromOptions ?opts = Inr (sg_namespaces s)"
    using namespaces_read [OF ns] by (simp add: sshNamespacesFromOptions_def)
  moreover have "sv_ParseAuthorizedKey V ?k = Inr (sg_key s, [], [])" "\<not> sv_isCertificate V (sg_key s)"
    using key by (simp_all add: printable_key_def)
  ultimately show ?thesis
    unfolding parse_line_def first split principal_plain [OF pp] option.case sum.case prod.case
    by (simp add: TrimSpace_def)
qed

lemma format_signer_line:
  assumes "printable_signer V K s"
  shows "TrimSpace (format_signer K s) = format_signer K s" "format_signer K s \<noteq> []"
    "\<not> HasPrefix (format_signer K s) ''#''" "CHR 0x0A \<notin> set (format_signer K s)"
proof -
  have key: "printable_key V K (sg_key s)" and pp: "plain_pattern (sg_principal s)" and h: "hd (sg_principal s) \<noteq> CHR ''#''"
    and ns: "list_all plain_pattern (sg_namespaces s)"
    using assms by (simp_all add: printable_signer_def)
  obtain c x where p: "sg_principal s = c # x" using pp by (cases "sg_principal s") (auto simp: plain_pattern_def)
  have "\<not> IsSpace c" using plain_pattern_chars [OF pp] p by simp
  moreover have "last (format_signer K s) = last (K (sg_key s))" "hd (format_signer K s) = c"
    using key_head [OF key] p by (simp_all add: format_signer_def)
  ultimately show "TrimSpace (format_signer K s) = format_signer K s"
    using key p by (intro TrimSpace_id) (simp_all add: printable_key_def format_signer_def)
  show "format_signer K s \<noteq> []" "\<not> HasPrefix (format_signer K s) ''#''"
    using h p by (simp_all add: format_signer_def)
  show "CHR 0x0A \<notin> set (format_signer K s)"
    using plain_pattern_chars [OF pp] namespaces_chars(3) [OF ns] key
    by (simp add: format_signer_def printable_key_def)
qed

lemma parse_lines_format:
  "list_all (printable_signer V K) ss \<Longrightarrow> parse_lines V n (map (format_signer K) ss) = Inr ss"
  by (induction ss arbitrary: n) (simp_all add: Let_def format_signer_line [of V] parse_line_format)

text \<open>
  Property C31. An allowed signers file that is printed from a list of signers is read back to exactly
  these signers, in order, with their principals, keys and namespaces, provided the names hold no
  separator or pattern characters and the key parser reads a printed key back.
\<close>

theorem allowed_signers_roundtrip:
  assumes "list_all (printable_signer V print_key) signers" and "signers \<noteq> []"
  shows "parseSSHAllowedSigners V (format_signers print_key signers) = Inr signers"
proof -
  have "Split (format_signers print_key signers) CHR 0x0A = map (format_signer print_key) signers"
    unfolding format_signers_def
    by (rule Split_Join) (use assms format_signer_line(4) in \<open>auto simp: list_all_iff\<close>)
  with assms show ?thesis by (simp add: parseSSHAllowedSigners_def parse_lines_format)
qed

definition example_sigenv :: sigenv where
  "example_sigenv = \<lparr>sv_ParseAuthorizedKey = (\<lambda>k. Inr (k, [], [])), sv_isCertificate = (\<lambda>_. False),
     sv_Marshal = (\<lambda>k. k), sv_Verify = (\<lambda>_ _ _. True), sv_PemDecode = (\<lambda>s. Some (''SSH SIGNATURE'', ''SSHSIG'')),
     sv_UnmarshalWire = (\<lambda>_. Inr \<lparr>sw_Version = 1, sw_PublicKey = ''ssh-ed25519 A'', sw_Namespace = ''git'',
       sw_Reserved = [], sw_HashAlgorithm = ''sha512'', sw_Signature = []\<rparr>),
     sv_ParsePublicKey = (\<lambda>_. None), sv_UnmarshalSignature = (\<lambda>_. Inr \<lparr>ss_Format = ''ssh-ed25519'', ss_Blob = []\<rparr>),
     sv_MarshalSignedData = (\<lambda>d. sd_Hash d), sv_Sum256 = (\<lambda>p. p), sv_Sum512 = (\<lambda>p. p)\<rparr>"

definition example_signer :: sshAllowedSigner where
  "example_signer = \<lparr>sg_principal = ''me@host'', sg_key = ''ssh-ed25519 A'', sg_namespaces = [''git'', ''file'']\<rparr>"

theorem allowed_signers_roundtrip_witness:
  "parseSSHAllowedSigners example_sigenv (format_signers (\<lambda>k. k) [example_signer]) = Inr [example_signer]"
proof -
  have "printable_signer example_sigenv (\<lambda>k. k) example_signer"
    by (simp add: printable_signer_def example_signer_def plain_pattern_def printable_key_def
        example_sigenv_def IsSpace_def)
  then show ?thesis by (intro allowed_signers_roundtrip) simp_all
qed

section \<open>What is read is well formed\<close>

definition signer_wf :: "sshAllowedSigner \<Rightarrow> bool" where
  "signer_wf s \<longleftrightarrow> isSupportedSSHPattern (sg_principal s) \<and> list_all isSupportedSSHPattern (sg_namespaces s)"

lemma namespaces_loop_wf:
  "namespaces_loop seen ns opts = Inr ns' \<Longrightarrow> list_all isSupportedSSHPattern ns \<Longrightarrow>
     list_all isSupportedSSHPattern ns'"
  by (induction opts arbitrary: seen ns)
    (auto simp: find_first_None list_all_iff split: if_splits sum.splits option.splits)

lemma sshNamespacesFromOptions_wf:
  "sshNamespacesFromOptions opts = Inr ns \<Longrightarrow> list_all isSupportedSSHPattern ns"
  unfolding sshNamespacesFromOptions_def
  by (auto split: if_splits sum.splits dest: namespaces_loop_wf)

lemma sshPrincipalFromPatternList_wf:
  "sshPrincipalFromPatternList l = Inr p \<Longrightarrow> isSupportedSSHPattern p"
  unfolding sshPrincipalFromPatternList_def Let_def
  by (auto simp: find_first_None split: option.splits)

lemma parse_line_wf: "parse_line V l = Inr s \<Longrightarrow> signer_wf s \<and> \<not> sv_isCertificate V (sg_key s)"
  unfolding parse_line_def signer_wf_def
  by (auto split: option.splits sum.splits prod.splits if_splits
      dest: sshPrincipalFromPatternList_wf sshNamespacesFromOptions_wf)

lemma parse_lines_wf:
  "parse_lines V n ls = Inr ss \<Longrightarrow> list_all (\<lambda>s. signer_wf s \<and> \<not> sv_isCertificate V (sg_key s)) ss"
  by (induction ls arbitrary: n ss)
    (auto simp: Let_def parse_line_wf split: if_splits sum.splits)

text \<open>
  Whatever the text, an allowed signers file that is accepted gives at least one signer,
  and every signer has a supported, non-empty principal, only supported namespace patterns and a
  key that is not a certificate.
\<close>

theorem allowed_signers_wf:
  assumes "parseSSHAllowedSigners V txt = Inr signers"
  shows "signers \<noteq> [] \<and> list_all (\<lambda>s. signer_wf s \<and> sg_principal s \<noteq> [] \<and> \<not> sv_isCertificate V (sg_key s)) signers"
proof -
  have "signers \<noteq> []" and "parse_lines V 0 (Split txt CHR 0x0A) = Inr signers"
    using assms by (simp_all add: parseSSHAllowedSigners_def split: sum.splits if_splits)
  with parse_lines_wf [OF this(2)] show ?thesis
    by (auto simp: list_all_iff signer_wf_def isSupportedSSHPattern_def)
qed

theorem allowed_signers_wf_witness:
  "list_all (\<lambda>s. signer_wf s \<and> sg_principal s \<noteq> [] \<and> \<not> sv_isCertificate example_sigenv (sg_key s)) [example_signer]"
proof -
  have "printable_signer example_sigenv (\<lambda>k. k) example_signer"
    by (simp add: printable_signer_def example_signer_def plain_pattern_def printable_key_def
        example_sigenv_def IsSpace_def)
  then have "parse_lines example_sigenv 0 (map (format_signer (\<lambda>k. k)) [example_signer]) = Inr [example_signer]"
    by (intro parse_lines_format) simp
  moreover from \<open>printable_signer example_sigenv (\<lambda>k. k) example_signer\<close>
  have "Split (format_signer (\<lambda>k. k) example_signer) CHR 0x0A = [format_signer (\<lambda>k. k) example_signer]"
    by (intro Split_single format_signer_line(4))
  ultimately have "parseSSHAllowedSigners example_sigenv (format_signer (\<lambda>k. k) example_signer) = Inr [example_signer]"
    by (simp add: parseSSHAllowedSigners_def)
  from allowed_signers_wf [OF this] show ?thesis by blast
qed

section \<open>Which commits are trusted\<close>

text \<open>A commit signed by an allowed signer, without reference to the order of the checks.\<close>

definition ssh_signed_by :: "sigenv \<Rightarrow> commit \<Rightarrow> sshAllowedSigner \<Rightarrow> bool" where
  "ssh_signed_by V c s \<longleftrightarrow> (\<exists>bytes wire sig payload digest.
     HasPrefix (TrimSpace (cm_PGPSignature c)) ''-----BEGIN SSH SIGNATURE-----'' \<and>
     sv_PemDecode V (TrimSpace (cm_PGPSignature c)) = Some (''SSH SIGNATURE'', ''SSHSIG'' @ bytes) \<and>
     sv_UnmarshalWire V bytes = Inr wire \<and> sw_Version wire = 1 \<and>
     sv_ParsePublicKey V (sw_PublicKey wire) = None \<and> sw_Namespace wire = ''git'' \<and>
     sv_UnmarshalSignature V (sw_Signature wire) = Inr sig \<and> ss_Format sig \<notin> {''ssh-rsa'', ''ssh-dss''} \<and>
     cm_Encoded c = Inr payload \<and>
     (sw_HashAlgorithm wire = ''sha256'' \<and> digest = sv_Sum256 V payload \<or>
      sw_HashAlgorithm wire = ''sha512'' \<and> digest = sv_Sum512 V payload) \<and>
     (sg_namespaces s = [] \<or> ''git'' \<in> set (sg_namespaces s) \<or> ''*'' \<in> set (sg_namespaces s)) \<and>
     sv_Marshal V (sg_key s) = sw_PublicKey wire \<and>
     sv_Verify V (sg_key s) (''SSHSIG'' @ sv_MarshalSignedData V \<lparr>sd_Namespace = ''git'',
        sd_Reserved = sw_Reserved wire, sd_HashAlgorithm = sw_HashAlgorithm wire, sd_Hash = digest\<rparr>) sig)"

lemma allowsNamespace_iff:
  "allowsNamespace s n \<longleftrightarrow> sg_namespaces s = [] \<or> n \<in> set (sg_namespaces s) \<or> ''*'' \<in> set (sg_namespaces s)"
  by (auto simp: allowsNamespace_def list_ex_iff)

lemma parseSSHSignature_iff:
  "parseSSHSignature V s = Inr x \<longleftrightarrow> (\<exists>bytes wire sig.
     sv_PemDecode V (TrimSpace s) = Some (''SSH SIGNATURE'', ''SSHSIG'' @ bytes) \<and>
     sv_UnmarshalWire V bytes = Inr wire \<and> sw_Version wire = 1 \<and>
     sv_ParsePublicKey V (sw_PublicKey wire) = None \<and>
     sv_UnmarshalSignature V (sw_Signature wire) = Inr sig \<and> ss_Format sig \<notin> {''ssh-rsa'', ''ssh-dss''} \<and>
     x = \<lparr>sc_publicKey = sw_PublicKey wire, sc_namespace = sw_Namespace wire, sc_reserved = sw_Reserved wire,
          sc_hashAlgorithm = sw_HashAlgorithm wire, sc_signature = sig\<rparr>)"
  (is "?l \<longleftrightarrow> ?r")
proof
  assume l: ?l
  then obtain bytes where pem: "sv_PemDecode V (TrimSpace s) = Some (''SSH SIGNATURE'', bytes)"
    and pre: "HasPrefix bytes ''SSHSIG''"
    unfolding parseSSHSignature_def by (auto split: option.splits if_splits)
  from pre obtain t where t: "bytes = ''SSHSIG'' @ t" unfolding HasPrefix_iff by blast
  with pem have "sv_PemDecode V (TrimSpace s) = Some (''SSH SIGNATURE'', ''SSHSIG'' @ t)" by simp
  moreover from l this obtain wire where wire: "sv_UnmarshalWire V t = Inr wire"
    unfolding parseSSHSignature_def by (auto split: sum.splits)
  moreover from l calculation obtain sig where "sv_UnmarshalSignature V (sw_Signature wire) = Inr sig"
    unfolding parseSSHSignature_def by (auto split: sum.splits option.splits if_splits)
  moreover from l calculation have "sw_Version wire = 1" "sv_ParsePublicKey V (sw_PublicKey wire) = None"
    "ss_Format sig \<notin> {''ssh-rsa'', ''ssh-dss''}"
    "x = \<lparr>sc_publicKey = sw_PublicKey wire, sc_namespace = sw_Namespace wire, sc_reserved = sw_Reserved wire,
          sc_hashAlgorithm = sw_HashAlgorithm wire, sc_signature = sig\<rparr>"
    unfolding parseSSHSignature_def by (auto split: option.splits if_splits)
  ultimately show ?r by blast
next
  assume ?r
  then obtain bytes wire sig where
    "sv_PemDecode V (TrimSpace s) = Some (''SSH SIGNATURE'', ''SSHSIG'' @ bytes)"
    "sv_UnmarshalWire V bytes = Inr wire" "sw_Version wire = 1"
    "sv_ParsePublicKey V (sw_PublicKey wire) = None"
    "sv_UnmarshalSignature V (sw_Signature wire) = Inr sig" "ss_Format sig \<notin> {''ssh-rsa'', ''ssh-dss''}"
    "x = \<lparr>sc_publicKey = sw_PublicKey wire, sc_namespace = sw_Namespace wire, sc_reserved = sw_Reserved wire,
          sc_hashAlgorithm = sw_HashAlgorithm wire, sc_signature = sig\<rparr>"
    by blast
  then show ?l by (simp add: parseSSHSignature_def)
qed

lemma sshSignedData_iff:
  "sshSignedData V n r h payload = Inr d \<longleftrightarrow> (\<exists>digest.
     (h = ''sha256'' \<and> digest = sv_Sum256 V payload \<or> h = ''sha512'' \<and> digest = sv_Sum512 V payload) \<and>
     d = ''SSHSIG'' @ sv_MarshalSignedData V
       \<lparr>sd_Namespace = n, sd_Reserved = r, sd_HashAlgorithm = h, sd_Hash = digest\<rparr>)"
  unfolding sshSignedData_def by (auto simp: Let_def)

text \<open>The checks before the loop over the signers.\<close>

definition ssh_checked :: "sigenv \<Rightarrow> commit \<Rightarrow> sshCommitSignature \<Rightarrow> string \<Rightarrow> bool" where
  "ssh_checked V c sig d \<longleftrightarrow> HasPrefix (TrimSpace (cm_PGPSignature c)) ''-----BEGIN SSH SIGNATURE-----'' \<and>
     parseSSHSignature V (cm_PGPSignature c) = Inr sig \<and> sc_namespace sig = ''git'' \<and>
     (\<exists>payload. cm_Encoded c = Inr payload \<and>
        sshSignedData V ''git'' (sc_reserved sig) (sc_hashAlgorithm sig) payload = Inr d)"

lemma ssh_signed_by_checked: "ssh_signed_by V c s \<longleftrightarrow> (\<exists>sig d. ssh_checked V c sig d \<and> signer_verifies V sig d s)"
  (is "_ \<longleftrightarrow> ?r")
proof
  assume "ssh_signed_by V c s"
  then obtain bytes wire sig payload digest where a:
     "HasPrefix (TrimSpace (cm_PGPSignature c)) ''-----BEGIN SSH SIGNATURE-----''"
     "sv_PemDecode V (TrimSpace (cm_PGPSignature c)) = Some (''SSH SIGNATURE'', ''SSHSIG'' @ bytes)"
     "sv_UnmarshalWire V bytes = Inr wire" "sw_Version wire = 1"
     "sv_ParsePublicKey V (sw_PublicKey wire) = None" "sw_Namespace wire = ''git''"
     "sv_UnmarshalSignature V (sw_Signature wire) = Inr sig" "ss_Format sig \<notin> {''ssh-rsa'', ''ssh-dss''}"
     "cm_Encoded c = Inr payload"
     "sw_HashAlgorithm wire = ''sha256'' \<and> digest = sv_Sum256 V payload \<or>
      sw_HashAlgorithm wire = ''sha512'' \<and> digest = sv_Sum512 V payload"
     "allowsNamespace s ''git''" "sv_Marshal V (sg_key s) = sw_PublicKey wire"
     "sv_Verify V (sg_key s) (''SSHSIG'' @ sv_MarshalSignedData V \<lparr>sd_Namespace = ''git'',
        sd_Reserved = sw_Reserved wire, sd_HashAlgorithm = sw_HashAlgorithm wire, sd_Hash = digest\<rparr>) sig"
    unfolding ssh_signed_by_def allowsNamespace_iff [symmetric] by blast
  let ?sig = "\<lparr>sc_publicKey = sw_PublicKey wire, sc_namespace = sw_Namespace wire, sc_reserved = sw_Reserved wire,
          sc_hashAlgorithm = sw_HashAlgorithm wire, sc_signature = sig\<rparr>"
  have "parseSSHSignature V (cm_PGPSignature c) = Inr ?sig"
    unfolding parseSSHSignature_iff using a(2-5,7,8) by blast
  with a(1,6,9,10) have "ssh_checked V c ?sig (''SSHSIG'' @ sv_MarshalSignedData V \<lparr>sd_Namespace = ''git'',
        sd_Reserved = sw_Reserved wire, sd_HashAlgorithm = sw_HashAlgorithm wire, sd_Hash = digest\<rparr>)"
    by (simp add: ssh_checked_def sshSignedData_iff) blast
  then show ?r using a(6,11-13) by (force simp: signer_verifies_def)
next
  assume ?r
  then show "ssh_signed_by V c s"
    unfolding ssh_checked_def parseSSHSignature_iff sshSignedData_iff signer_verifies_def ssh_signed_by_def
      allowsNamespace_iff
    by fastforce
qed

lemma ssh_checked_unique: "ssh_checked V c x d \<Longrightarrow> ssh_checked V c y e \<Longrightarrow> x = y \<and> d = e"
  unfolding ssh_checked_def by auto

lemma commitSignedBySSH_iff:
  "commitSignedBySSH V CO h ss = Inr name \<longleftrightarrow> (\<exists>c sig d s. CO h = Inr c \<and> ssh_checked V c sig d \<and>
     find_first (signer_verifies V sig d) ss = Some s \<and> name = sg_principal s)"
  unfolding commitSignedBySSH_def ssh_checked_def
  by (auto split: sum.splits option.splits if_splits)

lemma commitSignedBySSH_trusted:
  "(\<exists>name. commitSignedBySSH V CO h ss = Inr name) \<longleftrightarrow>
     (\<exists>c. CO h = Inr c \<and> (\<exists>s \<in> set ss. ssh_signed_by V c s))"
proof
  assume "\<exists>name. commitSignedBySSH V CO h ss = Inr name"
  then show "\<exists>c. CO h = Inr c \<and> (\<exists>s \<in> set ss. ssh_signed_by V c s)"
    unfolding commitSignedBySSH_iff ssh_signed_by_checked by (blast dest: find_first_Some)
next
  assume "\<exists>c. CO h = Inr c \<and> (\<exists>s \<in> set ss. ssh_signed_by V c s)"
  then show "\<exists>name. commitSignedBySSH V CO h ss = Inr name"
    unfolding commitSignedBySSH_iff ssh_signed_by_checked by (metis find_first_ex)
qed

lemma first_verified_iff: "(\<exists>name. first_verified c ks = Some name) \<longleftrightarrow> (\<exists>k \<in> set ks. cm_Verify c k \<noteq> None)"
  by (induction ks) (auto split: option.splits)

lemma commitSignedByGPG_trusted:
  "(\<exists>name. commitSignedByGPG CO h ks = Inr name) \<longleftrightarrow>
     (\<exists>c. CO h = Inr c \<and> (\<exists>k \<in> set ks. cm_Verify c k \<noteq> None))"
  unfolding commitSignedByGPG_def first_verified_iff [symmetric] by (auto split: sum.splits option.splits)

lemma commitSignedBy_cases:
  "(\<exists>name. commitSignedBy V CO h ks ss = Inr name) \<longleftrightarrow>
     (\<exists>name. ks \<noteq> [] \<and> commitSignedByGPG CO h ks = Inr name) \<or>
     (\<exists>name. ss \<noteq> [] \<and> commitSignedBySSH V CO h ss = Inr name)"
  unfolding commitSignedBy_def by (auto simp: Let_def split: sum.splits option.splits)

lemma commit_trusted:
  "(\<exists>name. commitSignedBy V CO h ks ss = Inr name) \<longleftrightarrow>
     (\<exists>c. CO h = Inr c \<and> ((\<exists>k \<in> set ks. cm_Verify c k \<noteq> None) \<or> (\<exists>s \<in> set ss. ssh_signed_by V c s)))"
  unfolding commitSignedBy_cases using commitSignedByGPG_trusted [of CO h ks]
    commitSignedBySSH_trusted [of V CO h ss]
  by (auto simp: ex_in_conv [symmetric])

text \<open>
  Property C9. A commit is accepted exactly when it can be read and is signed by a configured key: one
  of the GPG keys verifies it, or it carries an SSH signature in the namespace git, not by an
  algorithm based on SHA-1, over the SHA-256 or SHA-512 digest of its payload, that verifies with the
  key of an allowed signer whose namespaces admit git. The order of the keys and of the checks
  does not matter.
\<close>

theorem commit_trusted_iff:
  "(\<exists>name. commitSignedBy V CommitObject hash gpgKeys signers = Inr name) \<longleftrightarrow>
     (\<exists>c. CommitObject hash = Inr c \<and>
        ((\<exists>k \<in> set gpgKeys. cm_Verify c k \<noteq> None) \<or> (\<exists>s \<in> set signers. ssh_signed_by V c s)))"
  by (rule commit_trusted)

end
