(* ===== verification/Metrics.thy ===== *)
theory Metrics
  imports Protobuf
begin

text \<open>
  The metrics (\<open>internal/prometheus/prometheus.go\<close>). A vector of the Prometheus client library is a
  map from its label values to the value, a gauge a number; \<open>metrics_event\<close> is one turn of the loop
  of \<open>Subscribe\<close>. The registration and the HTTP handler are calls of the library and not modelled.
\<close>

type_synonym labels = "string list"

record Prometheus =
  pm_buildInfo :: "labels \<rightharpoonup> int"
  pm_deploymentInfo :: "labels \<rightharpoonup> int"
  pm_fetchCounter :: "labels \<rightharpoonup> int"
  pm_isSuspended :: int
  pm_needToReboot :: int
  pm_lastFetchFailed :: "labels \<rightharpoonup> int"
  pm_lastEvalFailed :: int
  pm_lastBuildFailed :: int
  pm_lastDeploymentFailed :: int

definition prometheus_New :: Prometheus where
  "prometheus_New = \<lparr>pm_buildInfo = Map.empty, pm_deploymentInfo = Map.empty, pm_fetchCounter = Map.empty,
     pm_isSuspended = 0, pm_needToReboot = 0, pm_lastFetchFailed = Map.empty, pm_lastEvalFailed = 0,
     pm_lastBuildFailed = 0, pm_lastDeploymentFailed = 0\<rparr>"

definition boolToFloat64 :: "bool \<Rightarrow> int" where
  "boolToFloat64 b = (if b then 1 else 0)"

definition IncFetchCounter :: "string \<Rightarrow> string \<Rightarrow> Prometheus \<Rightarrow> Prometheus" where
  "IncFetchCounter remoteName status p = p\<lparr>pm_fetchCounter := (pm_fetchCounter p)
     ([remoteName, status] \<mapsto> 1 + (case pm_fetchCounter p [remoteName, status] of None \<Rightarrow> 0 | Some n \<Rightarrow> n))\<rparr>"

definition SetBuildInfo :: "string \<Rightarrow> Prometheus \<Rightarrow> Prometheus" where
  "SetBuildInfo version p = p\<lparr>pm_buildInfo := [[version] \<mapsto> 1]\<rparr>"

definition SetDeploymentInfo :: "string \<Rightarrow> string \<Rightarrow> Prometheus \<Rightarrow> Prometheus" where
  "SetDeploymentInfo commitId status p = p\<lparr>pm_deploymentInfo := [[commitId, status] \<mapsto> 1]\<rparr>"

definition update_remote :: "Remote \<Rightarrow> Prometheus \<Rightarrow> Prometheus" where
  "update_remote r p =
     (let success = GetValue (rm_Fetched r);
          p1 = IncFetchCounter (rm_Name r) (if success then ''succeeded'' else ''failed'') p
      in p1\<lparr>pm_lastFetchFailed := (pm_lastFetchFailed p1)([rm_Name r] \<mapsto> boolToFloat64 (\<not> success))\<rparr>)"

definition updateFetched :: "GitRepositoryStatus option \<Rightarrow> Prometheus \<Rightarrow> Prometheus" where
  "updateFetched status p = fold update_remote (case status of None \<Rightarrow> [] | Some rs \<Rightarrow> rs_Remotes rs)
     (p\<lparr>pm_lastFetchFailed := Map.empty\<rparr>)"

text \<open>The commit id of a source without a Git source is empty: the getter is called on nil.\<close>

definition metrics_commit :: "Deployment \<Rightarrow> string" where
  "metrics_commit d = (case getGitFromGeneration (Some (d_Generation d)) of
     None \<Rightarrow> [] | Some git \<Rightarrow> git_SelectedCommitId git)"

definition metrics_event :: "Event \<Rightarrow> Prometheus \<Rightarrow> Prometheus" where
  "metrics_event e p =
     (case ev_Type e of
        Some (Event_Fetched _ _ status) \<Rightarrow> updateFetched status p
      | Some (Event_EvalFinished g) \<Rightarrow> p\<lparr>pm_lastEvalFailed := boolToFloat64 (g_EvalStatus g = ''failed'')\<rparr>
      | Some (Event_BuildFinished g) \<Rightarrow> p\<lparr>pm_lastBuildFailed := boolToFloat64 (g_BuildStatus g = ''failed'')\<rparr>
      | Some (Event_DeploymentFinished d) \<Rightarrow>
          SetDeploymentInfo (metrics_commit d) (d_Status d)
            (p\<lparr>pm_lastDeploymentFailed := boolToFloat64 (d_Status d = ''failed'')\<rparr>)
      | Some Event_Suspend \<Rightarrow> p\<lparr>pm_isSuspended := boolToFloat64 True\<rparr>
      | Some Event_Resume \<Rightarrow> p\<lparr>pm_isSuspended := boolToFloat64 False\<rparr>
      | Some (Event_RebootRequired _) \<Rightarrow> p\<lparr>pm_needToReboot := boolToFloat64 True\<rparr>
      | _ \<Rightarrow> p)"

section \<open>The gauge of the last fetch\<close>

lemma IncFetchCounter_frame [simp]: "pm_lastFetchFailed (IncFetchCounter n s p) = pm_lastFetchFailed p"
  by (simp add: IncFetchCounter_def)

lemma update_remote_gauge:
  "pm_lastFetchFailed (update_remote r p) = (pm_lastFetchFailed p)([rm_Name r] \<mapsto> boolToFloat64 (\<not> GetValue (rm_Fetched r)))"
  by (simp add: update_remote_def Let_def)

lemma fold_update_other:
  "n \<notin> rm_Name ` set rs \<Longrightarrow> pm_lastFetchFailed (fold update_remote rs p) [n] = pm_lastFetchFailed p [n]"
  by (induction rs arbitrary: p) (auto simp: update_remote_gauge)

lemma fold_update_gauge:
  "distinct (map rm_Name rs) \<Longrightarrow> r \<in> set rs \<Longrightarrow>
     pm_lastFetchFailed (fold update_remote rs p) [rm_Name r] = Some (boolToFloat64 (\<not> GetValue (rm_Fetched r)))"
proof (induction rs arbitrary: p)
  case (Cons x rs)
  show ?case
  proof (cases "r = x")
    case True
    have "rm_Name x \<notin> rm_Name ` set rs" using Cons.prems(1) by simp
    then show ?thesis using True by (simp add: fold_update_other update_remote_gauge)
  next
    case False
    with Cons show ?thesis by auto
  qed
qed simp

lemma updateFetched_gauge:
  "distinct (map rm_Name (rs_Remotes rs)) \<Longrightarrow> r \<in> set (rs_Remotes rs) \<Longrightarrow>
     pm_lastFetchFailed (updateFetched (Some rs) p) [rm_Name r] = Some (boolToFloat64 (\<not> GetValue (rm_Fetched r)))"
  by (simp add: updateFetched_def fold_update_gauge)

end
