(* ===== verification/Repository.thy ===== *)
theory Repository
  imports Config Signers_Correct Metrics
begin

text \<open>
  The Git repository of the agent (\<open>internal/repository/git.go\<close>, \<open>repository.go\<close> and
  \<open>repository_status.go\<close>): opening it, keeping its remotes as configured, fetching, and choosing
  the commit to deploy. \<open>go-git\<close> is a parameter: a repository is what its methods tell of it
  (\<open>gitrepo\<close>), and the calls that open or change one are fields of \<open>genv\<close>. A hash is its
  hexadecimal string; \<open>gv_NewHash\<close> is \<open>plumbing.NewHash\<close>.
\<close>

section \<open>Data\<close>

record gitrepo =
  gr_Reference :: "string \<Rightarrow> string option"
  gr_CommitObject :: "string \<Rightarrow> string + commit"
  gr_Log :: "string \<Rightarrow> string + string list"
  gr_Remote :: "string \<Rightarrow> string option + string list"

text \<open>
  \<open>gr_Reference\<close> is \<open>None\<close> for an error and for a nil reference; \<open>gr_Log\<close> lists the hashes its
  iterator visits; \<open>gr_Remote\<close> gives the URLs of a remote, \<open>Inl None\<close> when it is not found and
  \<open>Inl (Some e)\<close> for another error.
\<close>

datatype auth =
    BasicAuth string string
  | PublicKeysAuth string string string

datatype fetch_result = NewCommits | AlreadyUpToDate | FetchFailed string

record genv =
  gv_NewHash :: "string \<Rightarrow> string"
  gv_sig :: sigenv
  gv_now :: "nat \<Rightarrow> time"
  gv_NewPublicKeysFromFile :: "string \<Rightarrow> string \<Rightarrow> string option"
  gv_NewKnownHostsCallback :: "string \<Rightarrow> string option"
  gv_FetchContext :: "string \<Rightarrow> auth option \<Rightarrow> int \<Rightarrow> gitrepo \<Rightarrow> fetch_result \<times> gitrepo"
  gv_ReadFile :: "string \<Rightarrow> string + string"
  gv_ReadArmoredKeyRing :: "string \<Rightarrow> string option"
  gv_PlainOpen :: "string \<Rightarrow> string + gitrepo"
  gv_IsBare :: "gitrepo \<Rightarrow> bool option"
  gv_PlainInit :: "bool \<Rightarrow> string \<Rightarrow> string + gitrepo"
  gv_PlainReopen :: "bool \<Rightarrow> string \<Rightarrow> string + gitrepo"
  gv_CreateRemote :: "string \<Rightarrow> string \<Rightarrow> gitrepo \<Rightarrow> string + gitrepo"
  gv_DeleteRemote :: "string \<Rightarrow> gitrepo \<Rightarrow> string + gitrepo"

record repository =
  rp_Repository :: gitrepo
  rp_GitConfig :: cfg_GitConfig
  rp_RepositoryStatus :: GitRepositoryStatus
  rp_prometheus :: Prometheus
  rp_gpgPubliKeys :: "string list"
  rp_sshAllowedSigners :: "sshAllowedSigner list"

section \<open>Repository status\<close>

definition NewGitRepositoryStatus :: "cfg_GitConfig \<Rightarrow> string \<Rightarrow> GitRepositoryStatus" where
  "NewGitRepositoryStatus config mainCommitId = GitRepositoryStatus0\<lparr>rs_MainCommitId := mainCommitId,
     rs_Remotes := map (\<lambda>r. Remote0\<lparr>rm_Name := cr_Name r, rm_Url := cr_URL r,
        rm_Main := Branch0\<lparr>br_Name := cb_Name (cb_Main (cr_Branches r))\<rparr>,
        rm_Testing := Branch0\<lparr>br_Name := cb_Name (cb_Testing (cr_Branches r))\<rparr>\<rparr>) (gc_Remotes config)\<rparr>"

definition GetRemote :: "string \<Rightarrow> Remote list \<Rightarrow> Remote option" where
  "GetRemote remoteName remotes = find_first (\<lambda>r. rm_Name r = remoteName) remotes"

section \<open>Opening\<close>

datatype repo_error =
    GpgFileError string string
  | GpgKeyError string string
  | SignersFileError string string
  | SignersError string signer_error
  | GitOpenError string
  | RemoteError string
  | UrlPanic

text \<open>
  The directory is removed when it holds a repository that is not bare; \<open>gv_PlainInit\<close> and
  \<open>gv_PlainReopen\<close> answer for the directory after that.
\<close>

definition not_bare :: "genv \<Rightarrow> string \<Rightarrow> bool" where
  "not_bare V path = (case gv_PlainOpen V path of
     Inl _ \<Rightarrow> False | Inr r \<Rightarrow> (case gv_IsBare V r of None \<Rightarrow> False | Some bare \<Rightarrow> \<not> bare))"

definition repositoryOpen :: "genv \<Rightarrow> cfg_GitConfig \<Rightarrow> repo_error + gitrepo" where
  "repositoryOpen V config =
     (let removed = not_bare V (gc_Path config) in
      case gv_PlainInit V removed (gc_Path config) of
        Inr r \<Rightarrow> Inr r
      | Inl _ \<Rightarrow> (case gv_PlainReopen V removed (gc_Path config) of
                   Inl e \<Rightarrow> Inl (GitOpenError e) | Inr r \<Rightarrow> Inr r))"

definition create_remote :: "genv \<Rightarrow> cfg_Remote \<Rightarrow> gitrepo \<Rightarrow> repo_error + gitrepo" where
  "create_remote V remote r = (case gv_CreateRemote V (cr_Name remote) (cr_URL remote) r of
     Inl e \<Rightarrow> Inl (RemoteError e) | Inr r' \<Rightarrow> Inr r')"

definition manageRemote :: "genv \<Rightarrow> cfg_Remote \<Rightarrow> gitrepo \<Rightarrow> repo_error + gitrepo" where
  "manageRemote V remote r =
     (case gr_Remote r (cr_Name remote) of
        Inl None \<Rightarrow> create_remote V remote r
      | Inl (Some e) \<Rightarrow> Inl (RemoteError e)
      | Inr [] \<Rightarrow> Inl UrlPanic
      | Inr (url # _) \<Rightarrow>
          if url \<noteq> cr_URL remote
          then (case gv_DeleteRemote V (cr_Name remote) r of
                  Inl e \<Rightarrow> Inl (RemoteError e)
                | Inr r' \<Rightarrow> create_remote V remote r')
          else Inr r)"

fun manageRemotes :: "genv \<Rightarrow> cfg_Remote list \<Rightarrow> gitrepo \<Rightarrow> repo_error + gitrepo" where
  "manageRemotes V [] r = Inr r"
| "manageRemotes V (remote # remotes) r =
     (case manageRemote V remote r of Inl e \<Rightarrow> Inl e | Inr r' \<Rightarrow> manageRemotes V remotes r')"

fun read_gpg_keys :: "genv \<Rightarrow> string list \<Rightarrow> repo_error + string list" where
  "read_gpg_keys V [] = Inr []"
| "read_gpg_keys V (path # paths) =
     (case gv_ReadFile V path of
        Inl e \<Rightarrow> Inl (GpgFileError path e)
      | Inr k \<Rightarrow>
          (case gv_ReadArmoredKeyRing V k of
             Some e \<Rightarrow> Inl (GpgKeyError path e)
           | None \<Rightarrow> (case read_gpg_keys V paths of Inl e \<Rightarrow> Inl e | Inr ks \<Rightarrow> Inr (k # ks))))"

definition read_signers :: "genv \<Rightarrow> string \<Rightarrow> repo_error + sshAllowedSigner list" where
  "read_signers V path =
     (if path = [] then Inr []
      else case gv_ReadFile V path of
             Inl e \<Rightarrow> Inl (SignersFileError path e)
           | Inr k \<Rightarrow> (case parseSSHAllowedSigners (gv_sig V) k of
                        Inl e \<Rightarrow> Inl (SignersError path e) | Inr ss \<Rightarrow> Inr ss))"

definition repository_New :: "genv \<Rightarrow> cfg_GitConfig \<Rightarrow> string \<Rightarrow> Prometheus \<Rightarrow> repo_error + repository" where
  "repository_New V config mainCommitId prometheus =
     (case read_gpg_keys V (gc_GpgPublicKeyPaths config) of
        Inl e \<Rightarrow> Inl e
      | Inr keys \<Rightarrow>
          (case read_signers V (gc_SshAllowedSignersPath config) of
             Inl e \<Rightarrow> Inl e
           | Inr signers \<Rightarrow>
               (case repositoryOpen V config of
                  Inl e \<Rightarrow> Inl e
                | Inr r \<Rightarrow>
                    (case manageRemotes V (gc_Remotes config) r of
                       Inl e \<Rightarrow> Inl e
                     | Inr r' \<Rightarrow> Inr \<lparr>rp_Repository = r', rp_GitConfig = config,
                         rp_RepositoryStatus = NewGitRepositoryStatus config mainCommitId,
                         rp_prometheus = prometheus, rp_gpgPubliKeys = keys,
                         rp_sshAllowedSigners = signers\<rparr>))))"

section \<open>Fetching\<close>

definition fetch_auth :: "genv \<Rightarrow> cfg_Auth \<Rightarrow> string + auth option" where
  "fetch_auth V a =
     (if au_AccessToken a \<noteq> [] then Inr (Some (BasicAuth (au_Username a) (au_AccessToken a)))
      else if au_SshDeployKeyPath a \<noteq> [] then
        (case gv_NewPublicKeysFromFile V (au_Username a) (au_SshDeployKeyPath a) of
           Some e \<Rightarrow> Inl (''loading SSH private key failed: '' @ e)
         | None \<Rightarrow>
             (let knownHostsPath = (if au_SshKnownHostsPath a = [] then ''/etc/ssh/ssh_known_hosts''
                                    else au_SshKnownHostsPath a)
              in case gv_NewKnownHostsCallback V knownHostsPath of
                   Some _ \<Rightarrow> Inl (''loading SSH known_hosts file failed: '' @ knownHostsPath)
                 | None \<Rightarrow> Inr (Some (PublicKeysAuth (au_Username a) (au_SshDeployKeyPath a) knownHostsPath))))
      else Inr None)"

definition fetch :: "genv \<Rightarrow> cfg_Remote \<Rightarrow> gitrepo \<Rightarrow> string option \<times> gitrepo" where
  "fetch V remote r =
     (case fetch_auth V (cr_Auth remote) of
        Inl e \<Rightarrow> (Some e, r)
      | Inr auth \<Rightarrow>
          (case gv_FetchContext V (cr_Name remote) auth (cr_Timeout remote) r of
             (FetchFailed e, r') \<Rightarrow>
               (Some ([CHR 0x27] @ ''git fetch '' @ cr_Name remote @ [CHR 0x27] @ '' fails: '' @
                  [CHR 0x27] @ e @ [CHR 0x27]), r')
           | (_, r') \<Rightarrow> (None, r')))"

definition record_fetch :: "time \<Rightarrow> string option \<Rightarrow> Remote \<Rightarrow> Remote" where
  "record_fetch now err r =
     (case err of
        Some e \<Rightarrow> r\<lparr>rm_FetchErrorMsg := e, rm_FetchedAt := Some now\<rparr>
      | None \<Rightarrow> r\<lparr>rm_FetchErrorMsg := [], rm_Fetched := Some True, rm_FetchedAt := Some now\<rparr>)"

text \<open>One turn of the loop; \<open>None\<close> is the panic on a remote that the status does not have.\<close>

definition fetch_remote :: "genv \<Rightarrow> string list \<Rightarrow> nat \<Rightarrow> cfg_Remote \<Rightarrow> repository \<Rightarrow> repository option" where
  "fetch_remote V names i remote r =
     (if cr_Name remote \<notin> set names then Some r
      else case GetRemote (cr_Name remote) (rs_Remotes (rp_RepositoryStatus r)) of
             None \<Rightarrow> None
           | Some _ \<Rightarrow>
               (let (err, g) = fetch V remote (rp_Repository r);
                    rs = rp_RepositoryStatus r
                in Some (r\<lparr>rp_Repository := g,
                     rp_RepositoryStatus := rs\<lparr>rs_Remotes :=
                       upd_first (\<lambda>x. rm_Name x = cr_Name remote) (record_fetch (gv_now V i) err) (rs_Remotes rs)\<rparr>,
                     rp_prometheus := IncFetchCounter (cr_Name remote)
                       (if err = None then ''succeeded'' else ''failed'') (rp_prometheus r)\<rparr>)))"

fun fetch_loop :: "genv \<Rightarrow> string list \<Rightarrow> nat \<Rightarrow> cfg_Remote list \<Rightarrow> repository \<Rightarrow> repository option" where
  "fetch_loop V names i [] r = Some r"
| "fetch_loop V names i (remote # remotes) r =
     (case fetch_remote V names i remote r of
        None \<Rightarrow> None
      | Some r' \<Rightarrow> fetch_loop V names (Suc i) remotes r')"

definition Fetch :: "genv \<Rightarrow> string list \<Rightarrow> repository \<Rightarrow> repository option" where
  "Fetch V names r = fetch_loop V names 0 (gc_Remotes (rp_GitConfig r))
     (r\<lparr>rp_RepositoryStatus := (rp_RepositoryStatus r)\<lparr>rs_ErrorMsg := []\<rparr>\<rparr>)"

section \<open>Choosing a commit\<close>

definition getRemoteCommitHash :: "gitrepo \<Rightarrow> string \<Rightarrow> string \<Rightarrow> string option" where
  "getRemoteCommitHash r remote branch = gr_Reference r (''refs/remotes/'' @ remote @ ''/'' @ branch)"

text \<open>The walk over the history; the first commit is skipped.\<close>

fun ancestor_loop :: "string \<Rightarrow> bool \<Rightarrow> string list \<Rightarrow> bool" where
  "ancestor_loop base isFirst [] = False"
| "ancestor_loop base isFirst (h # hs) = (if \<not> isFirst \<and> h = base then True else ancestor_loop base False hs)"

definition isAncestor :: "gitrepo \<Rightarrow> string \<Rightarrow> string \<Rightarrow> string + bool" where
  "isAncestor r base tip = (case gr_Log r tip of
     Inl e \<Rightarrow> Inl (''git log '' @ tip @ '' fails: '' @ [CHR 0x27] @ e @ [CHR 0x27])
   | Inr hashes \<Rightarrow> Inr (ancestor_loop base True hashes))"

definition hasNotBeenHardReset :: "gitrepo \<Rightarrow> string option \<Rightarrow> string \<Rightarrow> string option" where
  "hasNotBeenHardReset r currentMainHash remoteMainHead =
     (case currentMainHash of
        None \<Rightarrow> None
      | Some current \<Rightarrow>
          if current \<noteq> remoteMainHead
          then (case isAncestor r current remoteMainHead of
                  Inl e \<Rightarrow> Some e
                | Inr ok \<Rightarrow>
                    if \<not> ok
                    then Some (''this branch has been hard reset: its head '' @ [CHR 0x27] @ remoteMainHead @
                      [CHR 0x27] @ '' is not on top of '' @ [CHR 0x27] @ current @ [CHR 0x27])
                    else None)
          else None)"

definition getHeadFromRemoteAndBranch ::
  "genv \<Rightarrow> gitrepo \<Rightarrow> string \<Rightarrow> string \<Rightarrow> string \<Rightarrow> string + (string \<times> string)" where
  "getHeadFromRemoteAndBranch V r remoteName branchName currentMainCommitId =
     (case getRemoteCommitHash r remoteName branchName of
        None \<Rightarrow> Inl (''the branch '' @ [CHR 0x27] @ remoteName @ ''/'' @ branchName @ [CHR 0x27] @ '' doesn'' @ [CHR 0x27] @ ''t exist'')
      | Some head \<Rightarrow>
          (case hasNotBeenHardReset r (if currentMainCommitId \<noteq> [] then Some (gv_NewHash V currentMainCommitId)
                                       else None) head of
             Some e \<Rightarrow> Inl e
           | None \<Rightarrow> (case gr_CommitObject r head of
                       Inl e \<Rightarrow> Inl e
                     | Inr c \<Rightarrow> Inr (head, cm_Message c))))"

definition select_commit :: "string \<Rightarrow> string \<Rightarrow> string \<Rightarrow> bool \<Rightarrow> GitRepositoryStatus \<Rightarrow> GitRepositoryStatus" where
  "select_commit remote branch msg testing rs = rs\<lparr>rs_SelectedCommitMsg := msg,
     rs_SelectedBranchName := branch, rs_SelectedRemoteName := remote,
     rs_SelectedBranchIsTesting := Some testing\<rparr>"

definition found_head :: "string \<Rightarrow> string \<Rightarrow> string \<Rightarrow> Branch \<Rightarrow> Branch" where
  "found_head h msg onTopOf b = b\<lparr>br_ErrorMsg := [], br_CommitId := h, br_CommitMsg := msg, br_OnTopOf := onTopOf\<rparr>"

text \<open>The two loops: the remotes they have gone through, the selected commit and the status.\<close>

fun main_loop :: "genv \<Rightarrow> gitrepo \<Rightarrow> Remote list \<Rightarrow> string \<Rightarrow> GitRepositoryStatus \<Rightarrow>
    Remote list \<times> string \<times> GitRepositoryStatus" where
  "main_loop V g [] selected rs = ([], selected, rs)"
| "main_loop V g (r # rest) selected rs =
     (if rm_FetchErrorMsg r \<noteq> [] then
        (let (rest', out) = main_loop V g rest selected rs in (r # rest', out))
      else case getHeadFromRemoteAndBranch V g (rm_Name r) (br_Name (rm_Main r)) (rs_MainCommitId rs) of
             Inl e \<Rightarrow>
               (let (rest', out) = main_loop V g rest selected rs
                in (r\<lparr>rm_Main := (rm_Main r)\<lparr>br_ErrorMsg := e\<rparr>\<rparr> # rest', out))
           | Inr (head, msg) \<Rightarrow>
               (let r' = r\<lparr>rm_Main := found_head head msg (rs_MainCommitId rs) (rm_Main r)\<rparr>;
                    pick = select_commit (rm_Name r) (br_Name (rm_Main r)) msg False;
                    (selected1, rs1) = (if selected = [] then (head, pick rs) else (selected, rs))
                in if head \<noteq> rs_MainCommitId rs1
                   then (r' # rest, head, (pick rs1)\<lparr>rs_MainCommitId := head,
                           rs_MainBranchName := br_Name (rm_Main r), rs_MainRemoteName := rm_Name r\<rparr>)
                   else let (rest', out) = main_loop V g rest selected1 rs1 in (r' # rest', out)))"

fun testing_loop :: "genv \<Rightarrow> gitrepo \<Rightarrow> Remote list \<Rightarrow> string \<Rightarrow> GitRepositoryStatus \<Rightarrow>
    Remote list \<times> string \<times> GitRepositoryStatus" where
  "testing_loop V g [] selected rs = ([], selected, rs)"
| "testing_loop V g (r # rest) selected rs =
     (if rm_FetchErrorMsg r \<noteq> [] \<or> br_Name (rm_Testing r) = [] then
        (let (rest', out) = testing_loop V g rest selected rs in (r # rest', out))
      else case getHeadFromRemoteAndBranch V g (rm_Name r) (br_Name (rm_Testing r)) (rs_MainCommitId rs) of
             Inl e \<Rightarrow>
               (let (rest', out) = testing_loop V g rest selected rs
                in (r\<lparr>rm_Testing := (rm_Testing r)\<lparr>br_ErrorMsg := e\<rparr>\<rparr> # rest', out))
           | Inr (head, msg) \<Rightarrow>
               (let r' = r\<lparr>rm_Testing := found_head head msg (rs_MainCommitId rs) (rm_Testing r)\<rparr>
                in if head \<noteq> selected \<and> head \<noteq> rs_MainCommitId rs
                   then (r' # rest, head, select_commit (rm_Name r) (br_Name (rm_Testing r)) msg True rs)
                   else let (rest', out) = testing_loop V g rest selected rs in (r' # rest', out)))"

text \<open>The text of a verification error is opaque: only whether there is one matters to the agent.\<close>

definition check_signature :: "genv \<Rightarrow> (verify_error \<Rightarrow> string) \<Rightarrow> string \<Rightarrow> repository \<Rightarrow>
    GitRepositoryStatus \<Rightarrow> GitRepositoryStatus" where
  "check_signature V errString selected r rs =
     (if rp_gpgPubliKeys r \<noteq> [] \<or> rp_sshAllowedSigners r \<noteq> [] then
        (let result = commitSignedBy (gv_sig V) (\<lambda>id. gr_CommitObject (rp_Repository r) (gv_NewHash V id))
               selected (rp_gpgPubliKeys r) (rp_sshAllowedSigners r);
             signedBy = (case result of Inl _ \<Rightarrow> [] | Inr name \<Rightarrow> name);
             rs1 = rs\<lparr>rs_SelectedCommitShouldBeSigned := Some True,
                      rs_ErrorMsg := (case result of Inl e \<Rightarrow> errString e | Inr _ \<Rightarrow> rs_ErrorMsg rs)\<rparr>
         in rs1\<lparr>rs_SelectedCommitSigned := Some (signedBy \<noteq> []), rs_SelectedCommitSignedBy := signedBy\<rparr>)
      else rs\<lparr>rs_SelectedCommitShouldBeSigned := Some False\<rparr>)"

definition Update :: "genv \<Rightarrow> (verify_error \<Rightarrow> string) \<Rightarrow> repository \<Rightarrow> repository" where
  "Update V errString r =
     (let rs = rp_RepositoryStatus r;
          (remotes1, selected1, rs1) = main_loop V (rp_Repository r) (rs_Remotes rs) [] rs;
          (remotes2, selected2, rs2) = testing_loop V (rp_Repository r) remotes1 selected1 rs1;
          rs3 = rs2\<lparr>rs_Remotes := remotes2\<rparr>;
          rs4 = (if selected2 \<noteq> [] then rs3\<lparr>rs_SelectedCommitId := selected2\<rparr> else rs3)
      in r\<lparr>rp_RepositoryStatus := check_signature V errString selected2 r rs4\<rparr>)"

text \<open>The status sent on the channel is a clone of the status of the repository.\<close>

definition FetchAndUpdate :: "genv \<Rightarrow> (verify_error \<Rightarrow> string) \<Rightarrow> string list \<Rightarrow> repository \<Rightarrow>
    (GitRepositoryStatus \<times> repository) option" where
  "FetchAndUpdate V errString names r =
     (case Fetch V names r of
        None \<Rightarrow> None
      | Some r' \<Rightarrow> let r'' = Update V errString r' in Some (rp_RepositoryStatus r'', r''))"

end
