(* ===== verification/Repository_Correct.thy ===== *)
theory Repository_Correct
  imports Repository
begin

text \<open>
  What the repository promises to the fetcher: the commit it selects (\<open>update_selects\<close>, against a
  definition without loops), that it only moves forward (\<open>selection_fast_forward\<close>), that fetching
  never panics and touches only the requested remotes (\<open>fetch_total\<close>), and what it says about
  signatures (\<open>signed_status_sound\<close>).
\<close>

section \<open>History\<close>

lemma ancestor_loop_False: "ancestor_loop base False hs \<longleftrightarrow> base \<in> set hs"
  by (induction hs) auto

lemma ancestor_loop_True: "ancestor_loop base True hs \<longleftrightarrow> base \<in> set (tl hs)"
  by (cases hs) (simp_all add: ancestor_loop_False)

text \<open>The tip is the commit itself or has it in its history.\<close>

definition descends :: "genv \<Rightarrow> gitrepo \<Rightarrow> string \<Rightarrow> string \<Rightarrow> bool" where
  "descends V g base tip \<longleftrightarrow> base = [] \<or> gv_NewHash V base = tip \<or>
     (\<exists>hs. gr_Log g tip = Inr hs \<and> gv_NewHash V base \<in> set (tl hs))"

lemma getHead_iff:
  "getHeadFromRemoteAndBranch V g remote branch main = Inr (h, msg) \<longleftrightarrow>
     gr_Reference g (''refs/remotes/'' @ remote @ ''/'' @ branch) = Some h \<and> descends V g main h \<and>
     (\<exists>c. gr_CommitObject g h = Inr c \<and> cm_Message c = msg)"
  unfolding getHeadFromRemoteAndBranch_def getRemoteCommitHash_def hasNotBeenHardReset_def isAncestor_def descends_def
  by (auto simp: ancestor_loop_True split: option.splits sum.splits if_splits)

section \<open>The selected commit\<close>

text \<open>The heads that can be chosen, in the order of the remotes.\<close>

definition main_heads :: "genv \<Rightarrow> gitrepo \<Rightarrow> string \<Rightarrow> Remote list \<Rightarrow> (Remote \<times> string) list" where
  "main_heads V g main = List.map_filter (\<lambda>r.
     if rm_FetchErrorMsg r \<noteq> [] then None
     else case getHeadFromRemoteAndBranch V g (rm_Name r) (br_Name (rm_Main r)) main of
            Inl _ \<Rightarrow> None | Inr (h, _) \<Rightarrow> Some (r, h))"

definition testing_heads :: "genv \<Rightarrow> gitrepo \<Rightarrow> string \<Rightarrow> Remote list \<Rightarrow> (Remote \<times> string) list" where
  "testing_heads V g main = List.map_filter (\<lambda>r.
     if rm_FetchErrorMsg r \<noteq> [] \<or> br_Name (rm_Testing r) = [] then None
     else case getHeadFromRemoteAndBranch V g (rm_Name r) (br_Name (rm_Testing r)) main of
            Inl _ \<Rightarrow> None | Inr (h, _) \<Rightarrow> Some (r, h))"

text \<open>A new head of a main branch is preferred to the commit that is already deployed.\<close>

definition chosen_main :: "string \<Rightarrow> (Remote \<times> string) list \<Rightarrow> (Remote \<times> string) option" where
  "chosen_main main heads = (case find_first (\<lambda>c. snd c \<noteq> main) heads of
     Some c \<Rightarrow> Some c | None \<Rightarrow> (case heads of [] \<Rightarrow> None | c # _ \<Rightarrow> Some c))"

record selection =
  se_main :: string
  se_commit :: string
  se_remote :: string
  se_branch :: string
  se_testing :: boolvalue

definition selection_of :: "GitRepositoryStatus \<Rightarrow> selection" where
  "selection_of rs = \<lparr>se_main = rs_MainCommitId rs, se_commit = rs_SelectedCommitId rs,
     se_remote = rs_SelectedRemoteName rs, se_branch = rs_SelectedBranchName rs,
     se_testing = rs_SelectedBranchIsTesting rs\<rparr>"

definition selection_spec :: "genv \<Rightarrow> gitrepo \<Rightarrow> GitRepositoryStatus \<Rightarrow> selection" where
  "selection_spec V g rs =
     (let choice = chosen_main (rs_MainCommitId rs) (main_heads V g (rs_MainCommitId rs) (rs_Remotes rs));
          main = (case choice of None \<Rightarrow> rs_MainCommitId rs | Some (_, h) \<Rightarrow> h)
      in case find_first (\<lambda>c. snd c \<noteq> main) (testing_heads V g main (rs_Remotes rs)) of
           Some (r, h) \<Rightarrow> \<lparr>se_main = main, se_commit = h, se_remote = rm_Name r,
                            se_branch = br_Name (rm_Testing r), se_testing = Some True\<rparr>
         | None \<Rightarrow>
             (case choice of
                Some (r, h) \<Rightarrow> \<lparr>se_main = main, se_commit = h, se_remote = rm_Name r,
                                 se_branch = br_Name (rm_Main r), se_testing = Some False\<rparr>
              | None \<Rightarrow> selection_of rs))"

lemmas map_filter_simps' [simp] = List.map_filter_simps

lemma main_heads_simps [simp]:
  "main_heads V g main [] = []"
  "rm_FetchErrorMsg r \<noteq> [] \<Longrightarrow> main_heads V g main (r # rs) = main_heads V g main rs"
  "getHeadFromRemoteAndBranch V g (rm_Name r) (br_Name (rm_Main r)) main = Inl e \<Longrightarrow>
     main_heads V g main (r # rs) = main_heads V g main rs"
  "rm_FetchErrorMsg r = [] \<Longrightarrow>
     getHeadFromRemoteAndBranch V g (rm_Name r) (br_Name (rm_Main r)) main = Inr (h, msg) \<Longrightarrow>
     main_heads V g main (r # rs) = (r, h) # main_heads V g main rs"
  by (simp_all add: main_heads_def)

lemma testing_heads_simps [simp]:
  "testing_heads V g main [] = []"
  "rm_FetchErrorMsg r \<noteq> [] \<Longrightarrow> testing_heads V g main (r # rs) = testing_heads V g main rs"
  "br_Name (rm_Testing r) = [] \<Longrightarrow> testing_heads V g main (r # rs) = testing_heads V g main rs"
  "getHeadFromRemoteAndBranch V g (rm_Name r) (br_Name (rm_Testing r)) main = Inl e \<Longrightarrow>
     testing_heads V g main (r # rs) = testing_heads V g main rs"
  "rm_FetchErrorMsg r = [] \<Longrightarrow> br_Name (rm_Testing r) \<noteq> [] \<Longrightarrow>
     getHeadFromRemoteAndBranch V g (rm_Name r) (br_Name (rm_Testing r)) main = Inr (h, msg) \<Longrightarrow>
     testing_heads V g main (r # rs) = (r, h) # testing_heads V g main rs"
  by (simp_all add: testing_heads_def)

lemma main_heads_member:
  "(x, h) \<in> set (main_heads V g main rs) \<Longrightarrow> x \<in> set rs \<and> rm_FetchErrorMsg x = [] \<and>
     (\<exists>msg. getHeadFromRemoteAndBranch V g (rm_Name x) (br_Name (rm_Main x)) main = Inr (h, msg))"
  by (auto simp: main_heads_def List.map_filter_def split: if_splits sum.splits)

lemma testing_heads_member:
  "(x, h) \<in> set (testing_heads V g main rs) \<Longrightarrow> x \<in> set rs \<and> rm_FetchErrorMsg x = [] \<and>
     (\<exists>msg. getHeadFromRemoteAndBranch V g (rm_Name x) (br_Name (rm_Testing x)) main = Inr (h, msg))"
  by (auto simp: testing_heads_def List.map_filter_def split: if_splits sum.splits)

lemma chosen_main_member: "chosen_main main heads = Some c \<Longrightarrow> c \<in> set heads"
  by (auto simp: chosen_main_def split: option.splits list.splits dest: find_first_Some)

text \<open>Hashes are not empty strings.\<close>

definition hashes_ok :: "gitrepo \<Rightarrow> bool" where
  "hashes_ok g \<longleftrightarrow> (\<forall>n h. gr_Reference g n = Some h \<longrightarrow> h \<noteq> [])"

lemma getHead_nonempty:
  "hashes_ok g \<Longrightarrow> getHeadFromRemoteAndBranch V g remote branch main = Inr (h, msg) \<Longrightarrow> h \<noteq> []"
  by (auto simp: getHead_iff hashes_ok_def)

definition main_part :: "string \<Rightarrow> GitRepositoryStatus \<Rightarrow> (Remote \<times> string) option \<Rightarrow> string \<Rightarrow>
    GitRepositoryStatus \<Rightarrow> bool" where
  "main_part selected rs choice selected' rs' \<longleftrightarrow>
     rs_SelectedCommitId rs' = rs_SelectedCommitId rs \<and> rs_Remotes rs' = rs_Remotes rs \<and>
     (case choice of
        None \<Rightarrow> selected' = selected \<and> rs' = rs
      | Some (r, h) \<Rightarrow> selected' = h \<and> rs_MainCommitId rs' = h \<and> rs_SelectedRemoteName rs' = rm_Name r \<and>
          rs_SelectedBranchName rs' = br_Name (rm_Main r) \<and> rs_SelectedBranchIsTesting rs' = Some False)"

text \<open>Once the deployed commit is selected, only a new head changes the selection.\<close>

lemma main_loop_selected:
  assumes "hashes_ok g" and "main_loop V g rs selected st = (rs', selected', st')"
    and "selected = rs_MainCommitId st" and "selected \<noteq> []"
  shows "main_part selected st (find_first (\<lambda>c. snd c \<noteq> rs_MainCommitId st)
    (main_heads V g (rs_MainCommitId st) rs)) selected' st'"
  using assms(2)
proof (induction rs arbitrary: rs')
  case (Cons r rs)
  show ?case
  proof (cases "rm_FetchErrorMsg r = []")
    case False
    with Cons show ?thesis by (auto split: prod.splits)
  next
    case ok: True
    show ?thesis
    proof (cases "getHeadFromRemoteAndBranch V g (rm_Name r) (br_Name (rm_Main r)) (rs_MainCommitId st)")
      case (Inl e)
      with ok Cons show ?thesis by (auto split: prod.splits)
    next
      case (Inr hm)
      obtain h msg where hm: "hm = (h, msg)" by fastforce
      show ?thesis
      proof (cases "h = rs_MainCommitId st")
        case True
        with ok Inr hm Cons assms(3,4) show ?thesis by (auto simp: Let_def split: prod.splits)
      next
        case False
        with ok Inr hm Cons.prems assms(3,4) show ?thesis
          by (auto simp: Let_def main_part_def select_commit_def)
      qed
    qed
  qed
qed (simp add: main_part_def)

lemma main_loop_start:
  assumes "hashes_ok g" and "main_loop V g rs [] st = (rs', selected', st')"
  shows "main_part [] st (chosen_main (rs_MainCommitId st) (main_heads V g (rs_MainCommitId st) rs)) selected' st'"
  using assms(2)
proof (induction rs arbitrary: rs')
  case (Cons r rs)
  show ?case
  proof (cases "rm_FetchErrorMsg r = []")
    case False
    with Cons show ?thesis by (auto split: prod.splits)
  next
    case ok: True
    let ?pick = "select_commit (rm_Name r) (br_Name (rm_Main r))"
    show ?thesis
    proof (cases "getHeadFromRemoteAndBranch V g (rm_Name r) (br_Name (rm_Main r)) (rs_MainCommitId st)")
      case (Inl e)
      with ok Cons show ?thesis by (auto split: prod.splits)
    next
      case (Inr hm)
      obtain h msg where hm: "hm = (h, msg)" by fastforce
      with Inr have h: "h \<noteq> []" using getHead_nonempty [OF assms(1)] by blast
      have pm: "rs_MainCommitId (?pick m b st) = rs_MainCommitId st" for m b by (simp add: select_commit_def)
      show ?thesis
      proof (cases "h = rs_MainCommitId st")
        case False
        then show ?thesis
          using ok Inr hm Cons.prems by (auto simp: Let_def main_part_def select_commit_def chosen_main_def)
      next
        case True
        obtain rs2 where "main_loop V g rs h (?pick msg False st) = (rs2, selected', st')"
          using ok Inr hm Cons.prems True by (auto simp: Let_def pm split: prod.splits)
        from main_loop_selected [OF assms(1) this] True h
        have "main_part h (?pick msg False st) (find_first (\<lambda>c. snd c \<noteq> rs_MainCommitId st)
            (main_heads V g (rs_MainCommitId st) rs)) selected' st'" by (simp add: pm)
        then show ?thesis
          using ok Inr hm True by (auto simp: main_part_def chosen_main_def select_commit_def split: option.splits)
      qed
    qed
  qed
qed (simp add: main_part_def chosen_main_def)

text \<open>The first loop changes only the main branches.\<close>

definition testing_view :: "Remote \<Rightarrow> string \<times> string \<times> Branch" where
  "testing_view r = (rm_Name r, rm_FetchErrorMsg r, rm_Testing r)"

lemma main_loop_view: "map testing_view (fst (main_loop V g rs selected st)) = map testing_view rs"
proof (induction rs arbitrary: selected st)
  case (Cons r rs)
  have keep: "testing_view (r\<lparr>rm_Main := b\<rparr>) = testing_view r" for b by (simp add: testing_view_def)
  show ?case
    by (simp add: Let_def case_prod_unfold keep Cons.IH split: sum.split)
qed simp

lemma testing_heads_view:
  "map testing_view rs' = map testing_view rs \<Longrightarrow>
     map (\<lambda>(r, h). (rm_Name r, br_Name (rm_Testing r), h)) (testing_heads V g main rs') =
     map (\<lambda>(r, h). (rm_Name r, br_Name (rm_Testing r), h)) (testing_heads V g main rs)"
  by (induction rs' rs rule: list_induct2'; simp)
    (auto simp: testing_heads_def testing_view_def split: sum.splits)

text \<open>The view of a choice that the status records.\<close>

definition choice_view :: "Remote \<times> string \<Rightarrow> string \<times> string \<times> string" where
  "choice_view c = (rm_Name (fst c), br_Name (rm_Testing (fst c)), snd c)"

lemma find_first_view:
  "map choice_view xs = map choice_view ys \<Longrightarrow>
     map_option choice_view (find_first (\<lambda>c. snd c \<noteq> main) xs) =
     map_option choice_view (find_first (\<lambda>c. snd c \<noteq> main) ys)"
  by (induction xs ys rule: list_induct2') (auto simp: choice_view_def)

lemma testing_choice_view:
  "map testing_view rs' = map testing_view rs \<Longrightarrow>
     map_option choice_view (find_first (\<lambda>c. snd c \<noteq> main) (testing_heads V g main rs')) =
     map_option choice_view (find_first (\<lambda>c. snd c \<noteq> main) (testing_heads V g main rs))"
  using testing_heads_view [of rs' rs V g main]
  by (intro find_first_view) (simp add: choice_view_def [abs_def] case_prod_unfold)

definition testing_part :: "string \<Rightarrow> GitRepositoryStatus \<Rightarrow> (string \<times> string \<times> string) option \<Rightarrow> string \<Rightarrow>
    GitRepositoryStatus \<Rightarrow> bool" where
  "testing_part selected rs choice selected' rs' \<longleftrightarrow>
     (case choice of
        None \<Rightarrow> selected' = selected \<and> rs' = rs
      | Some (remote, branch, h) \<Rightarrow> selected' = h \<and> (\<exists>msg. rs' = select_commit remote branch msg True rs))"

lemma testing_loop_part:
  assumes "hashes_ok g" and "testing_loop V g rs selected st = (rs', selected', st')"
    and "selected = [] \<or> selected = rs_MainCommitId st"
  shows "testing_part selected st (map_option choice_view (find_first (\<lambda>c. snd c \<noteq> rs_MainCommitId st)
    (testing_heads V g (rs_MainCommitId st) rs))) selected' st'"
  using assms(2)
proof (induction rs arbitrary: rs')
  case (Cons r rs)
  show ?case
  proof (cases "rm_FetchErrorMsg r = [] \<and> br_Name (rm_Testing r) \<noteq> []")
    case False
    with Cons show ?thesis by (auto split: prod.splits)
  next
    case ok: True
    show ?thesis
    proof (cases "getHeadFromRemoteAndBranch V g (rm_Name r) (br_Name (rm_Testing r)) (rs_MainCommitId st)")
      case (Inl e)
      with ok Cons show ?thesis by (auto split: prod.splits)
    next
      case (Inr hm)
      obtain h msg where hm: "hm = (h, msg)" by fastforce
      with Inr have h: "h \<noteq> []" using getHead_nonempty [OF assms(1)] by blast
      show ?thesis
      proof (cases "h = rs_MainCommitId st")
        case True
        with ok Inr hm Cons show ?thesis by (auto simp: Let_def split: prod.splits)
      next
        case False
        with ok Inr hm Cons.prems assms(3) h show ?thesis
          by (auto simp: Let_def testing_part_def choice_view_def)
      qed
    qed
  qed
qed (simp add: testing_part_def)

lemma check_signature_frame [simp]:
  "selection_of (check_signature V es sel r rs) = selection_of rs"
  "rs_Remotes (check_signature V es sel r rs) = rs_Remotes rs"
  by (simp_all add: check_signature_def selection_of_def Let_def)

text \<open>
  Property C8. The loops of an update select the commit of a definition without loops: the first head
  of a testing branch that differs from the main commit, otherwise the first new head of a main
  branch, otherwise the main commit, where remotes whose fetch failed, branches that do not exist
  and heads that do not descend from the main commit are left out; without any head the selection
  stays. A new head of a main branch becomes the main commit.
\<close>

theorem update_selects:
  assumes "hashes_ok (rp_Repository r)"
  shows "selection_of (rp_RepositoryStatus (Update V errString r)) =
    selection_spec V (rp_Repository r) (rp_RepositoryStatus r)"
proof -
  let ?rs = "rp_RepositoryStatus r" and ?g = "rp_Repository r"
  let ?choice = "chosen_main (rs_MainCommitId ?rs) (main_heads V ?g (rs_MainCommitId ?rs) (rs_Remotes ?rs))"
  obtain rs1 sel1 st1 where l1: "main_loop V ?g (rs_Remotes ?rs) [] ?rs = (rs1, sel1, st1)" by (meson prod_cases3)
  obtain rs2 sel2 st2 where l2: "testing_loop V ?g rs1 sel1 st1 = (rs2, sel2, st2)" by (meson prod_cases3)
  have view: "map testing_view rs1 = map testing_view (rs_Remotes ?rs)"
    using main_loop_view [of V ?g "rs_Remotes ?rs" "[]" ?rs] l1 by simp
  have m: "main_part [] ?rs ?choice sel1 st1" using main_loop_start [OF assms l1] .
  have main: "rs_MainCommitId st1 = (case ?choice of None \<Rightarrow> rs_MainCommitId ?rs | Some (_, h) \<Rightarrow> h)"
    "sel1 = [] \<or> sel1 = rs_MainCommitId st1"
    using m by (auto simp: main_part_def split: option.splits)
  let ?t = "find_first (\<lambda>c. snd c \<noteq> rs_MainCommitId st1) (testing_heads V ?g (rs_MainCommitId st1) (rs_Remotes ?rs))"
  have t: "testing_part sel1 st1 (map_option choice_view ?t) sel2 st2"
    using testing_loop_part [OF assms l2 main(2)] testing_choice_view [OF view, of "rs_MainCommitId st1" V ?g]
    by simp
  have upd: "selection_of (rp_RepositoryStatus (Update V errString r)) =
      selection_of (if sel2 \<noteq> [] then st2\<lparr>rs_SelectedCommitId := sel2\<rparr> else st2)"
    unfolding Update_def by (simp add: l1 l2) (simp add: selection_of_def)
  have ne: "h \<noteq> []" if "?choice = Some (x, h)" for x h
    using main_heads_member [OF chosen_main_member [OF that]] getHead_nonempty [OF assms] by blast
  have net: "h \<noteq> []" if "?t = Some (x, h)" for x h
    using testing_heads_member find_first_Some [OF that] getHead_nonempty [OF assms] by blast
  show ?thesis
  proof (cases ?t)
    case (Some c)
    obtain x h where c: "c = (x, h)" by fastforce
    with Some t net have "sel2 = h" "h \<noteq> []" "\<exists>msg. st2 = select_commit (rm_Name x) (br_Name (rm_Testing x)) msg True st1"
      by (auto simp: testing_part_def choice_view_def)
    with Some c main(1) show ?thesis
      unfolding upd selection_spec_def Let_def main(1) [symmetric]
      by (auto simp: selection_of_def select_commit_def)
  next
    case None
    with t have "sel2 = sel1" "st2 = st1" by (simp_all add: testing_part_def)
    with None m ne show ?thesis
      unfolding upd selection_spec_def Let_def main(1) [symmetric]
      by (auto simp: main_part_def selection_of_def split: option.splits)
  qed
qed

definition example_commit :: "string \<Rightarrow> commit" where
  "example_commit msg = \<lparr>cm_Message = msg, cm_PGPSignature = [], cm_Encoded = Inr [], cm_Verify = (\<lambda>k. None)\<rparr>"

text \<open>A repository with the history a, b, c: the main branch is at b and the testing branch at c.\<close>

definition example_repo :: gitrepo where
  "example_repo = \<lparr>gr_Reference = (\<lambda>n. if n = ''refs/remotes/origin/main'' then Some ''b''
       else if n = ''refs/remotes/origin/testing'' then Some ''c'' else None),
     gr_CommitObject = (\<lambda>h. if h \<in> {''a'', ''b'', ''c''} then Inr (example_commit h) else Inl ''object not found''),
     gr_Log = (\<lambda>h. if h = ''b'' then Inr [''b'', ''a''] else if h = ''c'' then Inr [''c'', ''b'', ''a''] else Inl ''no''),
     gr_Remote = (\<lambda>n. Inr [''url''])\<rparr>"

definition example_genv :: genv where
  "example_genv = \<lparr>gv_NewHash = (\<lambda>s. s), gv_sig = example_sigenv, gv_now = (\<lambda>_. 0),
     gv_NewPublicKeysFromFile = (\<lambda>_ _. None), gv_NewKnownHostsCallback = (\<lambda>_. None),
     gv_FetchContext = (\<lambda>_ _ _ r. (NewCommits, r)), gv_ReadFile = (\<lambda>p. Inl p),
     gv_ReadArmoredKeyRing = (\<lambda>_. None), gv_PlainOpen = (\<lambda>_. Inr example_repo),
     gv_IsBare = (\<lambda>_. Some True), gv_PlainInit = (\<lambda>_ _. Inr example_repo),
     gv_PlainReopen = (\<lambda>_ _. Inr example_repo), gv_CreateRemote = (\<lambda>_ _ r. Inr r),
     gv_DeleteRemote = (\<lambda>_ r. Inr r)\<rparr>"

definition example_repository :: repository where
  "example_repository = \<lparr>rp_Repository = example_repo,
     rp_GitConfig = \<lparr>gc_Path = ''/r'', gc_Dir = ''.'', gc_Remotes = [example_remote], gc_GpgPublicKeyPaths = [],
       gc_SshAllowedSignersPath = [], gc_Submodules = False\<rparr>,
     rp_RepositoryStatus = NewGitRepositoryStatus \<lparr>gc_Path = ''/r'', gc_Dir = ''.'', gc_Remotes = [example_remote],
       gc_GpgPublicKeyPaths = [], gc_SshAllowedSignersPath = [], gc_Submodules = False\<rparr> ''a'',
     rp_prometheus = prometheus_New, rp_gpgPubliKeys = [], rp_sshAllowedSigners = []\<rparr>"

lemma example_hashes_ok: "hashes_ok (rp_Repository example_repository)"
  by (simp add: hashes_ok_def example_repository_def example_repo_def)

lemma example_heads:
  "main_heads example_genv example_repo ''a'' (rs_Remotes (rp_RepositoryStatus example_repository)) =
     [(hd (rs_Remotes (rp_RepositoryStatus example_repository)), ''b'')]"
  "testing_heads example_genv example_repo ''b'' (rs_Remotes (rp_RepositoryStatus example_repository)) =
     [(hd (rs_Remotes (rp_RepositoryStatus example_repository)), ''c'')]"
  by (simp_all add: main_heads_def testing_heads_def example_repository_def NewGitRepositoryStatus_def
      GitRepositoryStatus0_def Remote0_def Branch0_def example_remote_def getHeadFromRemoteAndBranch_def
      getRemoteCommitHash_def hasNotBeenHardReset_def isAncestor_def example_genv_def example_repo_def
      example_commit_def)

theorem update_selects_witness:
  "se_main (selection_of (rp_RepositoryStatus (Update example_genv (\<lambda>_. []) example_repository))) = ''b'' \<and>
   se_commit (selection_of (rp_RepositoryStatus (Update example_genv (\<lambda>_. []) example_repository))) = ''c''"
proof -
  have "rs_MainCommitId (rp_RepositoryStatus example_repository) = ''a''"
    "rp_Repository example_repository = example_repo"
    by (simp_all add: example_repository_def NewGitRepositoryStatus_def)
  then show ?thesis
    unfolding update_selects [OF example_hashes_ok] selection_spec_def
    by (simp add: example_heads chosen_main_def)
qed

section \<open>The selection only moves forward\<close>

text \<open>
  Property C7. A branch that has been hard reset is never deployed: an update keeps the main commit or
  replaces it by a commit that has it in its history, and the commit it selects is the main commit
  or has the main commit in its history; otherwise the selection is the one before.
\<close>

theorem selection_fast_forward:
  assumes "hashes_ok (rp_Repository r)"
    and "s = selection_of (rp_RepositoryStatus r)"
    and "s' = selection_of (rp_RepositoryStatus (Update V errString r))"
  shows "(se_main s' = se_main s \<or> descends V (rp_Repository r) (se_main s) (se_main s')) \<and>
    (s' = s \<or> se_commit s' = se_main s' \<or> descends V (rp_Repository r) (se_main s') (se_commit s'))"
proof -
  let ?rs = "rp_RepositoryStatus r" and ?g = "rp_Repository r"
  let ?choice = "chosen_main (rs_MainCommitId ?rs) (main_heads V ?g (rs_MainCommitId ?rs) (rs_Remotes ?rs))"
  let ?main = "case ?choice of None \<Rightarrow> rs_MainCommitId ?rs | Some (_, h) \<Rightarrow> h"
  have main: "?main = rs_MainCommitId ?rs \<or> descends V ?g (rs_MainCommitId ?rs) ?main"
  proof (cases ?choice)
    case (Some c)
    obtain x h where c: "c = (x, h)" by fastforce
    with Some show ?thesis
      using main_heads_member [OF chosen_main_member [of _ _ "(x, h)"]] by (auto simp: getHead_iff)
  qed simp
  show ?thesis
  proof (cases "find_first (\<lambda>c. snd c \<noteq> ?main) (testing_heads V ?g ?main (rs_Remotes ?rs))")
    case None
    then show ?thesis
      using main assms(2) unfolding assms(3) update_selects [OF assms(1)] selection_spec_def Let_def
      by (auto simp: selection_of_def split: option.splits)
  next
    case (Some c)
    obtain x h where c: "c = (x, h)" by fastforce
    with Some have "(x, h) \<in> set (testing_heads V ?g ?main (rs_Remotes ?rs))" by (auto dest: find_first_Some)
    from testing_heads_member [OF this] have "descends V ?g ?main h" by (auto simp: getHead_iff)
    with main Some c show ?thesis
      unfolding assms(2,3) update_selects [OF assms(1)] selection_spec_def Let_def
      by (simp add: selection_of_def)
  qed
qed

theorem selection_fast_forward_witness:
  "descends example_genv example_repo ''b'' ''c'' \<and>
   (let s' = selection_of (rp_RepositoryStatus (Update example_genv (\<lambda>_. []) example_repository)) in
    s' = selection_of (rp_RepositoryStatus example_repository) \<or> se_commit s' = se_main s' \<or>
    descends example_genv example_repo (se_main s') (se_commit s'))"
proof -
  have "rp_Repository example_repository = example_repo" by (simp add: example_repository_def)
  then show ?thesis
    using selection_fast_forward [OF example_hashes_ok refl refl, of example_genv "\<lambda>_. []"]
    by (simp add: Let_def descends_def example_genv_def example_repo_def)
qed

section \<open>Signatures\<close>

definition keys_configured :: "repository \<Rightarrow> bool" where
  "keys_configured r \<longleftrightarrow> rp_gpgPubliKeys r \<noteq> [] \<or> rp_sshAllowedSigners r \<noteq> []"

text \<open>The commit is signed by a configured key, in the sense of \<open>commit_trusted_iff\<close>.\<close>

definition trusted :: "genv \<Rightarrow> repository \<Rightarrow> string \<Rightarrow> bool" where
  "trusted V r commitId \<longleftrightarrow> (\<exists>c. gr_CommitObject (rp_Repository r) (gv_NewHash V commitId) = Inr c \<and>
     ((\<exists>k \<in> set (rp_gpgPubliKeys r). cm_Verify c k \<noteq> None) \<or>
      (\<exists>s \<in> set (rp_sshAllowedSigners r). ssh_signed_by (gv_sig V) c s)))"

text \<open>The hash of the empty string is the zero hash, which no commit has.\<close>

definition no_zero_commit :: "genv \<Rightarrow> gitrepo \<Rightarrow> bool" where
  "no_zero_commit V g \<longleftrightarrow> (\<exists>e. gr_CommitObject g (gv_NewHash V []) = Inl e)"

lemma signed_trusted:
  "commitSignedBy (gv_sig V) (\<lambda>id. gr_CommitObject (rp_Repository r) (gv_NewHash V id)) commitId
     (rp_gpgPubliKeys r) (rp_sshAllowedSigners r) = Inr name \<Longrightarrow> trusted V r commitId"
  unfolding trusted_def
  using commit_trusted [of "gv_sig V" "\<lambda>id. gr_CommitObject (rp_Repository r) (gv_NewHash V id)" commitId] by blast

lemma Update_final:
  obtains selected rs where
    "rp_RepositoryStatus (Update V es r) = check_signature V es selected r rs"
    "selected \<noteq> [] \<longrightarrow> rs_SelectedCommitId rs = selected"
proof -
  let ?rs = "rp_RepositoryStatus r" and ?g = "rp_Repository r"
  obtain rs1 sel1 st1 where l1: "main_loop V ?g (rs_Remotes ?rs) [] ?rs = (rs1, sel1, st1)" by (meson prod_cases3)
  obtain rs2 sel2 st2 where l2: "testing_loop V ?g rs1 sel1 st1 = (rs2, sel2, st2)" by (meson prod_cases3)
  show thesis
    by (rule that [of sel2 "if sel2 \<noteq> [] then st2\<lparr>rs_Remotes := rs2, rs_SelectedCommitId := sel2\<rparr>
          else st2\<lparr>rs_Remotes := rs2\<rparr>"])
      (simp_all add: Update_def l1 l2)
qed

lemma signed_status_ok:
  assumes "no_zero_commit V (rp_Repository r)" and "keys_configured r"
  shows "GetValue (rs_SelectedCommitShouldBeSigned (rp_RepositoryStatus (Update V errString r))) \<and>
    (GetValue (rs_SelectedCommitSigned (rp_RepositoryStatus (Update V errString r))) \<longrightarrow>
     trusted V r (rs_SelectedCommitId (rp_RepositoryStatus (Update V errString r))))"
proof -
  obtain selected rs where u: "rp_RepositoryStatus (Update V errString r) = check_signature V errString selected r rs"
    and sel: "selected \<noteq> [] \<longrightarrow> rs_SelectedCommitId rs = selected"
    by (rule Update_final)
  let ?res = "commitSignedBy (gv_sig V) (\<lambda>id. gr_CommitObject (rp_Repository r) (gv_NewHash V id)) selected
     (rp_gpgPubliKeys r) (rp_sshAllowedSigners r)"
  have cs: "GetValue (rs_SelectedCommitShouldBeSigned (check_signature V errString selected r rs))"
    "GetValue (rs_SelectedCommitSigned (check_signature V errString selected r rs)) \<longleftrightarrow> (\<exists>name. ?res = Inr name \<and> name \<noteq> [])"
    "rs_SelectedCommitId (check_signature V errString selected r rs) = rs_SelectedCommitId rs"
    using assms(2) by (auto simp: check_signature_def keys_configured_def Let_def split: sum.splits)
  have "trusted V r selected \<and> selected \<noteq> []" if "?res = Inr name" for name
    using signed_trusted [OF that] assms(1) by (auto simp: trusted_def no_zero_commit_def)
  with cs sel show ?thesis unfolding u by auto
qed

lemma trusted_Update [simp]: "trusted V (Update V' es r) c = trusted V r c"
  by (simp add: trusted_def Update_def Let_def case_prod_unfold)

lemma fetch_loop_keys:
  "fetch_loop V names i remotes r = Some r' \<Longrightarrow>
     rp_gpgPubliKeys r' = rp_gpgPubliKeys r \<and> rp_sshAllowedSigners r' = rp_sshAllowedSigners r"
  by (induction remotes arbitrary: i r)
    (auto simp: fetch_remote_def Let_def case_prod_unfold split: option.splits if_splits)

lemma Fetch_keys: "Fetch V names r = Some r' \<Longrightarrow> keys_configured r' = keys_configured r"
  by (auto simp: Fetch_def keys_configured_def dest!: fetch_loop_keys)

text \<open>
  When keys are configured, an update says that the selected commit should be signed, and
  it says that it is signed only when the commit it selected is signed by a configured key: in
  particular never because of a commit selected by an earlier update.
\<close>

theorem signed_status_sound:
  assumes "no_zero_commit V (rp_Repository r)" and "keys_configured r"
  shows "GetValue (rs_SelectedCommitShouldBeSigned (rp_RepositoryStatus (Update V errString r))) \<and>
    (GetValue (rs_SelectedCommitSigned (rp_RepositoryStatus (Update V errString r))) \<longrightarrow>
     trusted V r (rs_SelectedCommitId (rp_RepositoryStatus (Update V errString r))))"
  using assms by (rule signed_status_ok)

definition example_signed_repository :: repository where
  "example_signed_repository = example_repository\<lparr>rp_sshAllowedSigners := [example_signer]\<rparr>"

theorem signed_status_sound_witness:
  "GetValue (rs_SelectedCommitShouldBeSigned
     (rp_RepositoryStatus (Update example_genv (\<lambda>_. []) example_signed_repository)))"
proof -
  have "no_zero_commit example_genv (rp_Repository example_signed_repository)"
    "keys_configured example_signed_repository"
    by (simp_all add: no_zero_commit_def keys_configured_def example_signed_repository_def
        example_repository_def example_repo_def example_genv_def)
  from signed_status_sound [OF this] show ?thesis by blast
qed

section \<open>Fetching is total\<close>

text \<open>The remotes of the status are the configured ones.\<close>

definition repository_wf :: "repository \<Rightarrow> bool" where
  "repository_wf r \<longleftrightarrow> map rm_Name (rs_Remotes (rp_RepositoryStatus r)) = map cr_Name (gc_Remotes (rp_GitConfig r))"

definition unrequested :: "string list \<Rightarrow> repository \<Rightarrow> Remote option list" where
  "unrequested names r = map (\<lambda>x. if rm_Name x \<in> set names then None else Some x) (rs_Remotes (rp_RepositoryStatus r))"

lemma record_fetch_name [simp]: "rm_Name (record_fetch now err x) = rm_Name x"
  by (simp add: record_fetch_def split: option.split)

lemma unrequested_upd:
  "n \<in> set names \<Longrightarrow>
     map (\<lambda>x. if rm_Name x \<in> set names then None else Some x) (upd_first (\<lambda>x. rm_Name x = n) (record_fetch now err) xs) =
     map (\<lambda>x. if rm_Name x \<in> set names then None else Some x) xs"
  by (induction xs) auto

lemma fetch_remote_ok:
  assumes "cr_Name remote \<in> rm_Name ` set (rs_Remotes (rp_RepositoryStatus r))"
  obtains r' where "fetch_remote V names i remote r = Some r'" and "rp_GitConfig r' = rp_GitConfig r"
    and "map rm_Name (rs_Remotes (rp_RepositoryStatus r')) = map rm_Name (rs_Remotes (rp_RepositoryStatus r))"
    and "unrequested names r' = unrequested names r"
proof -
  have "GetRemote (cr_Name remote) (rs_Remotes (rp_RepositoryStatus r)) \<noteq> None"
    using assms by (auto simp: GetRemote_def find_first_None)
  then obtain x where x: "GetRemote (cr_Name remote) (rs_Remotes (rp_RepositoryStatus r)) = Some x" by blast
  show thesis
    by (rule that [of "the (fetch_remote V names i remote r)"])
      (simp_all add: fetch_remote_def x unrequested_def unrequested_upd Let_def case_prod_unfold map_upd_first)
qed

lemma fetch_loop_ok:
  "cr_Name ` set remotes \<subseteq> rm_Name ` set (rs_Remotes (rp_RepositoryStatus r)) \<Longrightarrow>
     \<exists>r'. fetch_loop V names i remotes r = Some r' \<and> rp_GitConfig r' = rp_GitConfig r \<and>
       map rm_Name (rs_Remotes (rp_RepositoryStatus r')) = map rm_Name (rs_Remotes (rp_RepositoryStatus r)) \<and>
       unrequested names r' = unrequested names r"
proof (induction remotes arbitrary: i r)
  case (Cons remote remotes)
  from Cons.prems have "cr_Name remote \<in> rm_Name ` set (rs_Remotes (rp_RepositoryStatus r))" by simp
  then obtain r1 where r1: "fetch_remote V names i remote r = Some r1" "rp_GitConfig r1 = rp_GitConfig r"
    "map rm_Name (rs_Remotes (rp_RepositoryStatus r1)) = map rm_Name (rs_Remotes (rp_RepositoryStatus r))"
    "unrequested names r1 = unrequested names r"
    by (rule fetch_remote_ok)
  have "cr_Name ` set remotes \<subseteq> rm_Name ` set (rs_Remotes (rp_RepositoryStatus r1))"
    using Cons.prems arg_cong [OF r1(3), of set] by simp
  from Cons.IH [OF this, of "Suc i"] r1 show ?case by auto
qed simp

lemma main_loop_names: "map rm_Name (fst (main_loop V g rs selected st)) = map rm_Name rs"
  using arg_cong [OF main_loop_view [of V g rs selected st], of "map fst"]
  by (simp add: testing_view_def [abs_def] comp_def)

lemma testing_loop_names: "map rm_Name (fst (testing_loop V g rs selected st)) = map rm_Name rs"
  by (induction rs arbitrary: selected st) (simp_all add: Let_def case_prod_unfold split: sum.split)

lemma Update_frame:
  "rp_GitConfig (Update V es r) = rp_GitConfig r" "rp_Repository (Update V es r) = rp_Repository r"
  "rp_gpgPubliKeys (Update V es r) = rp_gpgPubliKeys r" "rp_sshAllowedSigners (Update V es r) = rp_sshAllowedSigners r"
  by (simp_all add: Update_def Let_def case_prod_unfold)

lemma Update_names:
  "map rm_Name (rs_Remotes (rp_RepositoryStatus (Update V es r))) = map rm_Name (rs_Remotes (rp_RepositoryStatus r))"
proof -
  let ?rs = "rp_RepositoryStatus r" and ?g = "rp_Repository r"
  obtain rs1 sel1 st1 where l1: "main_loop V ?g (rs_Remotes ?rs) [] ?rs = (rs1, sel1, st1)" by (meson prod_cases3)
  obtain rs2 sel2 st2 where l2: "testing_loop V ?g rs1 sel1 st1 = (rs2, sel2, st2)" by (meson prod_cases3)
  have "map rm_Name rs2 = map rm_Name (rs_Remotes ?rs)"
    using main_loop_names [of V ?g "rs_Remotes ?rs" "[]" ?rs] testing_loop_names [of V ?g rs1 sel1 st1] l1 l2 by simp
  then show ?thesis by (simp add: Update_def l1 l2 Let_def)
qed

lemma repository_New_wf: "repository_New V config main p = Inr r \<Longrightarrow> repository_wf r"
  by (auto simp: repository_New_def repository_wf_def NewGitRepositoryStatus_def split: sum.splits)

lemma fetch_total_ok:
  assumes "repository_wf r"
  shows "\<exists>r1. Fetch V names r = Some r1 \<and> unrequested names r1 = unrequested names r \<and>
    rp_GitConfig r1 = rp_GitConfig r \<and> repository_wf r1"
proof -
  let ?r = "r\<lparr>rp_RepositoryStatus := (rp_RepositoryStatus r)\<lparr>rs_ErrorMsg := []\<rparr>\<rparr>"
  have "cr_Name ` set (gc_Remotes (rp_GitConfig r)) \<subseteq> rm_Name ` set (rs_Remotes (rp_RepositoryStatus ?r))"
    using arg_cong [OF assms [unfolded repository_wf_def], of set] by simp
  from fetch_loop_ok [OF this, of V names 0] assms show ?thesis
    by (auto simp: Fetch_def unrequested_def repository_wf_def)
qed

lemma fetch_total_wf:
  assumes "repository_wf r"
  shows "\<exists>r'. FetchAndUpdate V errString names r = Some (rp_RepositoryStatus r', r') \<and> repository_wf r'"
  using fetch_total_ok [OF assms, of V names]
  by (auto simp: FetchAndUpdate_def Let_def repository_wf_def Update_names Update_frame)

text \<open>
  Property C37. A fetch of any list of names on a repository as \<open>New\<close> creates it ends with a status and
  without a panic, leaves the repository in such a state, and touches none of the remotes that were
  not requested before the update of the selection.
\<close>

theorem fetch_total:
  assumes "repository_wf r"
  shows "\<exists>r1 r2. Fetch V names r = Some r1 \<and> unrequested names r1 = unrequested names r \<and>
    FetchAndUpdate V errString names r = Some (rp_RepositoryStatus r2, r2) \<and> r2 = Update V errString r1 \<and>
    repository_wf r2"
  using fetch_total_ok [OF assms, of V names]
  by (auto simp: FetchAndUpdate_def Let_def repository_wf_def Update_names Update_frame)

theorem fetch_total_witness:
  "\<exists>r1. Fetch example_genv [''origin''] example_repository = Some r1 \<and>
     unrequested [''origin''] r1 = unrequested [''origin''] example_repository"
proof -
  have "repository_wf example_repository"
    by (simp add: repository_wf_def example_repository_def NewGitRepositoryStatus_def)
  from fetch_total [OF this, of example_genv "[''origin'']"] show ?thesis by blast
qed

section \<open>What the metrics say of a failed fetch\<close>

lemma fetched_stays:
  "fetch_remote V names i remote r = Some r' \<Longrightarrow>
     list_all2 (\<lambda>x y. rm_Name y = rm_Name x \<and> (GetValue (rm_Fetched x) \<longrightarrow> GetValue (rm_Fetched y)))
       (rs_Remotes (rp_RepositoryStatus r)) (rs_Remotes (rp_RepositoryStatus r'))"
proof -
  have upd: "list_all2 (\<lambda>x y. rm_Name y = rm_Name x \<and> (GetValue (rm_Fetched x) \<longrightarrow> GetValue (rm_Fetched y)))
      xs (upd_first P (record_fetch now err) xs)" for P now err xs
    by (induction xs) (auto simp: list_all2_refl record_fetch_def split: option.splits)
  assume "fetch_remote V names i remote r = Some r'"
  then show ?thesis
    by (auto simp: fetch_remote_def Let_def case_prod_unfold upd list_all2_refl split: if_splits option.splits)
qed

end
