(* ===== verification/Fetcher.thy ===== *)
theory Fetcher
  imports Repository_Correct
begin

text \<open>
  The fetcher (\<open>internal/fetcher/git.go\<close>) and the scheduler that triggers it
  (\<open>internal/scheduler/scheduler.go\<close>). The state is the struct together with the local variables of
  the loop of \<open>Start\<close>: the requested remotes and the worker \<open>FetchAndUpdate\<close> has started, with the
  names it fetches. \<open>fetcher_submit\<close> and \<open>fetcher_receive\<close> are the two cases of the select, each
  followed by the end of the loop body (\<open>fetcher_launch\<close>); \<open>fetcher_work\<close> is the goroutine of the
  worker.
\<close>

section \<open>State and operations\<close>

datatype worker =
    NoWorker
  | Working "string list"
  | Sending "string list" GitRepositoryStatus
  | WorkerPanicked

record fetcher =
  ft_isFetching :: bool
  ft_repositoryStatus :: GitRepositoryStatus
  ft_repo :: repository
  ft_remotes :: "string list"
  ft_worker :: worker
  ft_published :: "Event list"

definition NewGitFetcher :: "repository \<Rightarrow> fetcher" where
  "NewGitFetcher r = \<lparr>ft_isFetching = False, ft_repositoryStatus = rp_RepositoryStatus r, ft_repo = r,
     ft_remotes = [], ft_worker = NoWorker, ft_published = []\<rparr>"

definition fetcher_GetState :: "fetcher \<Rightarrow> pbFetcher" where
  "fetcher_GetState f = \<lparr>pf_IsFetching = Some (ft_isFetching f),
     pf_GitRepositoryStatus = Some (rp_RepositoryStatus (ft_repo f))\<rparr>"

fun union :: "string list \<Rightarrow> string list \<Rightarrow> string list" where
  "union array1 [] = array1"
| "union array1 (e2 # array2) = union (if e2 \<in> set array1 then array1 else array1 @ [e2]) array2"

definition fetcher_launch :: "fetcher \<Rightarrow> fetcher" where
  "fetcher_launch f =
     (if \<not> ft_isFetching f \<and> ft_remotes f \<noteq> []
      then f\<lparr>ft_isFetching := True, ft_worker := Working (ft_remotes f), ft_remotes := []\<rparr>
      else f)"

definition fetcher_submit :: "string list \<Rightarrow> fetcher \<Rightarrow> fetcher" where
  "fetcher_submit submittedRemotes f =
     fetcher_launch (f\<lparr>ft_remotes := union (ft_remotes f) submittedRemotes\<rparr>)"

definition fetcher_work :: "genv \<Rightarrow> (verify_error \<Rightarrow> string) \<Rightarrow> fetcher \<Rightarrow> fetcher option" where
  "fetcher_work V errString f =
     (case ft_worker f of
        Working names \<Rightarrow>
          (case FetchAndUpdate V errString names (ft_repo f) of
             None \<Rightarrow> Some (f\<lparr>ft_worker := WorkerPanicked\<rparr>)
           | Some (rs, r) \<Rightarrow> Some (f\<lparr>ft_repo := r, ft_worker := Sending names rs\<rparr>))
      | _ \<Rightarrow> None)"

definition is_updated :: "GitRepositoryStatus \<Rightarrow> GitRepositoryStatus \<Rightarrow> bool" where
  "is_updated rs known \<longleftrightarrow> rs_SelectedCommitId rs \<noteq> rs_SelectedCommitId known \<or>
     (rs_SelectedBranchIsTesting rs \<noteq> None \<and>
      GetValue (rs_SelectedBranchIsTesting rs) \<noteq> GetValue (rs_SelectedBranchIsTesting known))"

definition is_verified :: "GitRepositoryStatus \<Rightarrow> bool" where
  "is_verified rs \<longleftrightarrow> \<not> GetValue (rs_SelectedCommitShouldBeSigned rs) \<or> GetValue (rs_SelectedCommitSigned rs)"

definition fetched_event :: "time \<Rightarrow> GitRepositoryStatus \<Rightarrow> GitRepositoryStatus \<Rightarrow> Event" where
  "fetched_event now rs known = mk_event (Event_Fetched (is_updated rs known) (is_verified rs) (Some rs)) now"

definition fetcher_receive :: "time \<Rightarrow> fetcher \<Rightarrow> fetcher option" where
  "fetcher_receive now f =
     (case ft_worker f of
        Sending names rs \<Rightarrow>
          Some (fetcher_launch (f\<lparr>ft_isFetching := False, ft_worker := NoWorker,
            ft_repositoryStatus := (if is_updated rs (ft_repositoryStatus f) then rs else ft_repositoryStatus f),
            ft_published := ft_published f @ [fetched_event now rs (ft_repositoryStatus f)]\<rparr>))
      | _ \<Rightarrow> None)"

text \<open>The periodic jobs: name, period in nanoseconds (a 64 bit duration) and the remotes it submits.\<close>

definition to_int64 :: "int \<Rightarrow> int" where
  "to_int64 n = (n + 2 ^ 63) mod 2 ^ 64 - 2 ^ 63"

type_synonym job = "string \<times> int \<times> string list"

definition scheduler_New :: "job list" where
  "scheduler_New = []"

definition FetchRemotes :: "cfg_Remote list \<Rightarrow> job list" where
  "FetchRemotes remotes = map (\<lambda>r. (''fetch-remote-'' @ cr_Name r,
       to_int64 (po_Period (cr_Poller r) * 10 ^ 9), [cr_Name r]))
     (filter (\<lambda>r. po_Period (cr_Poller r) \<noteq> 0) remotes)"

text \<open>What a job does each time it runs: \<open>TriggerFetch\<close> sends its remotes to the loop of the fetcher.\<close>

definition job_task :: "job \<Rightarrow> fetcher \<Rightarrow> fetcher" where
  "job_task j f = (case j of (name, period, remotes) \<Rightarrow> fetcher_submit remotes f)"

inductive fetcher_step :: "fetcher \<Rightarrow> fetcher \<Rightarrow> bool" where
  fs_submit: "fetcher_step f (fetcher_submit xs f)"
| fs_work: "fetcher_work V errString f = Some f' \<Longrightarrow> fetcher_step f f'"
| fs_receive: "fetcher_receive now f = Some f' \<Longrightarrow> fetcher_step f f'"

definition fetcher_init :: "fetcher \<Rightarrow> bool" where
  "fetcher_init f \<longleftrightarrow> (\<exists>r. repository_wf r \<and> f = NewGitFetcher r)"

section \<open>Invariant\<close>

fun worker_ok :: "string list \<Rightarrow> GitRepositoryStatus \<Rightarrow> worker \<Rightarrow> bool" where
  "worker_ok remotes status NoWorker = (remotes = [])"
| "worker_ok remotes status (Working names) = (names \<noteq> [] \<and> distinct names)"
| "worker_ok remotes status (Sending names rs) = (names \<noteq> [] \<and> rs = status)"
| "worker_ok remotes status WorkerPanicked = False"

definition fetcher_inv :: "fetcher \<Rightarrow> bool" where
  "fetcher_inv f \<longleftrightarrow> repository_wf (ft_repo f) \<and> distinct (ft_remotes f) \<and>
     (ft_isFetching f \<longleftrightarrow> ft_worker f \<noteq> NoWorker) \<and>
     worker_ok (ft_remotes f) (rp_RepositoryStatus (ft_repo f)) (ft_worker f)"

lemma worker_ok_busy: "w \<noteq> NoWorker \<Longrightarrow> worker_ok remotes status w = worker_ok remotes' status w"
  by (cases w) auto

lemma set_union: "set (union xs ys) = set xs \<union> set ys"
  by (induction xs ys rule: union.induct) auto

text \<open>Each run of the job of a remote with a period requests that remote, and no other one.\<close>

lemma polled_remote_requested:
  assumes "r \<in> set remotes" and "po_Period (cr_Poller r) \<noteq> 0"
  shows "\<exists>j \<in> set (FetchRemotes remotes). \<forall>f. cr_Name r \<in> set (ft_remotes (job_task j f)) \<or>
    (\<exists>names. ft_worker (job_task j f) = Working names \<and> cr_Name r \<in> set names)"
proof -
  let ?j = "(''fetch-remote-'' @ cr_Name r, to_int64 (po_Period (cr_Poller r) * 10 ^ 9), [cr_Name r])"
  have "cr_Name r \<in> set (ft_remotes (job_task ?j f)) \<or>
      (\<exists>names. ft_worker (job_task ?j f) = Working names \<and> cr_Name r \<in> set names)" for f
    by (auto simp: job_task_def fetcher_submit_def fetcher_launch_def set_union)
  moreover have "?j \<in> set (FetchRemotes remotes)" using assms by (auto simp: FetchRemotes_def)
  ultimately show ?thesis by blast
qed

lemma jobs_of_remotes: "j \<in> set (FetchRemotes remotes) \<Longrightarrow> \<exists>r \<in> set remotes. snd (snd j) = [cr_Name r] \<and> po_Period (cr_Poller r) \<noteq> 0"
  by (auto simp: FetchRemotes_def)

lemma distinct_union: "distinct xs \<Longrightarrow> distinct (union xs ys)"
  by (induction xs ys rule: union.induct) auto

lemma fetcher_launch_idle:
  "repository_wf (ft_repo f) \<Longrightarrow> distinct (ft_remotes f) \<Longrightarrow> \<not> ft_isFetching f \<Longrightarrow> ft_worker f = NoWorker \<Longrightarrow>
     fetcher_inv (fetcher_launch f)"
  by (simp add: fetcher_launch_def fetcher_inv_def)

lemma fetcher_launch_busy: "ft_isFetching f \<Longrightarrow> fetcher_launch f = f"
  by (simp add: fetcher_launch_def)

lemma fetcher_submit_inv: "fetcher_inv f \<Longrightarrow> fetcher_inv (fetcher_submit xs f)"
proof (cases "ft_worker f = NoWorker")
  case True
  assume "fetcher_inv f"
  with True show ?thesis
    unfolding fetcher_submit_def by (intro fetcher_launch_idle) (simp_all add: fetcher_inv_def distinct_union)
next
  case False
  assume "fetcher_inv f"
  with False show ?thesis
    using worker_ok_busy [OF False, of "union (ft_remotes f) xs" _ "ft_remotes f"]
    by (simp add: fetcher_submit_def fetcher_launch_busy fetcher_inv_def distinct_union)
qed

lemma fetcher_work_total:
  assumes "fetcher_inv f" and "ft_worker f = Working names"
  obtains r where "FetchAndUpdate V es names (ft_repo f) = Some (rp_RepositoryStatus r, r)" and "repository_wf r"
    and "fetcher_work V es f = Some (f\<lparr>ft_repo := r, ft_worker := Sending names (rp_RepositoryStatus r)\<rparr>)"
proof -
  have "repository_wf (ft_repo f)" using assms(1) by (simp add: fetcher_inv_def)
  from fetch_total_wf [OF this, of V es names] obtain r where
    "FetchAndUpdate V es names (ft_repo f) = Some (rp_RepositoryStatus r, r)" "repository_wf r" by blast
  with assms(2) that show thesis by (simp add: fetcher_work_def)
qed

lemma fetcher_work_inv:
  assumes "fetcher_inv f" and "fetcher_work V es f = Some f'"
  shows "fetcher_inv f'"
proof -
  obtain names where w: "ft_worker f = Working names"
    using assms(2) by (auto simp: fetcher_work_def split: worker.splits)
  obtain r where "repository_wf r" "f' = f\<lparr>ft_repo := r, ft_worker := Sending names (rp_RepositoryStatus r)\<rparr>"
    using fetcher_work_total [OF assms(1) w, of V es] assms(2) by auto
  with assms(1) w show ?thesis by (simp add: fetcher_inv_def)
qed

lemma fetcher_receive_inv: "fetcher_inv f \<Longrightarrow> fetcher_receive now f = Some f' \<Longrightarrow> fetcher_inv f'"
  by (cases "ft_worker f") (auto simp: fetcher_receive_def fetcher_inv_def [of f] intro!: fetcher_launch_idle)

interpretation fetcher_runs: invariant_of fetcher_init fetcher_step fetcher_inv
proof
  show "fetcher_inv f" if "fetcher_init f" for f
    using that by (auto simp: fetcher_init_def NewGitFetcher_def fetcher_inv_def)
  show "fetcher_inv f'" if "fetcher_inv f" and "fetcher_step f f'" for f f'
    using that(2,1) by cases (auto intro: fetcher_submit_inv fetcher_work_inv fetcher_receive_inv)
qed

section \<open>Refinement of a set of requests\<close>

text \<open>
  The contract of the fetcher, without lists and flags: the set of remotes that are requested and the
  set that is being fetched. A fetch starts as soon as none runs and something is requested, with
  everything that is requested.
\<close>

record requests =
  rq_pending :: "string set"
  rq_inflight :: "string set option"

definition spec_launch :: "requests \<Rightarrow> requests" where
  "spec_launch s = (if rq_inflight s = None \<and> rq_pending s \<noteq> {}
     then \<lparr>rq_pending = {}, rq_inflight = Some (rq_pending s)\<rparr> else s)"

definition spec_submit :: "string set \<Rightarrow> requests \<Rightarrow> requests" where
  "spec_submit X s = spec_launch (s\<lparr>rq_pending := rq_pending s \<union> X\<rparr>)"

definition spec_done :: "requests \<Rightarrow> requests" where
  "spec_done s = spec_launch (s\<lparr>rq_inflight := None\<rparr>)"

fun worker_names :: "worker \<Rightarrow> string set option" where
  "worker_names (Working names) = Some (set names)"
| "worker_names (Sending names rs) = Some (set names)"
| "worker_names _ = None"

definition abs_fetcher :: "fetcher \<Rightarrow> requests" where
  "abs_fetcher f = \<lparr>rq_pending = set (ft_remotes f), rq_inflight = worker_names (ft_worker f)\<rparr>"

lemma abs_launch:
  "(ft_isFetching f \<longleftrightarrow> worker_names (ft_worker f) \<noteq> None) \<Longrightarrow>
     abs_fetcher (fetcher_launch f) = spec_launch (abs_fetcher f)"
  by (auto simp: fetcher_launch_def abs_fetcher_def spec_launch_def)

lemma worker_names_inv: "fetcher_inv f \<Longrightarrow> ft_isFetching f \<longleftrightarrow> worker_names (ft_worker f) \<noteq> None"
  by (cases "ft_worker f") (auto simp: fetcher_inv_def)

lemma abs_submit: "fetcher_inv f \<Longrightarrow> abs_fetcher (fetcher_submit xs f) = spec_submit (set xs) (abs_fetcher f)"
  using worker_names_inv [of f]
  by (simp add: fetcher_submit_def abs_launch spec_submit_def) (simp add: abs_fetcher_def set_union)

lemma abs_work: "fetcher_inv f \<Longrightarrow> fetcher_work V errString f = Some f1 \<Longrightarrow> abs_fetcher f1 = abs_fetcher f"
  using fetcher_work_inv [of f V errString f1]
  by (auto simp: fetcher_work_def abs_fetcher_def fetcher_inv_def split: worker.splits option.splits)

lemma abs_receive:
  assumes "fetcher_receive now f = Some f2"
  shows "abs_fetcher f2 = spec_done (abs_fetcher f)"
proof -
  obtain names rs where w: "ft_worker f = Sending names rs"
    using assms by (auto simp: fetcher_receive_def split: worker.splits)
  let ?g = "f\<lparr>ft_isFetching := False, ft_worker := NoWorker,
      ft_repositoryStatus := (if is_updated rs (ft_repositoryStatus f) then rs else ft_repositoryStatus f),
      ft_published := ft_published f @ [fetched_event now rs (ft_repositoryStatus f)]\<rparr>"
  have "f2 = fetcher_launch ?g" using assms w by (simp add: fetcher_receive_def)
  moreover have "abs_fetcher (fetcher_launch ?g) = spec_launch (abs_fetcher ?g)" by (rule abs_launch) simp
  ultimately show ?thesis by (simp add: spec_done_def abs_fetcher_def)
qed

text \<open>The requests as a system of their own, and what holds of it: nothing waits while no fetch runs.\<close>

inductive spec_step :: "requests \<Rightarrow> requests \<Rightarrow> bool" where
  spec_step_submit: "spec_step s (spec_submit X s)"
| spec_step_done: "rq_inflight s \<noteq> None \<Longrightarrow> spec_step s (spec_done s)"

definition spec_init :: "requests \<Rightarrow> bool" where
  "spec_init s \<longleftrightarrow> s = \<lparr>rq_pending = {}, rq_inflight = None\<rparr>"

definition spec_inv :: "requests \<Rightarrow> bool" where
  "spec_inv s \<longleftrightarrow> (rq_inflight s = None \<longrightarrow> rq_pending s = {}) \<and> rq_inflight s \<noteq> Some {}"

interpretation request_runs: invariant_of spec_init spec_step spec_inv
proof
  show "spec_inv s" if "spec_init s" for s using that by (simp add: spec_init_def spec_inv_def)
  show "spec_inv t" if "spec_inv s" "spec_step s t" for s t
    using that(2,1) by cases (auto simp: spec_inv_def spec_submit_def spec_done_def spec_launch_def)
qed

interpretation fetcher_sim: simulation fetcher_init fetcher_step fetcher_inv abs_fetcher spec_init spec_step
proof
  show "spec_init (abs_fetcher f)" if "fetcher_init f" for f
    using that by (auto simp: fetcher_init_def NewGitFetcher_def spec_init_def abs_fetcher_def)
  show "abs_fetcher f' = abs_fetcher f \<or> spec_step (abs_fetcher f) (abs_fetcher f')"
    if "fetcher_inv f" "fetcher_step f f'" for f f'
    using that(2)
  proof cases
    case (fs_submit xs)
    then show ?thesis using abs_submit [OF that(1)] by (simp add: spec_step_submit)
  next
    case (fs_work V errString)
    then show ?thesis using abs_work [OF that(1)] by simp
  next
    case (fs_receive now)
    moreover have "rq_inflight (abs_fetcher f) \<noteq> None"
      using fs_receive by (auto simp: fetcher_receive_def abs_fetcher_def split: worker.splits)
    ultimately show ?thesis using abs_receive spec_step_done by simp
  qed
qed

text \<open>
  Property C20. The fetcher refines a set of requests: in every reachable state a submission adds the
  submitted remotes to the requested ones, the end of a fetch removes the fetched ones, and in both
  cases the next fetch starts with everything requested as soon as no fetch is running; the work of
  the fetch itself changes neither. Every state of the fetcher is thus a state of the requests, and
  no request ever waits while no fetch is running.
\<close>

theorem fetcher_refines_requests:
  assumes "reachable fetcher_init fetcher_step f"
  shows "abs_fetcher (fetcher_submit xs f) = spec_submit (set xs) (abs_fetcher f) \<and>
    (fetcher_work V errString f = Some f1 \<longrightarrow> abs_fetcher f1 = abs_fetcher f) \<and>
    (fetcher_receive now f = Some f2 \<longrightarrow> abs_fetcher f2 = spec_done (abs_fetcher f)) \<and>
    reachable spec_init spec_step (abs_fetcher f) \<and> (\<not> ft_isFetching f \<longrightarrow> ft_remotes f = [])"
proof (intro conjI impI)
  have inv: "fetcher_inv f" using assms by (rule fetcher_runs.reachable_inv)
  show "abs_fetcher (fetcher_submit xs f) = spec_submit (set xs) (abs_fetcher f)" using inv by (rule abs_submit)
  show "abs_fetcher f1 = abs_fetcher f" if "fetcher_work V errString f = Some f1" using inv that by (rule abs_work)
  show "abs_fetcher f2 = spec_done (abs_fetcher f)" if "fetcher_receive now f = Some f2"
    using that by (rule abs_receive)
  show "reachable spec_init spec_step (abs_fetcher f)" using assms by (rule fetcher_sim.reachable_abs)
  have "spec_inv (abs_fetcher f)"
    using request_runs.invariant_of_axioms assms by (rule fetcher_sim.abstract_inv)
  then show "ft_remotes f = []" if "\<not> ft_isFetching f"
    using that worker_names_inv [OF inv] by (simp add: spec_inv_def abs_fetcher_def)
qed

definition example_fetcher :: fetcher where
  "example_fetcher = NewGitFetcher example_repository"

lemma example_fetcher_reachable: "reachable fetcher_init fetcher_step example_fetcher"
proof (rule reachable_init)
  have "repository_wf example_repository"
    by (simp add: repository_wf_def example_repository_def NewGitRepositoryStatus_def)
  then show "fetcher_init example_fetcher" unfolding fetcher_init_def example_fetcher_def by blast
qed

theorem fetcher_refines_requests_witness:
  "abs_fetcher (fetcher_submit [''origin'', ''origin''] example_fetcher) =
     \<lparr>rq_pending = {}, rq_inflight = Some {''origin''}\<rparr>"
proof -
  have "abs_fetcher example_fetcher = \<lparr>rq_pending = {}, rq_inflight = None\<rparr>"
    by (simp add: abs_fetcher_def example_fetcher_def NewGitFetcher_def)
  then show ?thesis
    using fetcher_refines_requests [OF example_fetcher_reachable, of "[''origin'', ''origin'']"]
    by (simp add: spec_submit_def spec_launch_def)
qed

section \<open>Requests are served\<close>

text \<open>The worker runs to its end and the loop receives the result.\<close>

definition fetcher_turn :: "genv \<Rightarrow> (verify_error \<Rightarrow> string) \<Rightarrow> time \<Rightarrow> fetcher \<Rightarrow> fetcher option" where
  "fetcher_turn V errString now f = (case fetcher_work V errString f of
     Some f' \<Rightarrow> fetcher_receive now f' | None \<Rightarrow> fetcher_receive now f)"

text \<open>
  Property C21. Every request is served: a requested remote is being fetched at once or, when a fetch
  is running, right after it. The running fetch always ends, its result is always received, and
  one event is published for it.
\<close>

theorem fetch_request_served:
  assumes "reachable fetcher_init fetcher_step f" and "x \<in> set xs"
  shows "(\<exists>X. rq_inflight (abs_fetcher (fetcher_submit xs f)) = Some X \<and> x \<in> X) \<or>
    (\<exists>f' X. fetcher_turn V errString now (fetcher_submit xs f) = Some f' \<and>
       length (ft_published f') = Suc (length (ft_published f)) \<and>
       rq_inflight (abs_fetcher f') = Some X \<and> x \<in> X)"
proof -
  have inv: "fetcher_inv f" using assms(1) by (rule fetcher_runs.reachable_inv)
  show ?thesis
  proof (cases "ft_worker f = NoWorker")
    case True
    then have "\<not> ft_isFetching f" using inv by (simp add: fetcher_inv_def)
    moreover have "x \<in> set (union (ft_remotes f) xs)" using assms(2) by (simp add: set_union)
    ultimately show ?thesis
      using True by (auto simp: fetcher_submit_def fetcher_launch_def abs_fetcher_def)
  next
    case busy: False
    let ?f = "f\<lparr>ft_remotes := union (ft_remotes f) xs\<rparr>"
    have sub: "fetcher_submit xs f = ?f"
      using inv busy by (simp add: fetcher_submit_def fetcher_inv_def fetcher_launch_busy)
    have inv': "fetcher_inv ?f" using fetcher_submit_inv [OF inv, of xs] by (simp add: sub)
    obtain g names rs where g: "fetcher_turn V errString now ?f = fetcher_receive now g"
      "ft_worker g = Sending names rs" "ft_remotes g = ft_remotes ?f" "ft_published g = ft_published f"
    proof (cases "ft_worker f")
      case (Working names)
      then have w: "ft_worker ?f = Working names" by simp
      obtain r where r: "fetcher_work V errString ?f =
          Some (?f\<lparr>ft_repo := r, ft_worker := Sending names (rp_RepositoryStatus r)\<rparr>)"
        using fetcher_work_total [OF inv' w, of V errString] by blast
      show thesis
        by (rule that [of "?f\<lparr>ft_repo := r, ft_worker := Sending names (rp_RepositoryStatus r)\<rparr>" names
              "rp_RepositoryStatus r"]) (simp_all add: fetcher_turn_def r)
    next
      case (Sending names rs)
      then show thesis by (intro that [of ?f names rs]) (simp_all add: fetcher_turn_def fetcher_work_def)
    qed (use busy inv in \<open>simp_all add: fetcher_inv_def\<close>)
    have "x \<in> set (ft_remotes ?f)" using assms(2) by (simp add: set_union)
    with g(2-) have "\<exists>f' X. fetcher_receive now g = Some f' \<and> length (ft_published f') = Suc (length (ft_published f)) \<and>
        rq_inflight (abs_fetcher f') = Some X \<and> x \<in> X"
      by (auto simp: fetcher_receive_def fetcher_launch_def abs_fetcher_def)
    then show ?thesis unfolding sub g(1) by blast
  qed
qed

theorem fetch_request_served_witness:
  "(\<exists>X. rq_inflight (abs_fetcher (fetcher_submit [''origin''] example_fetcher)) = Some X \<and> ''origin'' \<in> X) \<or>
    (\<exists>f' X. fetcher_turn example_genv (\<lambda>_. []) 0 (fetcher_submit [''origin''] example_fetcher) = Some f' \<and>
       length (ft_published f') = Suc (length (ft_published example_fetcher)) \<and>
       rq_inflight (abs_fetcher f') = Some X \<and> ''origin'' \<in> X)"
  by (rule fetch_request_served [OF example_fetcher_reachable]) simp

section \<open>Announcing an update\<close>

text \<open>
  An update is announced once: after a status has been received, a later fetch with the
  same selected commit and branch kind is not announced as an update, whether or not anybody has
  received the first announcement.
\<close>

theorem update_announced_once:
  assumes "ft_worker f = Sending names rs" and "fetcher_receive now f = Some f1"
    and "rs_SelectedCommitId rs' = rs_SelectedCommitId rs"
    and "rs_SelectedBranchIsTesting rs' = rs_SelectedBranchIsTesting rs"
    and "rs_SelectedBranchIsTesting rs \<noteq> None"
  shows "\<not> is_updated rs' (ft_repositoryStatus f1)"
proof -
  have "ft_repositoryStatus f1 = (if is_updated rs (ft_repositoryStatus f) then rs else ft_repositoryStatus f)"
    using assms(1,2) by (auto simp: fetcher_receive_def fetcher_launch_def)
  then show ?thesis using assms(3-5) by (auto simp: is_updated_def split: if_splits)
qed

theorem update_announced_once_witness:
  "\<exists>f1. fetcher_receive 0 (example_fetcher\<lparr>ft_worker := Sending [''origin''] (GitRepositoryStatus0
       \<lparr>rs_SelectedCommitId := ''c'', rs_SelectedBranchIsTesting := Some True\<rparr>)\<rparr>) = Some f1 \<and>
     \<not> is_updated (GitRepositoryStatus0\<lparr>rs_SelectedCommitId := ''c'', rs_SelectedBranchIsTesting := Some True\<rparr>)
        (ft_repositoryStatus f1)"
proof -
  let ?rs = "GitRepositoryStatus0\<lparr>rs_SelectedCommitId := ''c'', rs_SelectedBranchIsTesting := Some True\<rparr>"
  let ?f = "example_fetcher\<lparr>ft_worker := Sending [''origin''] ?rs\<rparr>"
  obtain f1 where f1: "fetcher_receive 0 ?f = Some f1" by (simp add: fetcher_receive_def)
  have "\<not> is_updated ?rs (ft_repositoryStatus f1)"
    by (rule update_announced_once [of ?f "[''origin'']" ?rs, OF _ f1]) simp_all
  with f1 show ?thesis by blast
qed

end
