(* ===== verification/Broker.thy ===== *)
theory Broker
  imports Protobuf "HOL-Library.Sublist"
begin

text \<open>
  The event broker (\<open>internal/broker/broker.go\<close>). A subscriber's channel is identified by a number
  and holds at most five events; the publish channel holds at most one. \<open>broker_turn\<close> is one turn of
  the loop of \<open>Start\<close> that receives a message: every subscriber gets it by a non-blocking send. The
  logger publishes an opening event, a line event per scanned line and a closing event;
  \<open>scan\<close> is the \<open>bufio.Scanner\<close>, which stops for good at a line of 64 KiB.
\<close>

section \<open>State and operations\<close>

record broker =
  bk_stopped :: bool
  bk_publishCh :: "Event list"
  bk_subscribers :: "(nat \<times> Event list) list"
  bk_next :: nat

definition broker_New :: broker where
  "broker_New = \<lparr>bk_stopped = False, bk_publishCh = [], bk_subscribers = [], bk_next = 0\<rparr>"

text \<open>\<open>None\<close>: the send blocks.\<close>

definition Publish :: "Event \<Rightarrow> broker \<Rightarrow> broker option" where
  "Publish msg b = (if length (bk_publishCh b) < 1 then Some (b\<lparr>bk_publishCh := bk_publishCh b @ [msg]\<rparr>) else None)"

definition Subscribe :: "broker \<Rightarrow> nat \<times> broker" where
  "Subscribe b = (bk_next b, b\<lparr>bk_subscribers := bk_subscribers b @ [(bk_next b, [])], bk_next := Suc (bk_next b)\<rparr>)"

definition Unsubscribe :: "nat \<Rightarrow> broker \<Rightarrow> broker" where
  "Unsubscribe k b = b\<lparr>bk_subscribers := filter (\<lambda>s. fst s \<noteq> k) (bk_subscribers b)\<rparr>"

definition broker_Stop :: "broker \<Rightarrow> broker" where
  "broker_Stop b = b\<lparr>bk_stopped := True\<rparr>"

definition deliver :: "Event \<Rightarrow> nat \<times> Event list \<Rightarrow> nat \<times> Event list" where
  "deliver msg s = (fst s, try_send 5 msg (snd s))"

definition broker_turn :: "broker \<Rightarrow> (Event \<times> broker) option" where
  "broker_turn b =
     (case bk_publishCh b of
        [] \<Rightarrow> None
      | msg # rest \<Rightarrow> Some (msg, b\<lparr>bk_publishCh := rest, bk_subscribers := map (deliver msg) (bk_subscribers b)\<rparr>))"

text \<open>The receive of a subscriber from its channel.\<close>

definition channel :: "nat \<Rightarrow> broker \<Rightarrow> Event list option" where
  "channel k b = map_of (bk_subscribers b) k"

definition receive :: "nat \<Rightarrow> broker \<Rightarrow> (Event \<times> broker) option" where
  "receive k b =
     (case channel k b of
        Some (e # _) \<Rightarrow> Some (e, b\<lparr>bk_subscribers :=
           map (\<lambda>s. if fst s = k then (k, tl (snd s)) else s) (bk_subscribers b)\<rparr>)
      | _ \<Rightarrow> None)"

section \<open>Logging\<close>

definition MaxScanTokenSize :: nat where "MaxScanTokenSize = 64 * 1024"

definition scan :: "string list \<Rightarrow> string list" where
  "scan lines = takeWhile (\<lambda>l. length l < MaxScanTokenSize) lines"

definition log_event :: "string \<Rightarrow> uuid \<Rightarrow> time \<Rightarrow> log_type \<Rightarrow> Event" where
  "log_event obj objUuid now l = mk_event (Event_Log obj objUuid l) now"

text \<open>
  The events of a logger: the two goroutines publish their lines in any interleaving, here the
  list of lines with their source; \<open>now\<close> gives the dates.
\<close>

definition GetLogger :: "string \<Rightarrow> uuid \<Rightarrow> (nat \<Rightarrow> time) \<Rightarrow> (string \<times> string) list \<Rightarrow> Event list" where
  "GetLogger obj objUuid now lines =
     log_event obj objUuid (now 0) Log_Open #
     map (\<lambda>(i, source, line). log_event obj objUuid (now (Suc i)) (Log_Line source line)) (enumerate 0 lines) @
     [log_event obj objUuid (now (Suc (length lines))) Log_Close]"

section \<open>Invariant\<close>

definition sub_ok :: "nat \<Rightarrow> nat \<times> Event list \<Rightarrow> bool" where
  "sub_ok n s \<longleftrightarrow> fst s < n \<and> length (snd s) \<le> 5"

definition broker_inv :: "broker \<Rightarrow> bool" where
  "broker_inv b \<longleftrightarrow> length (bk_publishCh b) \<le> 1 \<and> distinct (map fst (bk_subscribers b)) \<and>
     list_all (sub_ok (bk_next b)) (bk_subscribers b)"

lemma sub_ok_closed:
  "sub_ok n s \<Longrightarrow> sub_ok n (deliver e s)" "sub_ok n s \<Longrightarrow> sub_ok n (fst s, tl (snd s))"
  "sub_ok n s \<Longrightarrow> sub_ok (Suc n) s" "sub_ok (Suc n) (n, [])"
  by (auto simp: sub_ok_def deliver_def try_send_bound)

lemma deliver_fst [simp]: "fst (deliver msg s) = fst s"
  by (simp add: deliver_def)

lemma map_of_deliver: "map_of (map (deliver msg) ss) k = map_option (try_send 5 msg) (map_of ss k)"
  by (induction ss) (auto simp: deliver_def)

lemma map_of_consume:
  "map_of (map (\<lambda>s. if fst s = k then (k, tl (snd s)) else s) ss) j =
     (if j = k then map_option tl (map_of ss j) else map_of ss j)"
  by (induction ss) auto

text \<open>
  One subscriber in a run of the broker: the events broadcast since its subscription, those it has
  received, and how many were dropped because its channel was full.
\<close>

inductive subscription :: "nat \<Rightarrow> broker \<Rightarrow> Event list \<Rightarrow> Event list \<Rightarrow> nat \<Rightarrow> bool" for k :: nat where
  sub_start: "broker_inv b \<Longrightarrow> Subscribe b = (k, b') \<Longrightarrow> subscription k b' [] [] 0"
| sub_publish: "subscription k b hist got n \<Longrightarrow> Publish e b = Some b' \<Longrightarrow> subscription k b' hist got n"
| sub_other: "subscription k b hist got n \<Longrightarrow> Subscribe b = (j, b') \<Longrightarrow> subscription k b' hist got n"
| sub_leave: "subscription k b hist got n \<Longrightarrow> j \<noteq> k \<Longrightarrow> subscription k (Unsubscribe j b) hist got n"
| sub_turn: "subscription k b hist got n \<Longrightarrow> broker_turn b = Some (e, b') \<Longrightarrow> channel k b = Some ch \<Longrightarrow>
    subscription k b' (hist @ [e]) got (n + (if length ch < 5 then 0 else 1))"
| sub_receive: "subscription k b hist got n \<Longrightarrow> receive k b = Some (e, b') \<Longrightarrow> subscription k b' hist (got @ [e]) n"
| sub_receive_other: "subscription k b hist got n \<Longrightarrow> j \<noteq> k \<Longrightarrow> receive j b = Some (e, b') \<Longrightarrow>
    subscription k b' hist got n"
| sub_stop: "subscription k b hist got n \<Longrightarrow> subscription k (broker_Stop b) hist got n"

lemma Publish_inv: "Publish e b = Some b' \<Longrightarrow> broker_inv b \<Longrightarrow> broker_inv b' \<and> bk_subscribers b' = bk_subscribers b"
  unfolding Publish_def broker_inv_def by (cases "length (bk_publishCh b) < 1") auto

lemma Subscribe_inv:
  assumes "broker_inv b"
  shows "broker_inv (snd (Subscribe b))"
proof -
  have "list_all (sub_ok (Suc (bk_next b))) (bk_subscribers b)" "bk_next b \<notin> fst ` set (bk_subscribers b)"
    using assms by (auto simp: broker_inv_def list_all_iff sub_ok_closed) (auto simp: sub_ok_def)
  then show ?thesis using assms by (simp add: Subscribe_def broker_inv_def sub_ok_closed)
qed

lemma Unsubscribe_inv: "broker_inv b \<Longrightarrow> broker_inv (Unsubscribe j b)"
  by (simp add: Unsubscribe_def broker_inv_def distinct_map_filter list_all_iff)

lemma turn_inv: "broker_turn b = Some (e, b') \<Longrightarrow> broker_inv b \<Longrightarrow> broker_inv b'"
  by (auto simp: broker_turn_def broker_inv_def comp_def list_all_iff sub_ok_closed split: list.splits)

lemma receive_inv:
  assumes "receive j b = Some (e, b')" and "broker_inv b"
  shows "broker_inv b'"
proof -
  let ?f = "\<lambda>s. if fst s = j then (j, tl (snd s)) else s"
  have "map fst (map ?f (bk_subscribers b)) = map fst (bk_subscribers b)" by simp
  moreover have "list_all (sub_ok (bk_next b)) (map ?f (bk_subscribers b))"
    using assms(2) sub_ok_closed(2) by (fastforce simp: broker_inv_def list_all_iff)
  moreover have "b' = b\<lparr>bk_subscribers := map ?f (bk_subscribers b)\<rparr>"
    using assms(1) by (simp add: receive_def split: option.splits list.splits)
  ultimately show ?thesis using assms(2) unfolding broker_inv_def by (simp del: map_map)
qed

lemma filter_other: "j \<noteq> k \<Longrightarrow> map_of (filter (\<lambda>s. fst s \<noteq> j) ss) k = map_of ss k"
  by (induction ss) auto

lemma channel_frame:
  "Publish e b = Some b' \<Longrightarrow> channel k b' = channel k b"
  "k < bk_next b \<Longrightarrow> channel k (snd (Subscribe b)) = channel k b"
  "j \<noteq> k \<Longrightarrow> channel k (Unsubscribe j b) = channel k b"
  "broker_turn b = Some (e, b') \<Longrightarrow> channel k b' = map_option (try_send 5 e) (channel k b)"
  "receive j b = Some (e, b') \<Longrightarrow>
     channel k b' = (if k = j then map_option tl (channel k b) else channel k b)"
  by (auto simp: channel_def Publish_def Subscribe_def Unsubscribe_def broker_turn_def receive_def
      filter_other map_of_deliver map_of_consume map_add_def
      split: if_splits list.splits option.splits)

lemma channel_Subscribe: "broker_inv b \<Longrightarrow> channel (fst (Subscribe b)) (snd (Subscribe b)) = Some []"
proof -
  assume "broker_inv b"
  then have "map_of (bk_subscribers b) (bk_next b) = None"
    by (auto simp: map_of_eq_None_iff broker_inv_def list_all_iff sub_ok_def)
  then show ?thesis by (simp add: channel_def Subscribe_def map_add_def)
qed

lemma channel_known: "broker_inv b \<Longrightarrow> channel k b = Some ch \<Longrightarrow> k < bk_next b \<and> length ch \<le> 5"
  using map_of_SomeD [of "bk_subscribers b" k ch]
  by (fastforce simp: channel_def broker_inv_def list_all_iff sub_ok_def)

text \<open>What holds of a subscriber at every moment.\<close>

definition subscriber_ok :: "nat \<Rightarrow> broker \<Rightarrow> Event list \<Rightarrow> Event list \<Rightarrow> nat \<Rightarrow> bool" where
  "subscriber_ok k b hist got n \<longleftrightarrow> broker_inv b \<and> (\<exists>ch. channel k b = Some ch \<and> length ch \<le> 5 \<and>
     subseq (got @ ch) hist \<and> length hist = length got + length ch + n)"

lemma subscriber_okI:
  "broker_inv b \<Longrightarrow> channel k b = Some ch \<Longrightarrow> subseq (got @ ch) hist \<Longrightarrow>
     length hist = length got + length ch + n \<Longrightarrow> subscriber_ok k b hist got n"
  using channel_known [of b k ch] unfolding subscriber_ok_def by blast

lemma subscription_ok: "subscription k b hist got n \<Longrightarrow> subscriber_ok k b hist got n"
proof (induction rule: subscription.induct)
  case (sub_start b b')
  then show ?case
    using Subscribe_inv [of b] channel_Subscribe [of b] by (intro subscriber_okI) auto
next
  case (sub_publish b hist got n e b')
  then show ?case
    using Publish_inv [OF sub_publish(2)] channel_frame(1) [OF sub_publish(2)]
    by (auto simp: subscriber_ok_def)
next
  case (sub_other b hist got n j b')
  then obtain ch where "broker_inv b" "channel k b = Some ch" by (auto simp: subscriber_ok_def)
  then have "k < bk_next b" using channel_known by blast
  then show ?case
    using sub_other Subscribe_inv [of b] channel_frame(2) [of k b] by (auto simp: subscriber_ok_def)
next
  case (sub_leave b hist got n j)
  then show ?case using Unsubscribe_inv channel_frame(3) by (auto simp: subscriber_ok_def)
next
  case (sub_turn b hist got n e b' ch)
  then have ok: "broker_inv b" "length ch \<le> 5" "subseq (got @ ch) hist" "length hist = length got + length ch + n"
    by (auto simp: subscriber_ok_def)
  have "subseq (got @ ch) (hist @ [e])" using ok(3) by (metis append_Nil2 list_emb_append_mono list_emb_Nil)
  moreover have "subseq ((got @ ch) @ [e]) (hist @ [e])" using ok(3) by (intro list_emb_append_mono) simp_all
  ultimately show ?case
    using turn_inv [OF sub_turn(2) ok(1)] channel_frame(4) [OF sub_turn(2), of k] sub_turn(3) ok
    by (intro subscriber_okI [where ch = "try_send 5 e ch"]) (auto simp: try_send_def)
next
  case (sub_receive b hist got n e b')
  then obtain ch where ok: "broker_inv b" "channel k b = Some (e # ch)" "subseq (got @ e # ch) hist"
    "length hist = length got + Suc (length ch) + n"
    by (auto simp: subscriber_ok_def receive_def split: option.splits list.splits)
  then show ?case
    using receive_inv [OF sub_receive(2)] channel_frame(5) [OF sub_receive(2), of k]
    by (intro subscriber_okI) auto
next
  case (sub_receive_other b hist got n j e b')
  then show ?case
    using receive_inv [OF sub_receive_other(3)] channel_frame(5) [OF sub_receive_other(3), of k]
    by (auto simp: subscriber_ok_def)
next
  case (sub_stop b hist got n)
  then show ?case by (auto simp: subscriber_ok_def broker_inv_def channel_def broker_Stop_def)
qed

text \<open>
  Each subscriber receives the published events in the order of their publication and
  none twice: what it has received followed by what waits in its channel is a subsequence of the
  events broadcast since its subscription. The channel never holds more than five events, and the
  number of events it misses is exactly the number of broadcasts that found its channel full.
\<close>

theorem subscriber_receives_in_order:
  assumes "subscription k b hist got dropped"
  shows "\<exists>ch. channel k b = Some ch \<and> length ch \<le> 5 \<and> subseq (got @ ch) hist \<and>
    length hist = length got + length ch + dropped"
  using subscription_ok [OF assms] by (auto simp: subscriber_ok_def)

theorem subscriber_receives_in_order_witness:
  "\<exists>b got. subscription 0 b [log_event ''o'' ''u'' 0 Log_Open] got 0 \<and>
     (\<exists>ch. channel 0 b = Some ch \<and> subseq (got @ ch) [log_event ''o'' ''u'' 0 Log_Open])"
proof -
  let ?e = "log_event ''o'' ''u'' 0 Log_Open"
  let ?b1 = "snd (Subscribe broker_New)"
  let ?b2 = "the (Publish ?e ?b1)"
  let ?b3 = "snd (the (broker_turn ?b2))"
  have "subscription 0 ?b1 [] [] 0"
    by (rule sub_start [of broker_New]) (simp_all add: broker_inv_def broker_New_def Subscribe_def)
  then have "subscription 0 ?b2 [] [] 0"
    by (rule sub_publish [where e = ?e]) (simp add: Publish_def broker_New_def Subscribe_def)
  then have "subscription 0 ?b3 ([] @ [?e]) [] (0 + (if length ([] :: Event list) < 5 then 0 else 1))"
    by (rule sub_turn)
      (simp_all add: broker_turn_def Publish_def broker_New_def Subscribe_def channel_def)
  then have s: "subscription 0 ?b3 [?e] [] 0" by simp
  from s subscriber_receives_in_order [OF s] show ?thesis by blast
qed

text \<open>
  The scanner gives up at a line of 64 KiB: nothing that follows is read, and the writer of the pipe
  blocks at its next write.
\<close>

lemma logger_stops_at_long_line:
  "length l \<ge> MaxScanTokenSize \<Longrightarrow> list_all (\<lambda>x. length x < MaxScanTokenSize) before \<Longrightarrow>
     scan (before @ l # after) = before"
  by (simp add: scan_def list_all_iff takeWhile_append2)

end
