(* ===== verification/Profile.thy ===== *)
theory Profile
  imports Go_Strings Store_Base
begin

text \<open>
  System profiles (\<open>internal/profile/profile.go\<close>) and the helpers that read the machine
  (\<open>internal/utils/utils.go\<close>, \<open>reboot.go\<close>). The directory of the profiles is the list of its
  entries with the target of each link; \<open>nix-env\<close> and the other answers of the machine are
  parameters (\<open>pv_MkdirAll\<close> is an error other than that the directory exists).
\<close>

section \<open>Helpers\<close>

fun format_lines :: "bool \<Rightarrow> string list \<Rightarrow> string" where
  "format_lines isFirst [] = []"
| "format_lines isFirst (s # rest) =
     (if rest = [] \<and> s = [] then [] else if isFirst then s else CHR 0x0A # ''    '' @ s) @ format_lines False rest"

definition FormatCommitMsg :: "string \<Rightarrow> string" where
  "FormatCommitMsg msg = format_lines True (Split msg CHR 0x0A)"

text \<open>The content of the file or the error of reading it.\<close>

definition ReadMachineIdLinux :: "string + string \<Rightarrow> string + string" where
  "ReadMachineIdLinux content = (case content of
     Inl e \<Rightarrow> Inl (''can not read file '' @ [CHR 0x27] @ ''/etc/machine-id'' @ [CHR 0x27] @ '': '' @ e)
   | Inr bytes \<Rightarrow> Inr (TrimSuffix bytes [CHR 0x0A]))"

fun find_uuid_line :: "string list \<Rightarrow> string option" where
  "find_uuid_line [] = None"
| "find_uuid_line (line # lines) =
     (if Contains line ''Hardware UUID:'' then
        (case Split line CHR '':'' of
           _ # p # _ \<Rightarrow> Some (TrimSpace p)
         | _ \<Rightarrow> find_uuid_line lines)
      else find_uuid_line lines)"

definition ReadMachineIdDarwin :: "string + string \<Rightarrow> string + string" where
  "ReadMachineIdDarwin output = (case output of
     Inl e \<Rightarrow> Inl (''failed to get hardware UUID on macOS: '' @ e)
   | Inr out \<Rightarrow> (case find_uuid_line (Split out CHR 0x0A) of
       Some uuid \<Rightarrow> Inr uuid
     | None \<Rightarrow> Inl ''could not find Hardware UUID in system_profiler output''))"

text \<open>\<open>readlink\<close> gives the target of a link; a link that cannot be read means no reboot.\<close>

definition NeedToRebootLinux :: "(string \<Rightarrow> string option) \<Rightarrow> string \<Rightarrow> string \<Rightarrow> bool" where
  "NeedToRebootLinux readlink outPath operation =
     (if operation = ''boot'' then
        (case readlink ''/run/current-system'' of None \<Rightarrow> False | Some currentSystem \<Rightarrow> outPath \<noteq> currentSystem)
      else
        (case readlink ''/run/current-system/kernel'' of
           None \<Rightarrow> False
         | Some current \<Rightarrow>
             (case readlink ''/run/booted-system/kernel'' of
                None \<Rightarrow> False | Some booted \<Rightarrow> current \<noteq> booted)))"

section \<open>Profiles\<close>

definition systemProfiles :: string where "systemProfiles = ''/nix/var/nix/profiles/system-profiles''"
definition profileName :: string where "profileName = ''comin''"
definition cominProfileDir :: string where "cominProfileDir = systemProfiles @ ''/'' @ profileName"

type_synonym profile_dir = "(string \<times> string option) list"

record penv =
  pv_BootedLink :: "string option"
  pv_ReadDirOk :: bool
  pv_MkdirAll :: "string option"
  pv_NixEnv :: "string \<Rightarrow> profile_dir \<Rightarrow> string option \<times> profile_dir"
  pv_Remove :: "string \<Rightarrow> bool"

text \<open>The first result of \<open>GetBootedAndCurrentStorepaths\<close>.\<close>

definition pv_booted :: "penv \<Rightarrow> string" where
  "pv_booted V = (case pv_BootedLink V of None \<Rightarrow> [] | Some booted \<Rightarrow> booted)"

text \<open>What an entry must be to survive: the checks of the loop body in their order.\<close>

definition keep_entry :: "penv \<Rightarrow> string \<Rightarrow> string \<Rightarrow> string list \<Rightarrow> string \<times> string option \<Rightarrow> bool" where
  "keep_entry V dir name paths e \<longleftrightarrow>
     (if fst e = name then True
      else case snd e of
             None \<Rightarrow> True
           | Some storepath \<Rightarrow>
               storepath = pv_booted V \<or> path_Join [dir, fst e] \<in> set paths \<or> \<not> pv_Remove V (path_Join [dir, fst e]))"

definition removeProfiles :: "penv \<Rightarrow> string \<Rightarrow> string \<Rightarrow> string list \<Rightarrow> profile_dir \<Rightarrow> profile_dir" where
  "removeProfiles V dir name paths entries =
     (if \<not> pv_ReadDirOk V then entries
      else case map_of entries name of
             Some (Some defaultTarget) \<Rightarrow> filter (keep_entry V dir name (paths @ [defaultTarget])) entries
           | _ \<Rightarrow> entries)"

definition RemoveProfiles :: "penv \<Rightarrow> string list \<Rightarrow> profile_dir \<Rightarrow> profile_dir" where
  "RemoveProfiles V paths entries = removeProfiles V systemProfiles profileName paths entries"

definition SetSystemProfile ::
  "penv \<Rightarrow> string \<Rightarrow> string \<Rightarrow> bool \<Rightarrow> profile_dir \<Rightarrow> (string + string) \<times> profile_dir" where
  "SetSystemProfile V operation outPath dryRun entries =
     (if operation = ''switch'' \<or> operation = ''boot'' then
        (case pv_MkdirAll V of
           Some _ \<Rightarrow> (Inl (''nix: failed to create the profile directory: '' @ systemProfiles), entries)
         | None \<Rightarrow>
             if dryRun then (Inr [], entries)
             else case pv_NixEnv V outPath entries of
                    (Some e, entries') \<Rightarrow>
                      (Inl (''nix: command '' @ [CHR 0x27] @ ''nix-env --profile '' @ cominProfileDir @ '' --set '' @
                         outPath @ [CHR 0x27] @ '' fails with '' @ e), entries')
                  | (None, entries') \<Rightarrow>
                      (case map_of entries' profileName of
                         Some (Some dst) \<Rightarrow> (Inr (path_Join [systemProfiles, dst]), entries')
                       | _ \<Rightarrow> (Inl (''nix: failed to os.Readlink('' @ cominProfileDir @ '')''), entries')))
      else (Inr [], entries))"

section \<open>What is removed\<close>

lemma systemProfiles_clean: "clean_dir systemProfiles"
  by (simp add: clean_dir_def systemProfiles_def plain_name_def)

lemma entry_path: "plain_name n \<Longrightarrow> path_Join [systemProfiles, n] = systemProfiles @ ''/'' @ n"
  using systemProfiles_clean by (rule path_Join_plain)

text \<open>The documented effect of \<open>nix-env --profile P --set X\<close>: a new generation link to \<open>X\<close> that the
  profile points to; the other entries stay.\<close>

definition nix_env_ok :: "penv \<Rightarrow> string \<Rightarrow> profile_dir \<Rightarrow> string \<Rightarrow> bool" where
  "nix_env_ok V outPath entries link \<longleftrightarrow> plain_name link \<and> link \<noteq> profileName \<and>
     (\<exists>entries'. pv_NixEnv V outPath entries = (None, entries') \<and> map_of entries' profileName = Some (Some link) \<and>
        (link, Some outPath) \<in> set entries' \<and>
        (\<forall>e \<in> set entries. fst e \<noteq> profileName \<longrightarrow> e \<in> set entries'))"

lemma RemoveProfiles_sub: "set (RemoveProfiles V paths entries) \<subseteq> set entries"
  by (auto simp: RemoveProfiles_def removeProfiles_def split: if_splits option.splits)

lemma RemoveProfiles_keeps:
  assumes "e \<in> set entries" and "fst e = profileName \<or> snd e = None \<or> snd e = Some (pv_booted V) \<or>
    path_Join [systemProfiles, fst e] \<in> set paths"
  shows "e \<in> set (RemoveProfiles V paths entries)"
  using assms by (auto simp: RemoveProfiles_def removeProfiles_def keep_entry_def split: option.splits)

text \<open>
  Property C11. A deployment with a boot entry never loses a profile the machine needs: after the
  profile of a new system is set and the old profiles are removed, the profile of the new system is
  there under the returned path, and so are the default profile, every profile of the deployments
  that are kept, and every profile of the booted system. Everything else that is a link and that
  could be removed is gone, except the entry that the default profile names.
\<close>

theorem needed_profiles_kept:
  assumes "operation = ''switch'' \<or> operation = ''boot''" and "pv_MkdirAll V = None" and "pv_ReadDirOk V"
    and "nix_env_ok V outPath entries link"
    and "SetSystemProfile V operation outPath False entries = (res, entries1)"
    and "entries2 = RemoveProfiles V (paths @ [p]) entries1"
    and "res = Inr p"
  shows "p = systemProfiles @ ''/'' @ link \<and> (link, Some outPath) \<in> set entries2 \<and>
    (\<forall>e \<in> set entries1. fst e = profileName \<or> snd e = Some (pv_booted V) \<or>
       path_Join [systemProfiles, fst e] \<in> set paths \<longrightarrow> e \<in> set entries2) \<and>
    (\<forall>e \<in> set entries2. fst e = profileName \<or> snd e = None \<or> snd e = Some (pv_booted V) \<or>
       path_Join [systemProfiles, fst e] \<in> insert link (insert p (set paths)) \<or>
       \<not> pv_Remove V (path_Join [systemProfiles, fst e]))"
proof -
  obtain entries' where e': "pv_NixEnv V outPath entries = (None, entries')"
    "map_of entries' profileName = Some (Some link)" "(link, Some outPath) \<in> set entries'" and link: "plain_name link"
    using assms(4) by (auto simp: nix_env_ok_def)
  have r: "entries1 = entries'" "p = path_Join [systemProfiles, link]"
    using assms(1,2,5,7) e' by (auto simp: SetSystemProfile_def)
  have "(link, Some outPath) \<in> set entries2"
    unfolding assms(6) r by (rule RemoveProfiles_keeps) (use e' in auto)
  moreover have "e \<in> set entries2" if "e \<in> set entries1"
    "fst e = profileName \<or> snd e = Some (pv_booted V) \<or> path_Join [systemProfiles, fst e] \<in> set paths" for e
    unfolding assms(6) using that by (intro RemoveProfiles_keeps) auto
  moreover have "fst e = profileName \<or> snd e = None \<or> snd e = Some (pv_booted V) \<or>
       path_Join [systemProfiles, fst e] \<in> insert link (insert p (set paths)) \<or>
       \<not> pv_Remove V (path_Join [systemProfiles, fst e])" if "e \<in> set entries2" for e
    using that assms(3) e'(2) unfolding assms(6) r
    by (auto simp: RemoveProfiles_def removeProfiles_def keep_entry_def split: if_splits option.splits)
  ultimately show ?thesis using r entry_path [OF link] by blast
qed

definition example_penv :: penv where
  "example_penv = \<lparr>pv_BootedLink = Some ''st1'', pv_ReadDirOk = True, pv_MkdirAll = None,
     pv_NixEnv = (\<lambda>out es. (None, (''comin'', Some ''comin-3-link'') # (''comin-3-link'', Some out) #
       filter (\<lambda>e. fst e \<noteq> ''comin'') es)),
     pv_Remove = (\<lambda>_. True)\<rparr>"

definition example_profiles :: profile_dir where
  "example_profiles = [(''comin'', Some ''comin-2-link''), (''comin-1-link'', Some ''st1''), (''comin-2-link'', Some ''st2'')]"

theorem needed_profiles_kept_witness:
  "\<exists>p entries1. SetSystemProfile example_penv ''switch'' ''st3'' False example_profiles = (Inr p, entries1) \<and>
     (''comin-3-link'', Some ''st3'') \<in> set (RemoveProfiles example_penv ([] @ [p]) entries1) \<and>
     (''comin-1-link'', Some ''st1'') \<in> set (RemoveProfiles example_penv ([] @ [p]) entries1)"
proof -
  have nix: "nix_env_ok example_penv ''st3'' example_profiles ''comin-3-link''"
    by (simp add: nix_env_ok_def example_penv_def example_profiles_def profileName_def plain_name_def)
  have env: "pv_MkdirAll example_penv = None" "pv_ReadDirOk example_penv" by (simp_all add: example_penv_def)
  obtain p entries1 where s: "SetSystemProfile example_penv ''switch'' ''st3'' False example_profiles = (Inr p, entries1)"
    and b: "(''comin-1-link'', Some ''st1'') \<in> set entries1"
    by (simp add: SetSystemProfile_def example_penv_def example_profiles_def profileName_def)
  have booted: "pv_booted example_penv = ''st1''" by (simp add: example_penv_def pv_booted_def)
  have "(''comin-3-link'', Some ''st3'') \<in> set (RemoveProfiles example_penv ([] @ [p]) entries1)"
    "\<forall>e \<in> set entries1. fst e = profileName \<or> snd e = Some (pv_booted example_penv) \<or>
       path_Join [systemProfiles, fst e] \<in> set [] \<longrightarrow> e \<in> set (RemoveProfiles example_penv ([] @ [p]) entries1)"
    using needed_profiles_kept [OF disjI1 [OF refl] env nix s refl refl, of "[]"] by blast+
  moreover from this(2) b booted
  have "(''comin-1-link'', Some ''st1'') \<in> set (RemoveProfiles example_penv ([] @ [p]) entries1)" by fastforce
  ultimately show ?thesis using s by (intro exI [of _ p] exI [of _ entries1] conjI)
qed

text \<open>
  The generation link the default profile points to is not protected by the default
  profile: the code compares the absolute path of an entry with the target of the default profile,
  which \<open>nix-env\<close> writes as a relative name. When no kept deployment names it, it is removed and the
  default profile dangles.
\<close>

theorem default_target_removed:
  assumes "pv_ReadDirOk V" and "map_of entries profileName = Some (Some link)" and "plain_name link"
    and "(link, Some target) \<in> set entries" and "link \<noteq> profileName" and "target \<noteq> pv_booted V"
    and "systemProfiles @ ''/'' @ link \<notin> set paths" and "pv_Remove V (systemProfiles @ ''/'' @ link)"
  shows "(link, Some target) \<notin> set (RemoveProfiles V paths entries)"
proof -
  have "systemProfiles @ ''/'' @ link \<noteq> link" by (simp add: systemProfiles_def)
  then show ?thesis
    using assms entry_path [OF assms(3)]
    by (simp add: RemoveProfiles_def removeProfiles_def keep_entry_def)
qed

theorem default_target_removed_witness:
  "(''comin-2-link'', Some ''st2'') \<notin> set (RemoveProfiles example_penv [] example_profiles)"
  by (rule default_target_removed)
    (simp_all add: example_penv_def pv_booted_def example_profiles_def profileName_def plain_name_def)

end
