(* ===== verification/Executor.thy ===== *)
theory Executor
  imports Profile
begin

text \<open>
  The executors that evaluate, build and deploy a system with Nix (\<open>internal/executor\<close>:
  \<open>executor.go\<close>, \<open>nix.go\<close>, \<open>nix_flake.go\<close>, \<open>utils.go\<close>). The processes they run, the JSON decoder,
  the clone of the repository and the machine are the fields of \<open>xenv\<close>; a command gives its error
  and its standard output. \<open>n\<close> numbers the calls whose answer may change in between.
\<close>

section \<open>Data\<close>

datatype x_error =
    CommandFailed string "string list" string
  | NoGitSource
  | TooFewLines
  | TooFewElems
  | BadJson string
  | CloneFailed string
  | ProfileFailed string
  | UnknownRepositoryType
  | IndexPanic

text \<open>The calls of go-git that a clone makes.\<close>

datatype git_step =
    PlainOpen string
  | SetReference string string
  | PlainClone string string bool
  | Worktree string
  | Checkout string string

record xenv =
  xv_run :: "string \<Rightarrow> string list \<Rightarrow> string option \<times> string"
  xv_decodeWrapper :: "string \<Rightarrow> (string \<times> string) list option option"
  xv_decodeLegacy :: "string \<Rightarrow> string + (string \<times> string) list"
  xv_decodeMachineId :: "string \<Rightarrow> string + string option"
  xv_decodeShow :: "string \<Rightarrow> string + (string list \<times> string list)"
  xv_unitFile :: "bool \<Rightarrow> nat \<Rightarrow> string option"
  xv_sha256 :: "string \<Rightarrow> string"
  xv_stat :: "string \<Rightarrow> bool"
  xv_readlink :: "string \<Rightarrow> string option"
  xv_machineIdFile :: "string + string"
  xv_systemProfiler :: "string + string"
  xv_profile :: penv
  xv_MkdirTemp :: "string + string"
  xv_git :: "git_step \<Rightarrow> string option"

text \<open>The two executors, with the fields of their structs.\<close>

datatype executor =
    GitNixFlake string string bool
  | GitNix string bool

definition NewGitNixFlake :: "string \<Rightarrow> string \<Rightarrow> bool \<Rightarrow> executor" where
  "NewGitNixFlake systemAttr repositoryPath submodules = GitNixFlake systemAttr repositoryPath submodules"

definition NewGitNixFlakeNixOS :: "string \<Rightarrow> bool \<Rightarrow> executor" where
  "NewGitNixFlakeNixOS repositoryPath submodules = NewGitNixFlake ''nixosConfigurations'' repositoryPath submodules"

definition NewGitNixFlakeDarwin :: "string \<Rightarrow> bool \<Rightarrow> executor" where
  "NewGitNixFlakeDarwin repositoryPath submodules = NewGitNixFlake ''darwinConfigurations'' repositoryPath submodules"

definition NewGitNix :: "string \<Rightarrow> bool \<Rightarrow> executor" where
  "NewGitNix repositoryPath submodules = GitNix repositoryPath submodules"

definition NewGitNixNixOS :: "string \<Rightarrow> bool \<Rightarrow> executor" where
  "NewGitNixNixOS repositoryPath submodules = NewGitNix repositoryPath submodules"

lemmas constructor_defs [simp] = NewGitNixFlake_def NewGitNixFlakeNixOS_def NewGitNixFlakeDarwin_def NewGitNix_def
  NewGitNixNixOS_def

definition executor_New :: "bool \<Rightarrow> string \<Rightarrow> string \<Rightarrow> bool \<Rightarrow> x_error + executor" where
  "executor_New darwin repositoryType repositoryPath submodules =
     (if repositoryType = ''flake'' then
        Inr (if darwin then NewGitNixFlakeDarwin repositoryPath submodules
             else NewGitNixFlakeNixOS repositoryPath submodules)
      else if repositoryType = ''nix'' then Inr (NewGitNixNixOS repositoryPath submodules)
      else Inl UnknownRepositoryType)"

section \<open>Running Nix\<close>

definition runNixCommand :: "xenv \<Rightarrow> string \<Rightarrow> string list \<Rightarrow> x_error option \<times> string" where
  "runNixCommand V command args = (case xv_run V command args of
     (Some e, out) \<Rightarrow> (Some (CommandFailed command args e), out) | (None, out) \<Rightarrow> (None, out))"

definition commonArgs :: "string list" where
  "commonArgs = [''--extra-experimental-features'', ''flakes nix-command'', ''--accept-flake-config'']"

definition runNixFlakeCommand :: "xenv \<Rightarrow> string list \<Rightarrow> x_error option \<times> string" where
  "runNixFlakeCommand V args = runNixCommand V ''nix'' (commonArgs @ args)"

definition quoted :: "string \<Rightarrow> string" where
  "quoted s = [CHR 0x22] @ s @ [CHR 0x22]"

definition getExpectedMachineId :: "xenv \<Rightarrow> string \<Rightarrow> string \<Rightarrow> string \<Rightarrow> string \<times> x_error option" where
  "getExpectedMachineId V path hostname systemAttr =
     (case runNixFlakeCommand V [''eval'', path @ ''#'' @ systemAttr @ ''.'' @ quoted hostname @
             ''.config.services.comin.machineId'', ''--json''] of
        (Some e, _) \<Rightarrow> ([], Some e)
      | (None, out) \<Rightarrow>
          (case xv_decodeMachineId V out of
             Inl e \<Rightarrow> ([], Some (BadJson e))
           | Inr None \<Rightarrow> ([], None)
           | Inr (Some machineId) \<Rightarrow> (machineId, None)))"

definition store_prefix :: string where "store_prefix = ''/nix/store/''"

text \<open>The keys of the decoded map come in the order of its iteration.\<close>

definition parseDerivationWithFlake :: "xenv \<Rightarrow> string \<Rightarrow> x_error + (string \<times> string)" where
  "parseDerivationWithFlake V buf =
     (let parse = (\<lambda>output. case output of
            [] \<Rightarrow> Inl IndexPanic
          | (drvKey, outPath) # _ \<Rightarrow>
              Inr (if HasPrefix drvKey store_prefix then drvKey else store_prefix @ drvKey,
                   if \<not> HasPrefix outPath store_prefix \<and> outPath \<noteq> [] then store_prefix @ outPath else outPath))
      in case xv_decodeWrapper V buf of
           Some (Some output) \<Rightarrow> parse output
         | _ \<Rightarrow> (case xv_decodeLegacy V buf of Inl e \<Rightarrow> Inl (BadJson e) | Inr output \<Rightarrow> parse output))"

definition showDerivationWithFlake :: "xenv \<Rightarrow> string \<Rightarrow> string \<Rightarrow> string \<Rightarrow> x_error + (string \<times> string)" where
  "showDerivationWithFlake V flakeUrl hostname systemAttr =
     (case runNixFlakeCommand V [''derivation'', ''show'', flakeUrl @ ''#'' @ systemAttr @ ''.'' @ quoted hostname @
             ''.config.system.build.toplevel'', ''-L'', ''--show-trace''] of
        (Some e, _) \<Rightarrow> Inl e
      | (None, out) \<Rightarrow> parseDerivationWithFlake V out)"

definition flake_url :: "string \<Rightarrow> bool \<Rightarrow> Git \<Rightarrow> string" where
  "flake_url repositoryPath submodules git =
     ''git+file://'' @ repositoryPath @ ''?dir='' @ git_RepositorySubdir git @ ''&rev='' @ git_SelectedCommitId git @
     (if submodules then ''&submodules=1'' else [])"

text \<open>The named results of \<open>Eval\<close>: after an error of the machine id the paths are returned too.\<close>

definition flake_Eval :: "xenv \<Rightarrow> string \<Rightarrow> string \<Rightarrow> bool \<Rightarrow> Source option \<Rightarrow>
    string \<times> string \<times> string \<times> x_error option" where
  "flake_Eval V systemAttr repositoryPath submodules source =
     (case GetGit source of
        None \<Rightarrow> ([], [], [], Some NoGitSource)
      | Some git \<Rightarrow>
          (let flakeUrl = flake_url repositoryPath submodules git in
           case showDerivationWithFlake V flakeUrl (git_Hostname git) systemAttr of
             Inl e \<Rightarrow> ([], [], [], Some e)
           | Inr (drvPath, outPath) \<Rightarrow>
               (let (machineId, err) = getExpectedMachineId V flakeUrl (git_Hostname git) systemAttr
                in (drvPath, outPath, machineId, err))))"

text \<open>The Nix expression whose value is the text that \<open>showDerivationWithNix\<close> takes apart.\<close>

definition nix_expr :: "string \<Rightarrow> string \<Rightarrow> string" where
  "nix_expr directory systemAttr =
     ''let imported = import '' @ directory @ ''; default = if builtins.typeOf imported == '' @ quoted ''lambda'' @
     '' then imported {} else imported; machineId=if default.'' @ systemAttr @
     ''.config.services.comin.machineId == null then '' @ quoted [] @ '' else default.'' @ systemAttr @
     ''.config.services.comin.machineId;  in '' @ quoted (''${default.'' @ systemAttr @
     ''.toplevel.drvPath};${default.'' @ systemAttr @ ''.toplevel.outPath};${machineId}'')"

definition parse_nix_output :: "string \<Rightarrow> x_error + (string \<times> string \<times> string)" where
  "parse_nix_output out =
     (let lines = Split out CHR 0x0A in
      if length lines < 2 then Inl TooFewLines
      else let sanitized = TrimSuffix (TrimPrefix (lines ! (length lines - 2)) [CHR 0x22]) [CHR 0x22]
           in case Split sanitized CHR '';'' of
                drvPath # outPath # machineId # _ \<Rightarrow> Inr (drvPath, outPath, machineId)
              | [drvPath, outPath] \<Rightarrow> Inr (drvPath, outPath, [])
              | _ \<Rightarrow> Inl TooFewElems)"

text \<open>Both commands write to the same buffer.\<close>

definition showDerivationWithNix :: "xenv \<Rightarrow> string \<Rightarrow> string \<Rightarrow> x_error + (string \<times> string \<times> string)" where
  "showDerivationWithNix V directory systemAttr =
     (case runNixCommand V ''nix-instantiate'' [directory, ''-A'', systemAttr @ ''.toplevel''] of
        (Some e, _) \<Rightarrow> Inl e
      | (None, out1) \<Rightarrow>
          (case runNixCommand V ''nix-instantiate'' [''--strict'', ''--eval'', ''-E'', nix_expr directory systemAttr] of
             (Some e, _) \<Rightarrow> Inl e
           | (None, out2) \<Rightarrow> parse_nix_output (out1 @ out2)))"

text \<open>
  \<open>xv_git\<close> gives the error of a step of the clone: \<open>SetReference branch commit\<close>,
  \<open>PlainClone directory url recurse\<close>, \<open>Checkout directory commit\<close>. The result is the directory that
  is returned and the one that has been created.
\<close>

fun git_steps :: "xenv \<Rightarrow> git_step list \<Rightarrow> string option" where
  "git_steps V [] = None"
| "git_steps V (s # steps) = (case xv_git V s of Some e \<Rightarrow> Some e | None \<Rightarrow> git_steps V steps)"

definition cloneRepoToTemp :: "xenv \<Rightarrow> string \<Rightarrow> string \<Rightarrow> bool \<Rightarrow> (x_error + string) \<times> string option" where
  "cloneRepoToTemp V remoteDir commitId submodules =
     (case xv_MkdirTemp V of
        Inl e \<Rightarrow> (Inl (CloneFailed e), None)
      | Inr dir \<Rightarrow>
          (case git_steps V [PlainOpen remoteDir, SetReference ''refs/heads/archive'' commitId,
             PlainClone dir remoteDir submodules, Worktree dir, Checkout dir commitId] of
             Some e \<Rightarrow> (Inl (CloneFailed e), Some dir)
           | None \<Rightarrow> (Inr dir, Some dir)))"

text \<open>The deferred removal works on the returned directory: the empty path after an error.\<close>

definition nix_Eval :: "xenv \<Rightarrow> string \<Rightarrow> bool \<Rightarrow> Source option \<Rightarrow>
    (string \<times> string \<times> string \<times> x_error option) \<times> string option" where
  "nix_Eval V repositoryPath submodules source =
     (case GetGit source of
        None \<Rightarrow> (([], [], [], Some NoGitSource), None)
      | Some git \<Rightarrow>
          (case cloneRepoToTemp V repositoryPath (git_SelectedCommitId git) submodules of
             (Inl e, created) \<Rightarrow> (([], [], [], Some e), created)
           | (Inr tempDir, created) \<Rightarrow>
               (case showDerivationWithNix V (path_Join [tempDir, git_RepositorySubdir git]) (git_SystemAttr git) of
                  Inl e \<Rightarrow> (([], [], [], Some e), None)
                | Inr (drvPath, outPath, machineId) \<Rightarrow> ((drvPath, outPath, machineId, None), None))))"

definition buildWithFlake :: "xenv \<Rightarrow> string \<Rightarrow> x_error option" where
  "buildWithFlake V drvPath = fst (runNixFlakeCommand V [''build'', drvPath @ ''^*'', ''-L'', ''--no-link''])"

definition buildWithNix :: "xenv \<Rightarrow> string \<Rightarrow> x_error option" where
  "buildWithNix V drvPath = fst (runNixCommand V ''nix-store'' [''-r'', drvPath])"

definition List_hosts :: "xenv \<Rightarrow> string \<Rightarrow> string \<Rightarrow> x_error + string list" where
  "List_hosts V systemAttr flakeUrl =
     (case runNixFlakeCommand V [''flake'', ''show'', ''--json'', flakeUrl] of
        (Some e, _) \<Rightarrow> Inl e
      | (None, out) \<Rightarrow>
          (case xv_decodeShow V out of
             Inl e \<Rightarrow> Inl (BadJson e)
           | Inr (nixos, darwin) \<Rightarrow> Inr (if systemAttr = ''darwinConfigurations'' then darwin else nixos)))"

section \<open>Deploying\<close>

definition cominUnitFileHash :: "xenv \<Rightarrow> bool \<Rightarrow> nat \<Rightarrow> string" where
  "cominUnitFileHash V darwin n = (case xv_unitFile V darwin n of None \<Rightarrow> [] | Some text \<Rightarrow> xv_sha256 V text)"

text \<open>The commands that are executed, in order, and the error of the first that fails.\<close>

fun run_all :: "xenv \<Rightarrow> (string \<times> string list) list \<Rightarrow> x_error option \<times> (string \<times> string list) list" where
  "run_all V [] = (None, [])"
| "run_all V ((exe, args) # cmds) =
     (case runNixCommand V exe args of
        (Some e, _) \<Rightarrow> (Some e, [(exe, args)])
      | (None, _) \<Rightarrow> (let (err, done) = run_all V cmds in (err, (exe, args) # done)))"

definition switch_commands :: "bool \<Rightarrow> string \<Rightarrow> string \<Rightarrow> (string \<times> string list) list" where
  "switch_commands darwin operation outPath =
     (if darwin then [(path_Join [outPath, ''activate-user''], []), (path_Join [outPath, ''activate''], [])]
      else [(path_Join [outPath, ''bin'', ''switch-to-configuration''], [operation])])"

definition switchToConfiguration :: "xenv \<Rightarrow> bool \<Rightarrow> string \<Rightarrow> string \<Rightarrow> bool \<Rightarrow>
    x_error option \<times> (string \<times> string list) list" where
  "switchToConfiguration V darwin operation outPath dryRun =
     (if dryRun then (None, []) else run_all V (switch_commands darwin operation outPath))"

record deploy_result =
  dr_needToRestartComin :: bool
  dr_profilePath :: string
  dr_err :: "x_error option"
  dr_entries :: profile_dir
  dr_executed :: "(string \<times> string list) list"

text \<open>\<open>deployLinux\<close> and \<open>deployDarwin\<close> differ in the service they look at and the commands they run.\<close>

definition deploy :: "xenv \<Rightarrow> bool \<Rightarrow> string \<Rightarrow> string \<Rightarrow> string list \<Rightarrow> profile_dir \<Rightarrow> deploy_result" where
  "deploy V darwin outPath operation profilePaths entries =
     (let before = cominUnitFileHash V darwin 0 in
      case SetSystemProfile (xv_profile V) operation outPath False entries of
        (Inl e, entries1) \<Rightarrow> \<lparr>dr_needToRestartComin = False, dr_profilePath = [],
           dr_err = Some (ProfileFailed e), dr_entries = entries1, dr_executed = []\<rparr>
      | (Inr profilePath, entries1) \<Rightarrow>
          (let entries2 = RemoveProfiles (xv_profile V) (profilePaths @ [profilePath]) entries1;
               (err, executed) = switchToConfiguration V darwin operation outPath False
           in \<lparr>dr_needToRestartComin = (err = None \<and> before \<noteq> cominUnitFileHash V darwin 1),
               dr_profilePath = profilePath, dr_err = err, dr_entries = entries2, dr_executed = executed\<rparr>))"

section \<open>The methods of the executors\<close>

fun executor_Eval :: "xenv \<Rightarrow> executor \<Rightarrow> Source option \<Rightarrow> string \<times> string \<times> string \<times> x_error option" where
  "executor_Eval V (GitNixFlake systemAttr path submodules) source = flake_Eval V systemAttr path submodules source"
| "executor_Eval V (GitNix path submodules) source = fst (nix_Eval V path submodules source)"

fun executor_Build :: "xenv \<Rightarrow> executor \<Rightarrow> string \<Rightarrow> x_error option" where
  "executor_Build V (GitNixFlake systemAttr path submodules) drvPath = buildWithFlake V drvPath"
| "executor_Build V (GitNix path submodules) drvPath = buildWithNix V drvPath"

fun executor_Deploy :: "xenv \<Rightarrow> executor \<Rightarrow> string \<Rightarrow> string \<Rightarrow> string list \<Rightarrow> profile_dir \<Rightarrow> deploy_result" where
  "executor_Deploy V (GitNixFlake systemAttr path submodules) outPath operation profilePaths entries =
     (if systemAttr = ''darwinConfigurations'' then deploy V True outPath operation profilePaths entries
      else deploy V False outPath operation profilePaths entries)"
| "executor_Deploy V (GitNix path submodules) outPath operation profilePaths entries =
     deploy V False outPath operation profilePaths entries"

definition flake_NeedToReboot :: "xenv \<Rightarrow> string \<Rightarrow> string \<Rightarrow> string \<Rightarrow> bool" where
  "flake_NeedToReboot V systemAttr outPath operation =
     (if systemAttr = ''darwinConfigurations'' then False else NeedToRebootLinux (xv_readlink V) outPath operation)"

definition nix_NeedToReboot :: "xenv \<Rightarrow> string \<Rightarrow> string \<Rightarrow> bool" where
  "nix_NeedToReboot V outPath operation = NeedToRebootLinux (xv_readlink V) outPath operation"

fun NeedToReboot :: "xenv \<Rightarrow> executor \<Rightarrow> string \<Rightarrow> string \<Rightarrow> bool" where
  "NeedToReboot V (GitNixFlake systemAttr path submodules) outPath operation =
     flake_NeedToReboot V systemAttr outPath operation"
| "NeedToReboot V (GitNix path submodules) outPath operation = nix_NeedToReboot V outPath operation"

definition flake_ReadMachineId :: "xenv \<Rightarrow> string \<Rightarrow> string + string" where
  "flake_ReadMachineId V systemAttr =
     (if systemAttr = ''darwinConfigurations'' then ReadMachineIdDarwin (xv_systemProfiler V)
      else ReadMachineIdLinux (xv_machineIdFile V))"

definition nix_ReadMachineId :: "xenv \<Rightarrow> string + string" where
  "nix_ReadMachineId V = ReadMachineIdLinux (xv_machineIdFile V)"

fun ReadMachineId :: "xenv \<Rightarrow> executor \<Rightarrow> string + string" where
  "ReadMachineId V (GitNixFlake systemAttr path submodules) = flake_ReadMachineId V systemAttr"
| "ReadMachineId V (GitNix path submodules) = nix_ReadMachineId V"

text \<open>\<open>xv_stat\<close> is false exactly when \<open>os.Stat\<close> reports that the file does not exist.\<close>

definition isStorePathExist :: "xenv \<Rightarrow> string \<Rightarrow> bool" where
  "isStorePathExist V storePath = xv_stat V storePath"

section \<open>Reading what Nix prints\<close>

lemma TrimPrefix_quote: "TrimPrefix (CHR 0x22 # s) [CHR 0x22] = s"
  using TrimPrefix_append [of "[CHR 0x22]" s] by simp

lemma Split_lines:
  assumes "CHR 0x0A \<notin> set s" and "out1 = [] \<or> last out1 = CHR 0x0A"
  shows "\<exists>ls. Split (out1 @ s @ [CHR 0x0A]) CHR 0x0A = ls @ [s, []]"
  using assms(2)
proof (cases "out1 = []")
  case True
  then show ?thesis using Split_append [OF assms(1), of "[]"] by (intro exI [of _ "[]"]) simp
next
  case False
  then obtain t where t: "out1 = t @ [CHR 0x0A]" using assms(2) by (metis append_butlast_last_id)
  have "t = Join (Split t CHR 0x0A) [CHR 0x0A]" by simp
  then have "out1 @ s @ [CHR 0x0A] = Join (Split t CHR 0x0A @ [s, []]) [CHR 0x0A]"
    using Join_snoc [of "Split t CHR 0x0A @ [s]" "[]" "[CHR 0x0A]"] Join_snoc [of "Split t CHR 0x0A" s "[CHR 0x0A]"] t
    by simp
  moreover have "Split (Join (Split t CHR 0x0A @ [s, []]) [CHR 0x0A]) CHR 0x0A = Split t CHR 0x0A @ [s, []]"
    by (rule Split_Join) (use assms(1) Split_pieces in auto)
  ultimately show ?thesis by auto
qed

text \<open>
  What the second command prints is read back: when it prints the quoted derivation path,
  output path and machine id separated by semicolons, after whatever lines the first command has
  left in the buffer, exactly these three are returned.
\<close>

theorem nix_output_roundtrip:
  assumes "out1 = [] \<or> last out1 = CHR 0x0A"
    and "list_all (\<lambda>s. set s \<inter> {CHR '';'', CHR 0x0A} = {}) [drvPath, outPath, machineId]"
  shows "parse_nix_output (out1 @ quoted (Join [drvPath, outPath, machineId] '';'') @ [CHR 0x0A]) =
    Inr (drvPath, outPath, machineId)"
proof -
  let ?v = "Join [drvPath, outPath, machineId] '';''"
  have nl: "CHR 0x0A \<notin> set (quoted ?v)" using assms(2) by (auto simp: quoted_def)
  obtain ls where ls: "Split (out1 @ quoted ?v @ [CHR 0x0A]) CHR 0x0A = ls @ [quoted ?v, []]"
    using Split_lines [OF nl assms(1)] by blast
  have sp: "Split ?v CHR '';'' = [drvPath, outPath, machineId]"
    by (rule Split_Join) (use assms(2) in auto)
  have "(ls @ [quoted ?v, []]) ! (length (ls @ [quoted ?v, []]) - 2) = quoted ?v"
    by (simp add: nth_append)
  moreover have "TrimSuffix (TrimPrefix (quoted ?v) [CHR 0x22]) [CHR 0x22] = ?v"
    unfolding quoted_def TrimPrefix_append by (rule TrimSuffix_append)
  ultimately show ?thesis
    unfolding parse_nix_output_def ls Let_def by (simp only: sp) simp
qed

theorem nix_output_roundtrip_witness:
  "parse_nix_output (''/nix/store/a.drv'' @ [CHR 0x0A] @ quoted (Join [''/d'', ''/o'', []] '';'') @ [CHR 0x0A]) =
     Inr (''/d'', ''/o'', [])"
  using nix_output_roundtrip [of "''/nix/store/a.drv'' @ [CHR 0x0A]" "''/d''" "''/o''" "[]"] by simp

lemma derivation_paths_in_store:
  "parseDerivationWithFlake V buf = Inr (drvPath, outPath) \<Longrightarrow>
     HasPrefix drvPath store_prefix \<and> (outPath = [] \<or> HasPrefix outPath store_prefix)"
  by (auto simp: parseDerivationWithFlake_def Let_def split: option.splits sum.splits list.splits if_splits)

text \<open>A derivation without any output in both formats panics instead of failing.\<close>

lemma empty_derivations_panic:
  "xv_decodeWrapper V buf = Some (Some []) \<Longrightarrow> parseDerivationWithFlake V buf = Inl IndexPanic"
  by (simp add: parseDerivationWithFlake_def)

text \<open>The directory of a failed clone is not removed.\<close>

lemma failed_clone_leaks:
  "GetGit source \<noteq> None \<Longrightarrow> xv_MkdirTemp V = Inr dir \<Longrightarrow> xv_git V (PlainOpen path) = Some e \<Longrightarrow>
     snd (nix_Eval V path submodules source) = Some dir"
  by (auto simp: nix_Eval_def cloneRepoToTemp_def)

text \<open>When only the machine id cannot be evaluated, the paths are returned with the error.\<close>

lemma flake_Eval_machine_id_error:
  assumes "GetGit source = Some git"
    and "showDerivationWithFlake V (flake_url path submodules git) (git_Hostname git) systemAttr = Inr (drvPath, outPath)"
    and "getExpectedMachineId V (flake_url path submodules git) (git_Hostname git) systemAttr = (mid, Some e)"
  shows "flake_Eval V systemAttr path submodules source = (drvPath, outPath, mid, Some e)"
  using assms by (simp add: flake_Eval_def)

section \<open>What a deployment does\<close>

lemma run_all_prefix:
  "run_all V cmds = (err, executed) \<Longrightarrow> (\<exists>rest. cmds = executed @ rest) \<and> (err = None \<longleftrightarrow> executed = cmds \<and>
     (\<forall>c \<in> set cmds. fst (runNixCommand V (fst c) (snd c)) = None))"
proof (induction cmds arbitrary: err executed)
  case (Cons c cmds)
  obtain exe args where c: "c = (exe, args)" by fastforce
  obtain e out where r: "runNixCommand V exe args = (e, out)" by fastforce
  obtain err' executed' where rest: "run_all V cmds = (err', executed')" by fastforce
  show ?case using Cons.prems Cons.IH [OF rest] c r rest by (cases e) (auto simp: Let_def)
qed simp


definition example_xenv :: xenv where
  "example_xenv = \<lparr>xv_run = (\<lambda>_ _. (None, [])), xv_decodeWrapper = (\<lambda>_. None), xv_decodeLegacy = (\<lambda>_. Inr [(''d.drv'', ''o'')]),
     xv_decodeMachineId = (\<lambda>_. Inr None), xv_decodeShow = (\<lambda>_. Inr ([], [])), xv_unitFile = (\<lambda>_ _. None),
     xv_sha256 = (\<lambda>s. s), xv_stat = (\<lambda>_. True), xv_readlink = (\<lambda>_. None), xv_machineIdFile = Inr ''mid'',
     xv_systemProfiler = Inl [], xv_profile = example_penv, xv_MkdirTemp = Inr ''/tmp/c'', xv_git = (\<lambda>_. None)\<rparr>"


end
