(* ===== verification/Agent.thy ===== *)
theory Agent
  imports Manager_Correct Fetcher Broker Executor
begin

text \<open>
  How the agent is put together: the command that runs it (\<open>cmd/run.go\<close>). \<open>run_agent\<close> is the body of
  the command up to the call of \<open>manager.Run\<close>; it returns the components it has created, or why the
  process exits. The file system, Git, Nix and the machine are the parameters of the components,
  collected in \<open>renv\<close>; \<open>rv_store\<close> numbers the moments at which the store uses them.
\<close>

section \<open>Starting the agent\<close>

datatype run_error =
    ConfigError config_error
  | StateDirError
  | ExecutorError x_error
  | MachineIdError string
  | RunStoreError store_error
  | NilGitPanic
  | RepositoryError repo_error
  | DeployerStatePanic
  | ModeError string

record renv =
  rv_cenv :: cenv
  rv_darwin :: bool
  rv_MkdirAll :: bool
  rv_Chmod :: bool
  rv_xenv :: xenv
  rv_store :: "nat \<Rightarrow> env"
  rv_file :: "string option"
  rv_gcRoot :: "string option"
  rv_genv :: genv
  rv_version :: string

record agent =
  ag_manager :: manager
  ag_fetcher :: fetcher
  ag_jobs :: "(string \<times> int \<times> string list) list"
  ag_executor :: executor
  ag_metrics :: Prometheus

text \<open>The map of maps: a later entry replaces an earlier one with the same key.\<close>

definition remote_operations :: "cfg_Remote \<Rightarrow> (string \<times> string) list" where
  "remote_operations r =
     [(cb_Name (cb_Testing (cr_Branches r)), cb_Operation (cb_Testing (cr_Branches r))),
      (cb_Name (cb_Main (cr_Branches r)), cb_Operation (cb_Main (cr_Branches r)))]"

definition configurationOperations :: "cfg_Remote list \<Rightarrow> ConfigurationOperations" where
  "configurationOperations remotes = rev (map (\<lambda>r. (cr_Name r, remote_operations r)) remotes)"

text \<open>\<open>time.Duration(n) * time.Second\<close>.\<close>

definition seconds :: "int \<Rightarrow> int" where
  "seconds n = to_int64 (n * 10 ^ 9)"

text \<open>A loading error is logged, and the store stays as \<open>New\<close> has made it.\<close>

definition open_store :: "renv \<Rightarrow> cfg_Retention \<Rightarrow> store_error + store" where
  "open_store R c =
     (case store_New (rv_store R 0) (rv_file R) (rv_gcRoot R) (re_DeploymentBootEntryCapacity c)
             (re_DeploymentSuccessfulCapacity c) (re_DeploymentAnyCapacity c) of
        Inl e \<Rightarrow> Inl e
      | Inr s \<Rightarrow> (case Load (rv_store R 1) s of Inl _ \<Rightarrow> Inr s | Inr s' \<Rightarrow> Inr s'))"

text \<open>The commit of the last deployment, that deployment and the metrics; \<open>None\<close> is the nil dereference.\<close>

definition last_deployment :: "store \<Rightarrow> Prometheus \<Rightarrow> (string \<times> Deployment option \<times> Prometheus) option" where
  "last_deployment s metrics =
     (case LastDeployment s of
        (True, Some ld) \<Rightarrow>
          (case getGitFromGeneration (Some (d_Generation ld)) of
             None \<Rightarrow> None
           | Some git \<Rightarrow> Some (git_MainCommitId git, Some ld,
               SetDeploymentInfo (git_SelectedCommitId git) (d_Status ld) metrics))
      | _ \<Rightarrow> Some ([], None, metrics))"

text \<open>The fetcher of the manager is seen through its state.\<close>

definition start_manager :: "renv \<Rightarrow> Configuration \<Rightarrow> cfg_GitConfig \<Rightarrow> string \<Rightarrow> store \<Rightarrow> Deployment option \<Rightarrow>
    fetcher \<Rightarrow> run_error + manager" where
  "start_manager R cfg gitConfig machineId s ld f =
     (case deployer_New s ld (cg_PostDeploymentCommand cfg) of
        None \<Rightarrow> Inl DeployerStatePanic
      | Some d \<Rightarrow>
          (case ParseMode (cc_Mode (cg_BuildConfirmer cfg)) of
             None \<Rightarrow> Inl (ModeError (cc_Mode (cg_BuildConfirmer cfg)))
           | Some buildMode \<Rightarrow>
               (case ParseMode (cc_Mode (cg_DeployConfirmer cfg)) of
                  None \<Rightarrow> Inl (ModeError (cc_Mode (cg_DeployConfirmer cfg)))
                | Some deployMode \<Rightarrow>
                    Inr (manager_New s (fetcher_GetState f)
                      (builder_New s (gc_Path gitConfig) (gc_Dir gitConfig) (cg_SystemAttr cfg) (cg_Hostname cfg))
                      d machineId (cg_Hostname cfg)
                      (NewConfirmer buildMode (seconds (cc_AutoDuration (cg_BuildConfirmer cfg))))
                      (NewConfirmer deployMode (seconds (cc_AutoDuration (cg_DeployConfirmer cfg))))
                      (configurationOperations (cg_Remotes cfg))))))"

definition start_components :: "renv \<Rightarrow> Configuration \<Rightarrow> executor \<Rightarrow> string \<Rightarrow> run_error + agent" where
  "start_components R cfg x machineId =
     (let gitConfig = MkGitConfig cfg in
      case open_store R (cg_Retention cfg) of
        Inl e \<Rightarrow> Inl (RunStoreError e)
      | Inr s \<Rightarrow>
          (case last_deployment s (SetBuildInfo (rv_version R) prometheus_New) of
             None \<Rightarrow> Inl NilGitPanic
           | Some (mainCommitId, ld, metrics) \<Rightarrow>
               (case repository_New (rv_genv R) gitConfig mainCommitId metrics of
                  Inl e \<Rightarrow> Inl (RepositoryError e)
                | Inr r \<Rightarrow>
                    (case start_manager R cfg gitConfig machineId s ld (NewGitFetcher r) of
                       Inl e \<Rightarrow> Inl e
                     | Inr m \<Rightarrow> Inr \<lparr>ag_manager = m, ag_fetcher = NewGitFetcher r,
                         ag_jobs = FetchRemotes (cg_Remotes cfg), ag_executor = x, ag_metrics = metrics\<rparr>))))"

definition run_agent :: "renv \<Rightarrow> string \<Rightarrow> run_error + agent" where
  "run_agent R configFilepath =
     (case Read (rv_cenv R) configFilepath of
        (_, Some e) \<Rightarrow> Inl (ConfigError e)
      | (cfg, None) \<Rightarrow>
          if \<not> rv_MkdirAll R \<or> \<not> rv_Chmod R then Inl StateDirError
          else case executor_New (rv_darwin R) (cg_RepositoryType cfg) (gc_Path (MkGitConfig cfg))
                      (gc_Submodules (MkGitConfig cfg)) of
                 Inl e \<Rightarrow> Inl (ExecutorError e)
               | Inr x \<Rightarrow>
                   (case ReadMachineId (rv_xenv R) x of
                      Inl e \<Rightarrow> Inl (MachineIdError e)
                    | Inr machineId \<Rightarrow> start_components R cfg x machineId))"

section \<open>What a start establishes\<close>

lemma run_agent_cases:
  assumes "run_agent R path = Inr ag"
  obtains cfg x machineId where "Read (rv_cenv R) path = (cfg, None)"
    and "executor_New (rv_darwin R) (cg_RepositoryType cfg) (gc_Path (MkGitConfig cfg)) (cg_Submodules cfg) = Inr x"
    and "ReadMachineId (rv_xenv R) x = Inr machineId" and "start_components R cfg x machineId = Inr ag"
  using assms unfolding run_agent_def
  by (auto simp: MkGitConfig_def split: prod.splits option.splits if_splits sum.splits)

lemma start_components_cases:
  assumes "start_components R cfg x machineId = Inr ag"
  obtains s mainCommitId ld metrics r m where "open_store R (cg_Retention cfg) = Inr s"
    and "last_deployment s (SetBuildInfo (rv_version R) prometheus_New) = Some (mainCommitId, ld, metrics)"
    and "repository_New (rv_genv R) (MkGitConfig cfg) mainCommitId metrics = Inr r"
    and "start_manager R cfg (MkGitConfig cfg) machineId s ld (NewGitFetcher r) = Inr m"
    and "ag = \<lparr>ag_manager = m, ag_fetcher = NewGitFetcher r, ag_jobs = FetchRemotes (cg_Remotes cfg),
      ag_executor = x, ag_metrics = metrics\<rparr>"
  using assms unfolding start_components_def Let_def
  by (auto split: sum.splits option.splits)

lemma start_manager_init:
  assumes "start_manager R cfg gitConfig machineId s ld f = Inr m" and "generations_inv s"
  shows "manager_init m \<and> mg_store m = s \<and> mg_machineId m = machineId \<and>
    mg_configurationOperations m = configurationOperations (cg_Remotes cfg)"
  using assms unfolding start_manager_def manager_init_def
  by (auto split: option.splits simp: manager_New_def) blast+

text \<open>
  The environment of a start after a run that has left the store \<open>s\<close>: the same files, a codec that reads
  what it writes, and UUIDs that are not in the state file.
\<close>

definition restart_env :: "(PStore \<Rightarrow> string option) \<Rightarrow> (string \<Rightarrow> PStore option) \<Rightarrow> store \<Rightarrow> renv \<Rightarrow> bool" where
  "restart_env M U s R \<longleftrightarrow> codec_ok M U \<and> Marshal (rv_store R 1) = M \<and> Unmarshal (rv_store R 1) = U \<and>
     rv_file R = st_file s \<and>
     (\<forall>s1 p. st_file s1 = st_file s \<and> read_store (rv_store R 1) s1 = Inr p \<longrightarrow> fresh_uuids (rv_store R 1) p)"

lemma open_store_inv:
  assumes "restart_env M U s0 R" and "store_inv M s0" and "open_store R c = Inr s"
  shows "store_inv M s"
proof -
  let ?E = "rv_store R 1"
  obtain s1 where n: "store_New (rv_store R 0) (rv_file R) (rv_gcRoot R) (re_DeploymentBootEntryCapacity c)
      (re_DeploymentSuccessfulCapacity c) (re_DeploymentAnyCapacity c) = Inr s1"
    and l: "case Load ?E s1 of Inl _ \<Rightarrow> s = s1 | Inr t \<Rightarrow> s = t"
    using assms(3) by (auto simp: open_store_def split: sum.splits)
  note f = store_New_frames [OF n]
  have env: "Marshal ?E = M" "codec_ok (Marshal ?E) (Unmarshal ?E)" "rv_file R = st_file s0"
    using assms(1) by (auto simp: restart_env_def)
  have wf: "file_wf (Marshal ?E) s1"
    using assms(2) f(1) env by (simp add: store_inv_def file_wf_def)
  show ?thesis
  proof (cases "Load ?E s1")
    case (Inl e)
    then show ?thesis
      using l wf f(2-5) env by (simp add: store_inv_def generations_inv_def)
  next
    case (Inr t)
    then obtain p where p: "read_store ?E s1 = Inr p" by (auto simp: Load_def split: sum.splits)
    have "fresh_uuids ?E p" using assms(1) p f(1) env(3) by (auto simp: restart_env_def)
    from Load_inv [OF Inr p read_store_wf [OF p wf env(2)] this wf f(2)]
    show ?thesis using l Inr env(1) by simp
  qed
qed


definition example_configuration :: Configuration where
  "example_configuration = Configuration0\<lparr>cg_StateDir := ''/var/lib/comin'', cg_RepositoryType := ''flake'',
     cg_BuildConfirmer := \<lparr>cc_Mode = ''without'', cc_AutoDuration = 0\<rparr>,
     cg_DeployConfirmer := \<lparr>cc_Mode = ''auto'', cc_AutoDuration = 120\<rparr>,
     cg_Retention := \<lparr>re_DeploymentBootEntryCapacity = 3, re_DeploymentSuccessfulCapacity = 3,
       re_DeploymentAnyCapacity = 3\<rparr>\<rparr>"

definition example_renv :: renv where
  "example_renv = \<lparr>rv_cenv = \<lparr>cv_Open = (\<lambda>_. None), cv_Decode = (\<lambda>_. (example_configuration, None)),
       cv_ReadFile = (\<lambda>_. Inr [])\<rparr>, rv_darwin = False, rv_MkdirAll = True, rv_Chmod = True,
     rv_xenv = example_xenv, rv_store = (\<lambda>n. example_env 0 n), rv_file = None, rv_gcRoot = None,
     rv_genv = example_genv, rv_version = ''v1''\<rparr>"

lemma example_open_store: "open_store example_renv (cg_Retention example_configuration) = Inr example_store"
  using example_new_eq(1) example_store_Load by (simp add: open_store_def example_renv_def example_configuration_def)

lemma example_last_deployment:
  obtains ld metrics where "last_deployment example_store p = Some ([], ld, metrics)"
proof -
  have "map (\<lambda>d. g_Source (d_Generation d)) (st_Deployments example_store) = [None, None]" by code_simp
  then have "length (st_Deployments example_store) = 2" "g_Source (d_Generation (st_Deployments example_store ! 0)) = None"
    by (auto simp: map_eq_Cons_conv)
  then have "\<exists>ld metrics. last_deployment example_store p = Some ([], ld, metrics)"
    by (simp add: last_deployment_def LastDeployment_def getGitFromGeneration_def Git0_def)
  then show thesis using that by blast
qed

lemma example_start: "\<exists>ag. run_agent example_renv path = Inr ag"
proof -
  define cfg where "cfg = complete_timeouts (complete_paths [] example_configuration)"
  have read: "Read (rv_cenv example_renv) path = (cfg, None)"
    unfolding Read_ok cfg_def by (simp add: example_renv_def example_configuration_def Configuration0_def)
  have cfg: "cg_Retention cfg = cg_Retention example_configuration" "cg_RepositoryType cfg = ''flake''"
    "cc_Mode (cg_BuildConfirmer cfg) = ''without''" "cc_Mode (cg_DeployConfirmer cfg) = ''auto''"
    "cg_Remotes cfg = []" "cg_GpgPublicKeyPaths cfg = []" "cg_SshAllowedSignersPath cfg = []"
    by (simp_all add: cfg_def complete_paths_def complete_timeouts_def example_configuration_def Configuration0_def)
  obtain ld metrics where ld: "last_deployment example_store (SetBuildInfo (rv_version example_renv) prometheus_New) =
      Some ([], ld, metrics)"
    by (rule example_last_deployment)
  obtain r where r: "repository_New (rv_genv example_renv) (MkGitConfig cfg) [] metrics = Inr r"
    by (simp add: repository_New_def MkGitConfig_def cfg read_signers_def repositoryOpen_def example_renv_def example_genv_def)
  have "ps_Deployer (st_persisted example_store) \<noteq> None" by code_simp
  then obtain d where d: "deployer_New example_store ld (cg_PostDeploymentCommand cfg) = Some d"
    by (auto simp: deployer_New_def)
  have "\<exists>ag. start_components example_renv cfg x mid = Inr ag" for x mid
    by (simp add: cfg start_components_def Let_def example_open_store ld r start_manager_def d ParseMode_def)
  moreover have "rv_MkdirAll example_renv" "rv_Chmod example_renv" "\<not> rv_darwin example_renv"
    "xv_machineIdFile (rv_xenv example_renv) = Inr ''mid''"
    by (simp_all add: example_renv_def example_xenv_def)
  ultimately show ?thesis
    by (simp add: run_agent_def read cfg flake_ReadMachineId_def ReadMachineIdLinux_def executor_New_def)
qed

lemma example_restart:
  "restart_env (\<lambda>_. None) (\<lambda>_. None) example_new example_renv"
  "reachable store_init (store_step (\<lambda>_. None) (\<lambda>_. None)) example_new"
proof -
  show "restart_env (\<lambda>_. None) (\<lambda>_. None) example_new example_renv"
    by (auto simp: restart_env_def example_codec example_renv_def example_new_eq read_store_def PStore0_def
        intro!: example_env_fresh split: option.splits)
  show "reachable store_init (store_step (\<lambda>_. None) (\<lambda>_. None)) example_new"
    by (rule reachable_init) (unfold store_init_def, intro exI, rule example_new_eq(1))
qed

lemma example_start_init: "run_agent example_renv path = Inr ag \<Longrightarrow> manager_init (ag_manager ag)"
proof -
  assume ag: "run_agent example_renv path = Inr ag"
  obtain cfg x machineId where "start_components example_renv cfg x machineId = Inr ag"
    using ag by (rule run_agent_cases)
  then obtain s mainCommitId ld metrics r m where s: "open_store example_renv (cg_Retention cfg) = Inr s"
    "start_manager example_renv cfg (MkGitConfig cfg) machineId s ld (NewGitFetcher r) = Inr m" "ag_manager ag = m"
    by (elim start_components_cases) simp
  have "store_inv (\<lambda>_. None) example_new" using store_runs.reachable_inv [OF example_restart(2)] example_restart(1)
    by (simp add: restart_env_def)
  from open_store_inv [OF example_restart(1) this s(1)] have "generations_inv s" by (simp add: store_inv_def)
  with start_manager_init [OF s(2)] s(3) show ?thesis by blast
qed


end
