(* ===== verification/Pipeline.thy ===== *)
theory Pipeline
  imports Manager_Correct
begin

text \<open>
  The pipeline from end to end: what the composed system of the manager, the builder, the confirmers
  and the deployer (\<open>manager_act\<close>) may deploy, and that it does deploy.

  The first part is about histories: the labels of a run say which events the broker delivered and what
  the users sent to the confirmers, and every deployed generation is traced back to them. The
  second part is about progress: from an idle state a verified update is deployed by the steps of
  the components alone.
\<close>

section \<open>Origins\<close>

text \<open>What identifies a generation and never changes once it is created.\<close>

definition origin :: "Generation \<Rightarrow> uuid \<times> Source option" where
  "origin g = (g_Uuid g, g_Source g)"

definition gens_in :: "(uuid \<times> Source option) set \<Rightarrow> store \<Rightarrow> bool" where
  "gens_in G s \<longleftrightarrow> origin ` set (st_Generations s) \<subseteq> G"

definition dpls_in :: "(uuid \<times> Source option) set \<Rightarrow> store \<Rightarrow> bool" where
  "dpls_in D s \<longleftrightarrow> (\<lambda>d. origin (d_Generation d)) ` set (st_Deployments s) \<subseteq> D"

text \<open>Changes of the builder to the store: no new origin, the same deployments.\<close>

definition same_deployments :: "store \<Rightarrow> store \<Rightarrow> bool" where
  "same_deployments s s' \<longleftrightarrow> st_Deployments s' = st_Deployments s \<and>
     ps_DeploymentAnyCapacity (st_persisted s') = ps_DeploymentAnyCapacity (st_persisted s)"

definition narrows :: "store \<Rightarrow> store \<Rightarrow> bool" where
  "narrows s s' \<longleftrightarrow> origin ` set (st_Generations s') \<subseteq> origin ` set (st_Generations s) \<and>
     same_deployments s s'"

lemma same_deployments_refl [simp]: "same_deployments s s"
  by (simp add: same_deployments_def)

lemma same_deployments_trans: "same_deployments s t \<Longrightarrow> same_deployments t u \<Longrightarrow> same_deployments s u"
  by (simp add: same_deployments_def)

lemma narrows_same: "narrows s s' \<Longrightarrow> same_deployments s s'"
  by (simp add: narrows_def)

lemma narrows_refl [simp]: "narrows s s"
  by (simp add: narrows_def)

lemma narrows_trans: "narrows s t \<Longrightarrow> narrows t u \<Longrightarrow> narrows s u"
  unfolding narrows_def by (elim conjE, rule conjI, rule order_trans, assumption+, rule same_deployments_trans)

lemma narrows_gens: "narrows s s' \<Longrightarrow> gens_in G s \<Longrightarrow> gens_in G s'"
  unfolding narrows_def gens_in_def by (elim conjE) (rule order_trans)

lemma narrows_dpls: "narrows s s' \<Longrightarrow> dpls_in D s' = dpls_in D s"
  by (simp add: narrows_def dpls_in_def same_deployments_def)

lemma origin_put:
  assumes "\<And>g. origin (f g) = origin g"
  shows "origin ` set (generationPut u f gs) = origin ` set gs"
proof -
  have "map origin (generationPut u f gs) = map origin gs"
    unfolding generationPut_def using assms by (rule map_upd_first)
  then have "set (map origin (generationPut u f gs)) = set (map origin gs)" by (rule arg_cong)
  then show ?thesis by simp
qed

lemma change_generation_narrows:
  assumes "change_generation f record_last ev now u s = Inr s'" and "\<And>g. origin (f g) = origin g"
    and "\<And>s. st_persisted (record_last s) = st_persisted s"
  shows "narrows s s'"
proof -
  have "set (st_Generations s') \<subseteq> set (generationPut u f (st_Generations s))"
    "same_deployments s s'"
    using assms(1,3) by (auto simp: same_deployments_def change_generation_def generationsGC_def upd_generations_def publish_def
        split: option.splits)
  then show ?thesis using origin_put [of f u "st_Generations s"] assms(2) unfolding narrows_def by blast
qed

lemma origin_changes [simp]:
  "origin (eval_finished E d p mid e g) = origin g" "origin (build_finished E e g) = origin g"
  by (simp_all add: origin_def eval_finished_def build_finished_def split: option.split)

lemma generation_narrows:
  "GenerationEvalStarted E u s = Inr s' \<Longrightarrow> narrows s s'"
  "GenerationBuildStart E u r s = Inr s' \<Longrightarrow> narrows s s'"
  "GenerationEvalFinished E u d p mid e s = Inr s' \<Longrightarrow> narrows s s'"
  unfolding GenerationEvalStarted_def GenerationBuildStart_def GenerationEvalFinished_def
  by (erule change_generation_narrows; simp add: origin_def eval_finished_def split: option.split)+

lemma GenerationBuildFinished_narrows:
  assumes "GenerationBuildFinished E u err s = Inr s'"
  shows "narrows s s'"
  using assms
proof (rule GenerationBuildFinished_change)
  fix t
  assume c: "change_generation (build_finished E err) (\<lambda>s. s\<lparr>st_lastBuildFinished := Some u\<rparr>)
      Event_BuildFinished (clk E 1) u t = Inr s'" and "st_persisted t = st_persisted s"
  with change_generation_narrows [OF c] show ?thesis by (simp add: narrows_def same_deployments_def)
qed

lemma logged_narrows:
  assumes "narrows r s"
  shows "narrows r (logged s (GenerationEvalFinished E u d p mid e s))"
    and "narrows r (logged s (GenerationBuildStart E u reason s))"
    and "narrows r (logged s (GenerationBuildFinished E u err s))"
  using assms generation_narrows(2,3) GenerationBuildFinished_narrows
  by (auto simp: logged_def split: sum.split intro: narrows_trans)

lemma open_log_narrows [simp]: "narrows s (open_log E obj u t) = narrows s t"
  by (simp add: open_log_def narrows_def same_deployments_def)

lemma eval_finish_narrows: "eval_finish V b = Some b' \<Longrightarrow> narrows (bu_store b) (bu_store b')"
  by (auto simp: eval_finish_def Let_def split: option.splits prod.splits if_splits
      intro!: logged_narrows)

lemma build_finish_narrows: "build_finish V b = Some b' \<Longrightarrow> narrows (bu_store b) (bu_store b')"
  by (auto simp: build_finish_def split: option.splits intro!: logged_narrows)

lemma stop_narrows:
  "narrows (bu_store b) (bu_store (stopEval V b))" "narrows (bu_store b) (bu_store (stopBuild V b))"
  "narrows (bu_store b) (bu_store (Stop V b))"
proof -
  show e: "narrows (bu_store b) (bu_store (stopEval V b))" for b
    using eval_finish_narrows [of V "cancel_eval ''context canceled'' b"]
    by (auto simp: stopEval_def split: option.split)
  show c: "narrows (bu_store b) (bu_store (stopBuild V b))" for b
    using build_finish_narrows [of V "cancel_build ''context canceled'' b"]
    by (auto simp: stopBuild_def split: option.split)
  show "narrows (bu_store b) (bu_store (Stop V b))"
    unfolding Stop_def using e c by (rule narrows_trans)
qed

lemma Eval_narrows: "narrows (bu_store b) (bu_store (snd (Eval V g b)))"
proof (cases "GenerationEvalStarted (bv_env V 4) (g_Uuid g) (bu_store (Stop V b))")
  case (Inl e)
  then show ?thesis using stop_narrows(3) by (simp add: Eval_def Let_def)
next
  case (Inr s)
  then show ?thesis
    using narrows_trans [OF stop_narrows(3) generation_narrows(1) [OF Inr]] by (simp add: Eval_def Let_def)
qed

lemma build_narrows: "narrows (bu_store b) (bu_store (snd (build V u b)))"
  using build_unfold [of V u b] by (auto dest: generation_narrows)

lemma client_narrows:
  "builder_Suspend V b = (e, b') \<Longrightarrow> narrows (bu_store b) (bu_store b')"
  "builder_Resume V b = (e, b') \<Longrightarrow> narrows (bu_store b) (bu_store b')"
  using stop_narrows(2) [of b V] build_narrows [of "b\<lparr>bu_isSuspended := False\<rparr>" V "bu_GenerationUuid b"]
  by (auto simp: builder_Suspend_def builder_Resume_def Let_def split: if_splits sum.splits)

lemma SubmitBuild_narrows: "narrows (bu_store b) (bu_store (SubmitBuild V u b))"
  by (simp add: SubmitBuild_def build_narrows)

section \<open>The deployer\<close>

fun pc_in :: "(uuid \<times> Source option) set \<Rightarrow> runner_pc \<Rightarrow> bool" where
  "pc_in D (Create (Some g) op) = (origin g \<in> D)"
| "pc_in D (Announce g dpl b c) = (origin g \<in> D \<and> origin (d_Generation dpl) \<in> D)"
| "pc_in D (Start g dpl b c) = (origin g \<in> D \<and> origin (d_Generation dpl) \<in> D)"
| "pc_in D (Execute g dpl b c) = (origin g \<in> D \<and> origin (d_Generation dpl) \<in> D)"
| "pc_in D (Finish g dpl b c r) = (origin g \<in> D \<and> origin (d_Generation dpl) \<in> D)"
| "pc_in D (Post dpl) = (origin (d_Generation dpl) \<in> D)"
| "pc_in D _ = True"

definition deployer_in :: "(uuid \<times> Source option) set \<Rightarrow> deployer \<Rightarrow> bool" where
  "deployer_in D d \<longleftrightarrow> dpls_in D (dp_store d) \<and> pc_in D (dp_pc d) \<and>
     (\<forall>g. dp_GenerationToDeploy d = Some g \<longrightarrow> origin g \<in> D)"

lemma retention_result_subset:
  "set (r_result (retention ub us dpls new bp sp c1 c2 c3)) \<subseteq>
     set (with_new dpls new) \<union> {dummy_booted ub bp, dummy_switched us sp}"
proof -
  let ?R = "retention ub us dpls new bp sp c1 c2 c3" and ?H = "history ub us dpls new bp sp"
  obtain kept where k: "r_result ?R = SortFunc endedAtCmp
       (add_uniques d_Uuid kept (boot_picks c1 ?H @ successful_picks c2 ?H @ take_int c3 ?H))"
    "r_booted ?R \<in> set ?H" "r_current ?R \<in> set ?H" "set kept \<subseteq> {r_booted ?R, r_current ?R}"
    "set ?H \<subseteq> set (with_new dpls new) \<union> {dummy_booted ub bp, dummy_switched us sp}"
    by (rule retention_shape [of ub us dpls new bp sp c1 c2 c3]) blast
  have "set (r_result ?R) \<subseteq> set kept \<union> set (boot_picks c1 ?H @ successful_picks c2 ?H @ take_int c3 ?H)"
    unfolding k(1) gosort.srt_set by (rule add_uniques_upper)
  also have "\<dots> \<subseteq> set ?H" using k(2-4) picks_subset [of _ ?H] by auto
  finally show ?thesis using k(5) by blast
qed

lemma dummy_origin [simp]:
  "origin (d_Generation (dummy_booted u p)) = ([], None)"
  "origin (d_Generation (dummy_switched u p)) = ([], None)"
  by (simp_all add: dummy_booted_def dummy_switched_def origin_def Generation0_def Deployment0_def)

lemma dpls_in_frames [simp]:
  "dpls_in D (Commit E s) = dpls_in D s" "dpls_in D (publish ev now s) = dpls_in D s"
  "dpls_in D (DeployerUpdate E ds s) = dpls_in D s"
  by (simp_all add: dpls_in_def DeployerUpdate_def)

lemma dpls_in_put:
  assumes "dpls_in D s" and "\<And>d. d_Generation (f d) = d_Generation d"
  shows "dpls_in D (s\<lparr>st_persisted := (st_persisted s)\<lparr>ps_Deployments := deploymentPut u f (st_Deployments s)\<rparr>\<rparr>)"
proof -
  have "map d_Generation (deploymentPut u f (st_Deployments s)) = map d_Generation (st_Deployments s)"
    unfolding deploymentPut_def using assms(2) by (rule map_upd_first)
  then have "d_Generation ` set (deploymentPut u f (st_Deployments s)) = d_Generation ` set (st_Deployments s)"
    by (metis list.set_map)
  then show ?thesis
    using assms(1) by (simp add: dpls_in_def image_image [of origin d_Generation, symmetric])
qed

lemma set_ended_in: "dpls_in D s \<Longrightarrow> dpls_in D (set_ended now dpl s)"
  unfolding set_ended_def by (rule dpls_in_put) simp_all

lemma updateDataDeployments_in:
  assumes "dpls_in D s" and "origin (d_Generation dpl) \<in> D" and "([], None) \<in> D"
  shows "dpls_in D (updateDataDeployments E ub us bp sp (Some dpl) s)"
  using assms retention_result_subset [of ub us "st_Deployments s" "Some dpl" bp sp]
  by (fastforce simp: dpls_in_def updateDataDeployments_def Let_def with_new_def)

lemma NewDeployment_in:
  assumes "NewDeployment E g op r bp sp s = (dpl, s')" and "dpls_in D s" and "origin g \<in> D" and "([], None) \<in> D"
  shows "dpls_in D s'" and "origin (d_Generation dpl) \<in> D"
proof -
  have d: "dpl = new_deployment E g op r sp"
    and s': "s' = Commit E (updateDataDeployments E (newUuid E 1) (newUuid E 2) bp sp (Some dpl) s)"
    using assms(1) by (auto simp: NewDeployment_def Let_def)
  show "origin (d_Generation dpl) \<in> D"
    using assms(3) by (simp add: d new_deployment_def Let_def split: prod.split)
  then show "dpls_in D s'" using updateDataDeployments_in [OF assms(2) _ assms(4)] by (simp add: s')
qed

lemma change_deployment_in:
  assumes "change_deployment E f ev u bp sp s = Inr (dpl, s')" and "dpls_in D s"
    and "\<And>d. d_Generation (f d) = d_Generation d" and "([], None) \<in> D"
  shows "dpls_in D s' \<and> origin (d_Generation dpl) \<in> D"
proof -
  obtain d where d: "deploymentGet u (st_Deployments s) = Some d" "dpl = f d"
    using assms(1) by (auto simp: change_deployment_def Let_def split: option.splits)
  then have "origin (d_Generation dpl) \<in> D"
    using assms(2,3) dpl_table.get_member [OF d(1)] by (auto simp: dpls_in_def)
  moreover note dpls_in_put [OF assms(2,3), of u]
  ultimately show ?thesis
    using assms(1,4) d by (auto simp: change_deployment_def Let_def intro!: updateDataDeployments_in)
qed

lemma update_in:
  assumes "dpls_in D s" and "([], None) \<in> D"
  shows "DeploymentStarted E u bp sp s = Inr (dpl, s') \<Longrightarrow> dpls_in D s' \<and> origin (d_Generation dpl) \<in> D"
    and "DeploymentFinished E u err rst prof bp sp s = Inr (dpl, s') \<Longrightarrow>
      dpls_in D s' \<and> origin (d_Generation dpl) \<in> D"
  unfolding DeploymentStarted_def DeploymentFinished_def
  by (erule change_deployment_in [OF _ assms(1) _ assms(2)],
      simp add: deployment_started_def deployment_finished_def split: option.split)+

lemma runner_step_in:
  assumes "runner_step W d = Some d'" and "deployer_in D d" and "([], None) \<in> D"
  shows "deployer_in D d'"
proof (cases "dp_pc d")
  case Take
  with assms show ?thesis
    by (cases "dp_GenerationToDeploy d") (auto simp: runner_step.simps Let_def deployer_in_def)
next
  case (Create g op)
  with assms show ?thesis
    by (cases g) (auto simp: runner_step.simps Let_def deployer_in_def dest: NewDeployment_in split: prod.splits)
next
  case (Start g dpl b c)
  with assms show ?thesis
    by (auto simp: runner_step.simps Let_def deployer_in_def dest: update_in split: sum.splits)
next
  case (Finish g dpl b c r)
  with assms show ?thesis
    by (cases r) (auto simp: runner_step.simps Let_def deployer_in_def
        dest: update_in(2) [OF set_ended_in] intro: set_ended_in split: sum.splits)
qed (use assms in \<open>auto simp: runner_step.simps Let_def deployer_in_def
    split: list.splits if_splits prod.splits option.splits\<close>)

lemma client_in:
  assumes "deployer_in D d"
  shows "origin g \<in> D \<Longrightarrow> deployer_in D (Submit g op force reason d)" and "deployer_in D (Suspend E reason d)"
    and "deployer_in D (Resume E d)" and "receive_done d = Some (x, d') \<Longrightarrow> deployer_in D d'"
  using assms by (auto simp: Submit_def Suspend_def Resume_def receive_done_def deployer_in_def split: list.splits)

section \<open>The history of a deployed generation\<close>

text \<open>The source of a generation is the selected commit of an update that the broker delivered as
  fetched and verified.\<close>

definition verified_source :: "manager_label list \<Rightarrow> Source option \<Rightarrow> bool" where
  "verified_source as source \<longleftrightarrow> (\<exists>e rs git. Deliver e \<in> set as \<and>
     ev_Type e = Some (Event_Fetched True True (Some rs)) \<and> source = Some (Source (Some git)) \<and>
     git_SelectedCommitId git = rs_SelectedCommitId rs \<and>
     git_SelectedRemoteName git = rs_SelectedRemoteName rs \<and>
     git_SelectedBranchName git = rs_SelectedBranchName rs)"

text \<open>The origins of the generations of a run from \<open>m0\<close>: a verified update, or the store it started with.\<close>

definition created :: "manager \<Rightarrow> manager_label list \<Rightarrow> (uuid \<times> Source option) set" where
  "created m0 as = {(u, source). verified_source as source} \<union> origin ` set (st_Generations (mg_store m0))"

text \<open>
  The origins of what a run from \<open>m0\<close> deploys: the deployments of the store it started with, the systems
  the retention policy adds for the running ones, and the created generations, which the user has
  confirmed when the confirmer is in manual mode.
\<close>

definition deployable :: "manager \<Rightarrow> Mode \<Rightarrow> manager_label list \<Rightarrow> (uuid \<times> Source option) set" where
  "deployable m0 mode as = insert ([], None) ((\<lambda>d. origin (d_Generation d)) ` set (st_Deployments (mg_store m0))) \<union>
     {(u, source). (u, source) \<in> created m0 as \<and> (mode = Manual \<longrightarrow> DeployInput (CConfirm u) \<in> set as)}"

definition confirmer_in :: "Mode \<Rightarrow> manager_label list \<Rightarrow> confirmer \<Rightarrow> bool" where
  "confirmer_in mode as c \<longleftrightarrow> (\<exists>ins outs. run_inv mode c ins outs \<and>
     (\<forall>u. CConfirm u \<in> set ins \<longrightarrow> DeployInput (CConfirm u) \<in> set as))"

definition provenance :: "manager \<Rightarrow> Mode \<Rightarrow> manager_label list \<Rightarrow> manager \<Rightarrow> bool" where
  "provenance m0 mode as m \<longleftrightarrow> (\<forall>e \<in> set (mg_brokerEvents m). Deliver e \<in> set as) \<and>
     gens_in (created m0 as) (mg_store m) \<and> deployer_in (deployable m0 mode as) (the_deployer m) \<and>
     confirmer_in mode as (mg_DeployConfirmer m)"

lemma created_mono: "created m0 as \<subseteq> created m0 (a # as)"
  by (auto simp: created_def verified_source_def)

lemma deployable_mono: "deployable m0 mode as \<subseteq> deployable m0 mode (a # as)"
  using created_mono [of m0 as a] by (auto simp: deployable_def)

lemma pc_in_mono: "pc_in D pc \<Longrightarrow> D \<subseteq> D' \<Longrightarrow> pc_in D' pc"
  by (cases "(D, pc)" rule: pc_in.cases) auto

lemma gens_in_mono: "gens_in G s \<Longrightarrow> G \<subseteq> G' \<Longrightarrow> gens_in G' s"
  unfolding gens_in_def by (rule order_trans)

lemma deployer_in_mono: "deployer_in D d \<Longrightarrow> D \<subseteq> D' \<Longrightarrow> deployer_in D' d"
  unfolding deployer_in_def dpls_in_def using pc_in_mono [of D "dp_pc d" D'] by fast

lemma confirmer_in_mono: "confirmer_in mode as c \<Longrightarrow> confirmer_in mode (a # as) c"
  unfolding confirmer_in_def list.set by fast

lemma provenance_mono: "provenance m0 mode as m \<Longrightarrow> provenance m0 mode (a # as) m"
  using gens_in_mono [OF _ created_mono] deployer_in_mono [OF _ deployable_mono] confirmer_in_mono
  by (simp add: provenance_def)

lemma dummy_deployable [simp]: "([], None) \<in> deployable m0 mode as"
  by (simp add: deployable_def)

lemma confirmer_in_select:
  "confirmer_in mode as c \<Longrightarrow> confirmer_select now i c = Some c' \<Longrightarrow>
     (\<And>u. i = CConfirm u \<Longrightarrow> DeployInput i \<in> set as) \<Longrightarrow> confirmer_in mode as c'"
  unfolding confirmer_in_def by (metis run_inv_select set_ConsD)

lemma confirmer_in_deliver:
  assumes "confirmer_in mode as c" and "confirmer_deliver c = Some (u, c')"
  shows "confirmer_in mode as c'" and "mode = Manual \<Longrightarrow> DeployInput (CConfirm u) \<in> set as"
proof -
  obtain ins outs where r: "run_inv mode c ins outs"
    "\<forall>u. CConfirm u \<in> set ins \<longrightarrow> DeployInput (CConfirm u) \<in> set as"
    using assms(1) unfolding confirmer_in_def by blast
  have "run_inv mode c' ins (u # outs)" using r(1) assms(2) by (rule run_inv_deliver)
  then show "confirmer_in mode as c'" and "mode = Manual \<Longrightarrow> DeployInput (CConfirm u) \<in> set as"
    using r(2) unfolding confirmer_in_def by (blast, auto simp: run_inv_def)
qed

lemma provenance_builder:
  assumes "provenance m0 mode as m" and "narrows (mg_store m) (bu_store b)"
  shows "provenance m0 mode as (with_builder b m)"
  using assms narrows_gens [OF assms(2)] narrows_dpls [OF assms(2)]
  by (simp add: provenance_def deployer_in_def the_deployer_def with_builder_def)

lemma provenance_deployer:
  assumes "provenance m0 mode as m" and "deployer_in (deployable m0 mode as) d"
    and "st_Generations (dp_store d) = st_Generations (mg_store m)"
  shows "provenance m0 mode as (with_deployer d m)"
  using assms by (simp add: provenance_def gens_in_def with_deployer_def the_deployer_def)

lemma provenance_frames [simp]:
  "provenance m0 mode as (m\<lparr>mg_pc := pc\<rparr>) = provenance m0 mode as m"
  "provenance m0 mode as (m\<lparr>mg_BuildConfirmer := c\<rparr>) = provenance m0 mode as m"
  "provenance m0 mode as (m\<lparr>mg_builder := b\<rparr>) = provenance m0 mode as m"
  "provenance m0 mode as (m\<lparr>mg_isSuspended := x\<rparr>) = provenance m0 mode as m"
  "provenance m0 mode as (m\<lparr>mg_needToReboot := x\<rparr>) = provenance m0 mode as m"
  "provenance m0 mode as (m\<lparr>mg_exited := x\<rparr>) = provenance m0 mode as m"
  "provenance m0 mode as (m\<lparr>mg_store := publish ev now (mg_store m)\<rparr>) = provenance m0 mode as m"
  by (simp_all add: provenance_def the_deployer_def gens_in_def deployer_in_def)

lemma provenance_submit:
  assumes "provenance m0 mode as m" and "origin g \<in> deployable m0 mode as"
  shows "provenance m0 mode as (with_deployer (Submit g op force reason (the_deployer m)) m)"
proof (rule provenance_deployer [OF assms(1)])
  show "deployer_in (deployable m0 mode as) (Submit g op force reason (the_deployer m))"
    using client_in(1) [OF _ assms(2)] assms(1) by (simp add: provenance_def)
qed (simp add: Submit_def)

lemma generation_in:
  assumes "GenerationGet u s = Inr g" and "gens_in G s"
  shows "g_Uuid g = u" and "origin g \<in> G"
proof -
  have g: "generationGet u (st_Generations s) = Some g"
    using assms(1) by (auto simp: GenerationGet_def split: option.splits)
  show "g_Uuid g = u" using g by (rule gen_table.get_key)
  show "origin g \<in> G" using gen_table.get_member [OF g] assms(2) by (auto simp: gens_in_def)
qed

lemma NewGeneration_created:
  assumes "NewGeneration E h dir attr rs s = (g, s')" and "gens_in G s" and "origin g \<in> G"
  shows "gens_in G s'" and "st_Deployments s' = st_Deployments s"
proof -
  have "s' = upd_generations (\<lambda>gs. gs @ [g]) s" using assms(1) by (auto simp: NewGeneration_def Let_def)
  with assms(2,3) show "gens_in G s'" and "st_Deployments s' = st_Deployments s"
    by (simp_all add: gens_in_def upd_generations_def)
qed

lemma on_event_provenance:
  assumes "provenance m0 mode as m" and "Deliver e \<in> set as"
  shows "provenance m0 mode as (on_event V E e m)"
proof (cases "\<exists>rs. ev_Type e = Some (Event_Fetched True True (Some rs))")
  case True
  then obtain rs where e: "ev_Type e = Some (Event_Fetched True True (Some rs))" by blast
  let ?b = "the_builder m"
  obtain g s where n: "NewGeneration E (bu_hostname ?b) (bu_repositoryDir ?b) (bu_systemAttr ?b) rs (mg_store m) = (g, s)"
    by fastforce
  have "verified_source as (g_Source g)"
    using n e assms(2) unfolding verified_source_def
    by (intro exI [of _ e] exI [of _ rs]) (auto simp: NewGeneration_def Let_def)
  then have "origin g \<in> created m0 as" by (simp add: created_def origin_def)
  note s = NewGeneration_created [OF n _ this]
  have p: "provenance m0 mode as (m\<lparr>mg_store := s\<rparr>)"
    using assms(1) s by (simp add: provenance_def deployer_in_def dpls_in_def the_deployer_def)
  have "with_builder b (m\<lparr>mg_store := s\<rparr>) = with_builder b m" for b by (simp add: with_builder_def)
  moreover have "provenance m0 mode as (with_builder (snd (Eval V g (?b\<lparr>bu_store := s\<rparr>))) (m\<lparr>mg_store := s\<rparr>))"
    by (rule provenance_builder [OF p]) (use Eval_narrows [of "?b\<lparr>bu_store := s\<rparr>" V g] in simp)
  ultimately show ?thesis by (simp add: on_event_def e n case_prod_beta')
next
  case False
  then have "on_event V E e m = m \<or> on_event V E e m = m\<lparr>mg_pc := MPanicked\<rparr>"
    by (auto simp: on_event_def split: option.split event_type.split)
  then show ?thesis using assms(1) by (auto simp: provenance_def)
qed

lemma on_deploy_confirmed_provenance:
  assumes "provenance m0 mode as m" and "mode = Manual \<longrightarrow> DeployInput (CConfirm u) \<in> set as"
  shows "provenance m0 mode as (on_deploy_confirmed u m)"
proof (cases "GenerationGet u (mg_store m)")
  case (Inr g)
  have "gens_in (created m0 as) (mg_store m)" using assms(1) by (simp add: provenance_def)
  note g = generation_in [OF Inr this]
  have "origin g \<in> deployable m0 mode as"
    using g assms(2) by (auto simp: deployable_def origin_def)
  then show ?thesis
    using provenance_submit [OF assms(1)] assms(1)
    by (simp add: on_deploy_confirmed_def Inr split: option.split)
qed (use assms(1) in \<open>simp add: on_deploy_confirmed_def\<close>)

lemma latest_member: "GetDeploymentLastest s = Some d \<Longrightarrow> d \<in> set (st_Deployments s)"
proof -
  have "latest_loop l ds = Some d \<Longrightarrow> l = Some d \<or> d \<in> set ds" for l ds
    by (induction l ds rule: latest_loop.induct) (auto split: option.splits if_splits)
  then show "GetDeploymentLastest s = Some d \<Longrightarrow> d \<in> set (st_Deployments s)"
    unfolding GetDeploymentLastest_def by blast
qed

lemma DeploymentLatestSubmit_provenance:
  assumes "provenance m0 mode as m"
  shows "provenance m0 mode as (snd (DeploymentLatestSubmit op m))"
proof (cases "GetDeploymentLastest (mg_store m)")
  case (Some d)
  then have "origin (d_Generation d) \<in> deployable m0 mode as"
    using assms latest_member [OF Some] by (auto simp: provenance_def deployer_in_def dpls_in_def)
  then show ?thesis using provenance_submit [OF assms] by (simp add: DeploymentLatestSubmit_def Some)
qed (use assms in \<open>simp add: DeploymentLatestSubmit_def\<close>)

lemma provenance_publish:
  "provenance m0 mode as m \<Longrightarrow> provenance m0 mode as (m\<lparr>mg_store := publish ev now (mg_store m)\<rparr>)"
  by simp

lemma provenance_client:
  fixes f :: "deployer \<Rightarrow> deployer"
  assumes "provenance m0 mode as m" and "narrows (mg_store m) (bu_store b)"
    and "\<And>D d. deployer_in D d \<Longrightarrow> deployer_in D (f d)"
    and "\<And>d. st_Generations (dp_store (f d)) = st_Generations (dp_store d)"
  defines "m2 \<equiv> with_deployer (f (the_deployer (with_builder b m))) (with_builder b m)"
  shows "provenance m0 mode as (m2\<lparr>mg_isSuspended := x, mg_store := publish ev now (mg_store m2)\<rparr>)"
proof -
  let ?m1 = "with_builder b m"
  have m1: "provenance m0 mode as ?m1" using assms(1,2) by (rule provenance_builder)
  have "provenance m0 mode as m2"
    unfolding m2_def using m1 assms(3) [of _ "the_deployer ?m1"] assms(4)
    by (intro provenance_deployer) (simp_all add: provenance_def)
  from provenance_publish [of m0 mode as "m2\<lparr>mg_isSuspended := x\<rparr>" ev now] this show ?thesis by simp
qed

lemma suspend_generations [simp]:
  "st_Generations (dp_store (Suspend E reason d)) = st_Generations (dp_store d)"
  "st_Generations (dp_store (Resume E d)) = st_Generations (dp_store d)"
  by (simp_all add: Suspend_def Resume_def DeployerUpdate_def)

lemma suspend_provenance:
  assumes "provenance m0 mode as m"
  shows "provenance m0 mode as (snd (manager_Suspend V E m))"
    and "provenance m0 mode as (snd (manager_Resume V E m))"
proof -
  obtain e b where b: "builder_Suspend V (the_builder m) = (e, b)" by fastforce
  have n: "narrows (mg_store m) (bu_store b)" using client_narrows(1) [OF b] by simp
  show "provenance m0 mode as (snd (manager_Suspend V E m))"
    using assms b provenance_builder [OF assms n]
      provenance_client [where f = "Suspend E ''manager has been manually suspended''", OF assms n client_in(2)]
    by (cases e) (simp_all add: manager_Suspend_def Let_def)
next
  obtain e b where b: "builder_Resume V (the_builder m) = (e, b)" by fastforce
  have n: "narrows (mg_store m) (bu_store b)" using client_narrows(2) [OF b] by simp
  show "provenance m0 mode as (snd (manager_Resume V E m))"
    using assms b provenance_builder [OF assms n] provenance_client [where f = "Resume E", OF assms n client_in(3)]
    by (cases e) (simp_all add: manager_Resume_def Let_def)
qed

lemma provenance_done:
  assumes "provenance m0 mode as m"
  shows "provenance m0 mode as (on_deployment_done N E dpl m)"
  using assms provenance_publish [of m0 mode as "m\<lparr>mg_needToReboot := True\<rparr>" "Event_RebootRequired dpl" "clk E 0"]
  by (auto simp: on_deployment_done_def Let_def)

lemma provenance_confirmer:
  "provenance m0 mode as m \<Longrightarrow> confirmer_in mode as (mg_DeployConfirmer m)"
  "provenance m0 mode as m \<Longrightarrow> confirmer_in mode as c \<Longrightarrow> provenance m0 mode as (m\<lparr>mg_DeployConfirmer := c\<rparr>)"
  by (simp_all add: provenance_def)

lemma provenance_act:
  assumes "provenance m0 mode as m" and "manager_act a m m'"
  shows "provenance m0 mode (a # as) m'"
  using assms(2) provenance_mono [OF assms(1), of a]
proof (induction rule: manager_act.induct)
  case (ma_event m e es E V)
  then have "provenance m0 mode (Tau # as) (m\<lparr>mg_brokerEvents := es\<rparr>)" "Deliver e \<in> set (Tau # as)"
    by (simp_all add: provenance_def)
  then show ?case by (rule on_event_provenance)
next
  case (ma_deploy_confirmed m u c)
  note d = confirmer_in_deliver [OF provenance_confirmer(1) [OF ma_deploy_confirmed(3)] ma_deploy_confirmed(2)]
  show ?case
    using provenance_confirmer(2) [OF ma_deploy_confirmed(3) d(1)] d(2)
    by (intro on_deploy_confirmed_provenance) blast+
next
  case (ma_submit_deploy m u now c)
  have "confirmer_in mode (Tau # as) c"
    using provenance_confirmer(1) [OF ma_submit_deploy(3)] ma_submit_deploy(2) by (rule confirmer_in_select) simp
  then show ?case using provenance_confirmer(2) [OF ma_submit_deploy(3)] by simp
next
  case (ma_deploy_user i now m c)
  have "confirmer_in mode (DeployInput i # as) c"
    using provenance_confirmer(1) [OF ma_deploy_user(3)] ma_deploy_user(2) by (rule confirmer_in_select) simp
  then show ?case using provenance_confirmer(2) [OF ma_deploy_user(3)] by simp
next
  case (ma_deployer W m d)
  then have "deployer_in (deployable m0 mode (Tau # as)) d"
    using runner_step_in dummy_deployable by (auto simp: provenance_def)
  then show ?case
    using ma_deployer runner_step_generations [OF ma_deployer(1)]
    by (intro provenance_deployer) (simp_all add: same_generations_def)
next
  case (ma_done m dpl d NeedToReboot E)
  then have "provenance m0 mode (Tau # as) (with_deployer d m)"
    using client_in(4) by (intro provenance_deployer) (auto simp: provenance_def receive_done_def split: list.splits)
  then show ?case by (rule provenance_done)
next
  case (ma_evaluated m u us)
  then show ?case by (auto simp: on_evaluation_done_def split: sum.split)
next
  case (ma_built m u us)
  then show ?case by (auto simp: on_build_done_def split: sum.split option.split)
next
  case (ma_build_confirmed m u c V)
  then show ?case
    unfolding on_build_confirmed_def using SubmitBuild_narrows [of "the_builder m" V u]
    by (intro provenance_builder) (simp_all)
next
  case (ma_eval_finish V m b)
  then show ?case using eval_finish_narrows [OF ma_eval_finish(1)] by (simp add: provenance_builder)
next
  case (ma_build_finish V m b)
  then show ?case using build_finish_narrows [OF ma_build_finish(1)] by (simp add: provenance_builder)
next
  case (ma_broker m e)
  then show ?case by (auto simp: provenance_def)
qed (simp_all add: provenance_builder suspend_provenance DeploymentLatestSubmit_provenance)

lemma provenance_init:
  assumes "manager_init m0" and "mg_DeployConfirmer m0 = NewConfirmer mode duration"
  shows "provenance m0 mode [] m0"
proof -
  have "mg_brokerEvents m0 = []" "dp_pc (mg_deployer m0) = WaitGeneration" "dp_GenerationToDeploy (mg_deployer m0) = None"
    using assms(1) by (auto simp: manager_init_def manager_New_def deployer_New_def)
  moreover have "confirmer_in mode [] (NewConfirmer mode duration)"
    using confirmer_run_inv [OF crun_init [of mode duration]] unfolding confirmer_in_def by fastforce
  ultimately show ?thesis
    by (auto simp: provenance_def deployer_in_def dpls_in_def gens_in_def created_def deployable_def
        the_deployer_def assms(2))
qed

interpretation pipeline_history: history_of
  "\<lambda>m. m = m0 \<and> manager_init m0 \<and> mg_DeployConfirmer m0 = NewConfirmer mode duration" manager_act "provenance m0 mode"
  for m0 mode duration
  by unfold_locales (auto intro: provenance_init provenance_act)

lemma provenance_deployed:
  assumes "provenance m0 mode as m"
    and "dpl \<in> set (st_Deployments (mg_store m)) \<and> g = d_Generation dpl \<or>
      dp_pc (mg_deployer m) = Execute g dpl booted current"
  shows "g_Uuid g = [] \<and> g_Source g = None \<or>
    (\<exists>dpl0 \<in> set (st_Deployments (mg_store m0)). g_Uuid (d_Generation dpl0) = g_Uuid g \<and>
       g_Source (d_Generation dpl0) = g_Source g) \<or>
    (verified_source as (g_Source g) \<or>
       (\<exists>g0 \<in> set (st_Generations (mg_store m0)). g_Uuid g0 = g_Uuid g \<and> g_Source g0 = g_Source g)) \<and>
    (mode = Manual \<longrightarrow> DeployInput (CConfirm (g_Uuid g)) \<in> set as)"
proof -
  have "dpls_in (deployable m0 mode as) (mg_store m)" "pc_in (deployable m0 mode as) (dp_pc (mg_deployer m))"
    using assms(1) by (simp_all add: provenance_def deployer_in_def the_deployer_def)
  then have "origin g \<in> deployable m0 mode as"
    using assms(2) by (auto simp: dpls_in_def)
  then show ?thesis unfolding deployable_def created_def origin_def by auto
qed

text \<open>
  Property C2. Only verified and confirmed commits are deployed. In every run of the composed system,
  every deployment of the store, and every generation the deployment function is called for, is of
  a generation that was made for the selected commit of an update the broker delivered as verified
  and, when deployments are confirmed manually, that the user has confirmed by its UUID in the same run.
  The exceptions are the store the run started with (its deployments, and its generations, which
  still need the confirmation) and the systems without a generation UUID that the retention policy
  records for the booted and the current system.
\<close>

theorem deployed_is_verified_and_confirmed:
  assumes "trace (\<lambda>m. m = m0 \<and> manager_init m0 \<and> mg_DeployConfirmer m0 = NewConfirmer mode duration) manager_act as m"
    and "dpl \<in> set (st_Deployments (mg_store m)) \<and> g = d_Generation dpl \<or>
      dp_pc (mg_deployer m) = Execute g dpl booted current"
  shows "g_Uuid g = [] \<and> g_Source g = None \<or>
    (\<exists>dpl0 \<in> set (st_Deployments (mg_store m0)). g_Uuid (d_Generation dpl0) = g_Uuid g \<and>
       g_Source (d_Generation dpl0) = g_Source g) \<or>
    (verified_source as (g_Source g) \<or>
       (\<exists>g0 \<in> set (st_Generations (mg_store m0)). g_Uuid g0 = g_Uuid g \<and> g_Source g0 = g_Source g)) \<and>
    (mode = Manual \<longrightarrow> DeployInput (CConfirm (g_Uuid g)) \<in> set as)"
  using provenance_deployed [OF pipeline_history.trace_inv [OF assms(1)] assms(2)] .

text \<open>A manager in manual mode on a store with deployments, which receives a verified update.\<close>

definition example_manual :: manager where
  "example_manual = manager_New example_store \<lparr>pf_IsFetching = None, pf_GitRepositoryStatus = None\<rparr>
     (builder_New example_store ''path'' ''dir'' ''attr'' ''host'') (the (deployer_New example_store None []))
     ''mid'' ''host'' (NewConfirmer Without 0) (NewConfirmer Manual 0) []"

lemma example_manual_init: "manager_init example_manual"
proof -
  have "generations_inv example_store" using example_store_inv by (simp add: store_inv_def)
  moreover have "ps_Deployer (st_persisted example_store) \<noteq> None" by code_simp
  then have "deployer_New example_store None [] = Some (the (deployer_New example_store None []))"
    by (auto simp: deployer_New_def)
  ultimately show ?thesis unfolding manager_init_def example_manual_def by blast
qed

theorem deployed_is_verified_and_confirmed_witness:
  "\<exists>m dpl. trace (\<lambda>m. m = example_manual \<and> manager_init example_manual \<and>
       mg_DeployConfirmer example_manual = NewConfirmer Manual 0) manager_act
       [Deliver (mk_event (Event_Fetched True True (Some example_status)) 7)] m \<and>
     dpl \<in> set (st_Deployments (mg_store m)) \<and> (g_Uuid (d_Generation dpl) = [] \<or>
       (\<exists>dpl0 \<in> set (st_Deployments example_store). g_Uuid (d_Generation dpl0) = g_Uuid (d_Generation dpl)))"
proof -
  let ?e = "mk_event (Event_Fetched True True (Some example_status)) 7"
  let ?m = "example_manual\<lparr>mg_brokerEvents := [?e]\<rparr>"
  have c: "mg_DeployConfirmer example_manual = NewConfirmer Manual 0" "mg_store example_manual = example_store"
    "mg_brokerEvents example_manual = []"
    by (simp_all add: example_manual_def manager_New_def)
  have "manager_act (Deliver ?e) example_manual ?m" using ma_broker [of example_manual ?e] c(3) by simp
  then have t: "trace (\<lambda>m. m = example_manual \<and> manager_init example_manual \<and>
      mg_DeployConfirmer example_manual = NewConfirmer Manual 0) manager_act [Deliver ?e] ?m"
    using example_manual_init c(1) by (intro trace_act [OF trace_init]) simp_all
  obtain dpl where d: "dpl \<in> set (st_Deployments example_store)"
    using example_store_view by (cases "st_Deployments example_store") (auto simp: store_view_def)
  from deployed_is_verified_and_confirmed [OF t, of dpl "d_Generation dpl"] d c(2)
  have "g_Uuid (d_Generation dpl) = [] \<or>
      (\<exists>dpl0 \<in> set (st_Deployments example_store). g_Uuid (d_Generation dpl0) = g_Uuid (d_Generation dpl))"
    by auto
  with t d c(2) show ?thesis by (intro exI [of _ ?m] exI [of _ dpl]) simp
qed

section \<open>A verified update is deployed\<close>

text \<open>Runs in which nothing comes from outside.\<close>

abbreviation internal :: "manager \<Rightarrow> manager \<Rightarrow> bool" where
  "internal \<equiv> (manager_act Tau)\<^sup>*\<^sup>*"

definition quiet_confirmer :: "confirmer \<Rightarrow> bool" where
  "quiet_confirmer c \<longleftrightarrow> co_sending c = None \<and> cf_Confirmed (co_state c) = [] \<and>
     cf_Mode (co_state c) = mode_int Without"

text \<open>What the stages of the pipeline share: the loop is selecting, the confirmers are idle, and the
  generation \<open>u\<close> the builder works on is in the store with \<open>P\<close>.\<close>

definition staged :: "manager \<Rightarrow> uuid \<Rightarrow> (Generation \<Rightarrow> bool) \<Rightarrow> manager \<Rightarrow> bool" where
  "staged m0 u P m \<longleftrightarrow> mg_pc m = Selecting \<and> quiet_confirmer (mg_BuildConfirmer m) \<and>
     quiet_confirmer (mg_DeployConfirmer m) \<and> mg_deployer m = mg_deployer m0 \<and>
     mg_configurationOperations m = mg_configurationOperations m0 \<and> mg_machineId m = mg_machineId m0 \<and>
     same_deployments (mg_store m0) (mg_store m) \<and>
     \<not> bu_isSuspended (mg_builder m) \<and> bu_GenerationUuid (mg_builder m) = u \<and>
     (\<exists>g. generationGet u (st_Generations (mg_store m)) = Some g \<and> P g)"

definition flow :: "manager \<Rightarrow> (uuid \<times> Source option \<times> string option) option \<times>
    (uuid \<times> string \<times> string option) option \<times> uuid list \<times> uuid list \<times> bool" where
  "flow m = (bu_evaluator (mg_builder m), bu_buildator (mg_builder m), bu_EvaluationDone (mg_builder m),
     bu_BuildDone (mg_builder m), bu_isBuilding (mg_builder m))"

definition idle_pipeline :: "manager \<Rightarrow> bool" where
  "idle_pipeline m \<longleftrightarrow> mg_pc m = Selecting \<and> quiet_confirmer (mg_BuildConfirmer m) \<and>
     quiet_confirmer (mg_DeployConfirmer m) \<and> \<not> bu_isSuspended (mg_builder m) \<and>
     flow m = (None, None, [], [], False) \<and> dp_pc (mg_deployer m) = WaitGeneration \<and>
     dp_generationAvailableCh (mg_deployer m) = [] \<and> \<not> dp_isSuspended (mg_deployer m)"

lemma quiet_sends:
  assumes "quiet_confirmer c" and "u \<noteq> []"
  obtains c1 c2 where "confirmer_select 0 (CSubmit u) c = Some c1"
    and "confirmer_deliver c1 = Some (u, c2)" and "quiet_confirmer c2"
  using assms that by (auto simp: quiet_confirmer_def confirmer_select.simps confirmer_defs confirmer_deliver_def)

lemma internal_step: "manager_act Tau m m' \<Longrightarrow> internal m' m'' \<Longrightarrow> internal m m''"
  by (rule converse_rtranclp_into_rtranclp)

lemma try_send_empty [simp]: "try_send 1 x [] = [x]" "try_send (Suc 0) x [] = [x]"
  by (simp_all add: try_send_def)

lemma on_event_same: "same_deployments (mg_store m) (mg_store (on_event V E e m))"
proof -
  have "same_deployments s (bu_store b')"
    if "NewGeneration E h dir attr rs s = (g, s')" "Eval V g (b\<lparr>bu_store := s'\<rparr>) = (err, b')" for h dir attr rs s s' g b err b'
  proof -
    have "same_deployments s s'" using that(1) by (auto simp: NewGeneration_def Let_def upd_generations_def same_deployments_def)
    moreover have "same_deployments s' (bu_store b')"
      using narrows_same [OF Eval_narrows [of "b\<lparr>bu_store := s'\<rparr>" V g]] that(2) by simp
    ultimately show ?thesis by (rule same_deployments_trans)
  qed
  then show ?thesis
    by (auto simp: on_event_def Let_def split: option.split event_type.split prod.split)
qed

text \<open>The event is taken and its evaluation starts.\<close>

lemma stage_event:
  assumes "idle_pipeline m" and "mg_brokerEvents m = mk_event (Event_Fetched True True (Some rs)) now # es"
    and "fresh_uuids E (st_persisted (mg_store m))" and "newUuid E 0 \<noteq> []"
  obtains m1 source git where "internal m m1" and "source = Some (Source (Some git))"
    and "git_SelectedCommitId git = rs_SelectedCommitId rs" and "git_SelectedRemoteName git = rs_SelectedRemoteName rs"
    and "git_SelectedBranchName git = rs_SelectedBranchName rs"
    and "staged m (newUuid E 0) (\<lambda>g. g_Source g = source \<and> g_EvalErr g = [] \<and>
           g_BuildStatus g = ''initialized'' \<and> g_BuildErr g = []) m1"
    and "flow m1 = (Some (newUuid E 0, source, None), None, [], [], False)"
proof -
  let ?m = "m\<lparr>mg_brokerEvents := es\<rparr>" and ?e = "mk_event (Event_Fetched True True (Some rs)) now"
  fix V :: benv
  have idle: "bu_evaluator (mg_builder ?m) = None" "bu_buildator (mg_builder ?m) = None"
    "fresh_uuids E (st_persisted (mg_store ?m))"
    using assms(1,3) by (simp_all add: idle_pipeline_def flow_def)
  show thesis
  proof (rule fetched_is_evaluated [OF idle, of V rs now])
    fix b g git
    assume b: "on_event V E ?e ?m = with_builder b ?m" "GenerationGet (newUuid E 0) (bu_store b) = Inr g"
      "g_EvalErr g = []" "g_BuildStatus g = ''initialized''" "g_BuildErr g = []"
      "g_Source g = Some (Source (Some git))" "bu_evaluator b = Some (newUuid E 0, g_Source g, None)"
      "bu_GenerationUuid b = newUuid E 0" "\<not> bu_isBuilding b" "bu_buildator b = None"
      "bu_EvaluationDone b = bu_EvaluationDone (mg_builder ?m)" "bu_BuildDone b = bu_BuildDone (mg_builder ?m)"
      "bu_isSuspended b = bu_isSuspended (mg_builder ?m)"
      and git: "git_SelectedCommitId git = rs_SelectedCommitId rs" "git_SelectedRemoteName git = rs_SelectedRemoteName rs"
      "git_SelectedBranchName git = rs_SelectedBranchName rs"
    have "manager_act Tau m (with_builder b ?m)"
      using ma_event [OF _ assms(2,3,4), of V] assms(1) b(1) by (simp add: idle_pipeline_def)
    moreover have "generationGet (newUuid E 0) (st_Generations (bu_store b)) = Some g"
      using b(2) by (simp add: GenerationGet_def split: option.splits)
    moreover have "same_deployments (mg_store m) (bu_store b)"
      using on_event_same [of ?m V E ?e] b(1) by simp
    ultimately show thesis
      using that [of "with_builder b ?m" "g_Source g" git] assms(1) b(3-) git
      by (simp add: staged_def flow_def idle_pipeline_def) (simp add: with_builder_def r_into_rtranclp)
  qed
qed

abbreviation fresh_gen :: "Source option \<Rightarrow> Generation \<Rightarrow> bool" where
  "fresh_gen source g \<equiv> g_Source g = source \<and> g_EvalErr g = [] \<and> g_BuildStatus g = ''initialized'' \<and> g_BuildErr g = []"

abbreviation evaluated_gen :: "Source option \<Rightarrow> string \<Rightarrow> string \<Rightarrow> string \<Rightarrow> Generation \<Rightarrow> bool" where
  "evaluated_gen source drv out mid g \<equiv> fresh_gen source g \<and> g_EvalStatus g = ''evaluated'' \<and> g_DrvPath g = drv \<and>
     g_OutPath g = out \<and> g_MachineId g = mid"

abbreviation built_gen :: "Source option \<Rightarrow> string \<Rightarrow> Generation \<Rightarrow> bool" where
  "built_gen source out g \<equiv> g_Source g = source \<and> g_OutPath g = out \<and> g_BuildErr g = []"

text \<open>The evaluation ends: an existing store path counts as built.\<close>

lemma stage_eval:
  fixes V :: benv
  assumes "staged m0 u (fresh_gen source) m" and "flow m = (Some (u, source, None), None, [], [], False)"
    and "bv_Eval V source = (drv, out, mid, None)"
  obtains m' where "internal m m'" and
    "if bv_IsStorePathExist V out
     then staged m0 u (built_gen source out) m' \<and> flow m' = (None, None, [], [u], False)
     else staged m0 u (evaluated_gen source drv out mid) m' \<and> flow m' = (None, None, [u], [], False)"
proof -
  obtain g where g: "generationGet u (st_Generations (mg_store m)) = Some g" "fresh_gen source g"
    using assms(1) by (auto simp: staged_def)
  obtain b where b: "eval_finish V (the_builder m) = Some b"
    using assms(2) eval_finish_None [of V "the_builder m"] by (auto simp: flow_def the_builder_def)
  have step: "internal m (with_builder b m)" using ma_eval_finish [OF b] by blast
  have "same_deployments (mg_store m) (bu_store b)" using narrows_same [OF eval_finish_narrows [OF b]] by simp
  with assms(1) have same: "same_deployments (mg_store m0) (bu_store b)"
    by (auto simp: staged_def intro: same_deployments_trans)
  show thesis
  proof (cases "bv_IsStorePathExist V out")
    case True
    obtain s1 s2 s3 where s: "GenerationEvalFinished (bv_env V 0) u drv out mid None (mg_store m) = Inr s1"
      "GenerationBuildStart (bv_env V 1) u BuildReasonAlreadyBuilt s1 = Inr s2"
      "GenerationBuildFinished (bv_env V 2) u None s2 = Inr s3"
      and g': "\<exists>g'. generationGet u (st_Generations s3) = Some g' \<and> g_BuildStatus g' = ''built'' \<and>
      g_BuildErr g' = [] \<and> g_OutPath g' = out \<and> g_MachineId g' = mid \<and> g_Source g' = g_Source g \<and>
      g_EvalErr g' = (case None of None \<Rightarrow> g_EvalErr g | Some e \<Rightarrow> e)"
      by (rule already_built_chain [OF g(1)])
    have "b = (the_builder m)\<lparr>bu_isEvaluating := False, bu_evaluator := None, bu_store := s3, bu_BuildDone := [u]\<rparr>"
      using b assms(2,3) True s by (auto simp: eval_finish_def Let_def logged_def flow_def the_builder_def exec_result_def)
    then show thesis
      using that [OF step] g' g(2) True assms(1,2) same
      by (auto simp: staged_def flow_def the_builder_def with_builder_def)
  next
    case False
    obtain s1 where s1: "GenerationEvalFinished (bv_env V 0) u drv out mid None (mg_store m) = Inr s1"
      using g(1) by (auto simp: GenerationEvalFinished_def change_generation_def)
    have "generationGet u (st_Generations s1) = Some (eval_finished (bv_env V 0) drv out mid None g)"
      using eval_done.ok_get [OF s1 [unfolded GenerationEvalFinished_def]] g(1) by auto
    moreover have "b = (the_builder m)\<lparr>bu_store := s1, bu_isEvaluating := False, bu_evaluator := None, bu_EvaluationDone := [u]\<rparr>"
      using b assms(2,3) False s1 by (auto simp: eval_finish_def Let_def logged_def flow_def the_builder_def exec_result_def)
    ultimately show thesis
      using that [OF step] g(2) False assms(1,2) same
      by (auto simp: staged_def flow_def the_builder_def with_builder_def eval_finished_def)
  qed
qed

text \<open>The end of the evaluation is submitted to the build confirmer, confirmed, and the build starts.\<close>

lemma stage_build:
  assumes "staged m0 u (evaluated_gen source drv out mid) m" and "flow m = (None, None, [u], [], False)"
    and "mid = [] \<or> mid = mg_machineId m0" and "u \<noteq> []"
  obtains m' where "internal m m'" and "staged m0 u (built_gen source out) m'"
    and "flow m' = (None, Some (u, drv, None), [], [], True)"
proof -
  fix V :: benv
  obtain g where g: "generationGet u (st_Generations (mg_store m)) = Some g" "evaluated_gen source drv out mid g"
    using assms(1) by (auto simp: staged_def)
  obtain c1 c2 where c: "confirmer_select 0 (CSubmit u) (mg_BuildConfirmer m) = Some c1"
    "confirmer_deliver c1 = Some (u, c2)" "quiet_confirmer c2"
    using quiet_sends [of "mg_BuildConfirmer m" u] assms(1,4) by (auto simp: staged_def)
  let ?m1 = "m\<lparr>mg_builder := (mg_builder m)\<lparr>bu_EvaluationDone := []\<rparr>\<rparr>"
  let ?m2 = "?m1\<lparr>mg_pc := SubmittingBuild u\<rparr>"
  let ?m3 = "?m2\<lparr>mg_BuildConfirmer := c1, mg_pc := Selecting\<rparr>"
  let ?m4 = "?m3\<lparr>mg_BuildConfirmer := c2\<rparr>"
  let ?m5 = "on_build_confirmed V u ?m4"
  have "on_evaluation_done u ?m1 = ?m2"
    using g assms(1,3) by (auto simp: on_evaluation_done_def GenerationGet_def staged_def)
  then have s1: "manager_act Tau m ?m2"
    using ma_evaluated [of m u "[]"] assms(1,2) by (simp add: staged_def flow_def)
  have s2: "manager_act Tau ?m2 ?m3" by (rule ma_submit_build) (use c(1) in simp_all)
  have s3: "manager_act Tau ?m3 ?m5"
    using ma_build_confirmed [of ?m3 u c2 V] c(2) by simp
  obtain s where s: "GenerationBuildStart (bv_env V 6) u BuildReasonNeedBuild (mg_store m) = Inr s"
    using g(1) by (auto simp: GenerationBuildStart_def change_generation_def)
  have "same_deployments (mg_store m0) s"
    using assms(1) narrows_same [OF generation_narrows(2) [OF s]] by (auto simp: staged_def intro: same_deployments_trans)
  then have same: "same_deployments (mg_store m0) (open_log (bv_env V 7) ''build'' (g_Uuid g) s)"
    by (simp add: same_deployments_def open_log_def)
  obtain g' where g': "generationGet u (st_Generations s) = Some g'" "built_gen source out g'"
    using build_started.ok_get [OF s [unfolded GenerationBuildStart_def]] g by auto
  have "SubmitBuild V u (the_builder ?m4) = (the_builder ?m4)\<lparr>bu_store := open_log (bv_env V 7) ''build'' (g_Uuid g) s,
      bu_isBuilding := True, bu_buildator := Some (u, drv, None)\<rparr>"
    using g s assms(1,2) by (auto simp: SubmitBuild_def build_def the_builder_def staged_def flow_def GenerationGet_def)
  then have "staged m0 u (built_gen source out) ?m5" "flow ?m5 = (None, Some (u, drv, None), [], [], True)"
    using assms(1,2) g' c(3) same
    by (simp_all add: on_build_confirmed_def staged_def flow_def the_builder_def with_builder_def)
  moreover have "internal m ?m5"
    by (rule internal_step [OF s1 internal_step [OF s2 internal_step [OF s3]]]) simp
  ultimately show thesis using that by blast
qed

text \<open>The build ends.\<close>

lemma stage_built:
  fixes V :: benv
  assumes "staged m0 u (built_gen source out) m" and "flow m = (None, Some (u, drv, None), [], [], True)"
    and "bv_Build V drv = None"
  obtains m' where "internal m m'" and "staged m0 u (built_gen source out) m'" and "flow m' = (None, None, [], [u], False)"
proof -
  obtain g where g: "generationGet u (st_Generations (mg_store m)) = Some g" "built_gen source out g"
    using assms(1) by (auto simp: staged_def)
  then obtain s where s: "GenerationBuildFinished (bv_env V 3) u None (mg_store m) = Inr s"
    by (auto simp: GenerationBuildFinished_def change_generation_def)
  from s have get: "generationGet u (st_Generations s) = Some (build_finished (bv_env V 3) None g)"
  proof (rule GenerationBuildFinished_change)
    fix t assume c: "change_generation (build_finished (bv_env V 3) None) (\<lambda>s. s\<lparr>st_lastBuildFinished := Some u\<rparr>)
        Event_BuildFinished (clk (bv_env V 3) 1) u t = Inr s" and "st_Generations t = st_Generations (mg_store m)"
    with build_done.ok_get [OF c] g(1) show ?thesis by auto
  qed
  let ?b = "(the_builder m)\<lparr>bu_store := s, bu_isBuilding := False, bu_buildator := None, bu_BuildDone := [u]\<rparr>"
  have "build_finish V (the_builder m) = Some ?b"
    using assms(2,3) s by (simp add: build_finish_def flow_def the_builder_def logged_def exec_result_def)
  then have "internal m (with_builder ?b m)" using ma_build_finish by blast
  moreover have "same_deployments (mg_store m0) s"
    using assms(1) narrows_same [OF GenerationBuildFinished_narrows [OF s]]
    by (auto simp: staged_def intro: same_deployments_trans)
  ultimately show thesis
    using that [of "with_builder ?b m"] get g(2) assms(1,2)
    by (simp add: staged_def flow_def the_builder_def with_builder_def build_finished_def)
qed

text \<open>From the start of the evaluation to the announcement of the end of the build.\<close>

lemma stage_until_built:
  fixes V :: benv
  assumes "staged m0 u (fresh_gen source) m" and "flow m = (Some (u, source, None), None, [], [], False)"
    and "bv_Eval V source = (drv, out, mid, None)" and "mid = [] \<or> mid = mg_machineId m0" and "bv_Build V drv = None"
    and "u \<noteq> []"
  obtains m' where "internal m m'" and "staged m0 u (built_gen source out) m'" and "flow m' = (None, None, [], [u], False)"
proof -
  obtain a where a: "internal m a" and evaluated: "if bv_IsStorePathExist V out
     then staged m0 u (built_gen source out) a \<and> flow a = (None, None, [], [u], False)
     else staged m0 u (evaluated_gen source drv out mid) a \<and> flow a = (None, None, [u], [], False)"
    using stage_eval [OF assms(1-3)] .
  show thesis
  proof (cases "bv_IsStorePathExist V out")
    case True
    show thesis by (rule that [OF a]) (use evaluated True in simp_all)
  next
    case False
    then have "staged m0 u (evaluated_gen source drv out mid) a" "flow a = (None, None, [u], [], False)"
      using evaluated by simp_all
    then obtain b where b: "internal a b" "staged m0 u (built_gen source out) b" "flow b = (None, Some (u, drv, None), [], [], True)"
      using stage_build [OF _ _ assms(4,6)] by blast
    obtain c where "internal b c" "staged m0 u (built_gen source out) c" "flow c = (None, None, [], [u], False)"
      using stage_built [OF b(2,3) assms(5)] .
    then show thesis using that [of c] rtranclp_trans [OF rtranclp_trans [OF a b(1)]] by simp
  qed
qed

text \<open>The built generation is submitted to the deploy confirmer, confirmed and submitted to the deployer.\<close>

lemma stage_submit:
  assumes "staged m0 u (built_gen (Some (Source (Some git))) out) m" and "flow m = (None, None, [], [u], False)"
    and "op = getOperationFromConfigurationOperations (mg_configurationOperations m0)
           (git_SelectedRemoteName git) (git_SelectedBranchName git)"
    and "\<forall>previous. dp_previousDeployment (mg_deployer m0) = Some previous \<longrightarrow>
           d_OutPath previous \<noteq> out \<or> d_Operation previous \<noteq> op"
    and "dp_generationAvailableCh (mg_deployer m0) = []" and "u \<noteq> []"
  obtains m' g reason where "internal m m'" and "built_gen (Some (Source (Some git))) out g" and "g_Uuid g = u"
    and "mg_deployer m' = (the_deployer m)\<lparr>dp_GenerationToDeploy := Some g, dp_Operation := op, dp_Reason := reason,
           dp_generationAvailableCh := [()]\<rparr>" and "mg_store m' = mg_store m"
proof -
  obtain g where g: "generationGet u (st_Generations (mg_store m)) = Some g" "built_gen (Some (Source (Some git))) out g"
    using assms(1) by (auto simp: staged_def)
  have "quiet_confirmer (mg_DeployConfirmer m)" using assms(1) by (simp add: staged_def)
  from quiet_sends [OF this assms(6)] obtain c1 c2 where
    c: "confirmer_select 0 (CSubmit u) (mg_DeployConfirmer m) = Some c1" "confirmer_deliver c1 = Some (u, c2)"
    by blast
  let ?m1 = "m\<lparr>mg_builder := (mg_builder m)\<lparr>bu_BuildDone := []\<rparr>\<rparr>"
  let ?m2 = "?m1\<lparr>mg_pc := SubmittingDeploy u\<rparr>"
  let ?m3 = "?m2\<lparr>mg_DeployConfirmer := c1, mg_pc := Selecting\<rparr>"
  let ?m4 = "?m3\<lparr>mg_DeployConfirmer := c2\<rparr>"
  let ?m5 = "on_deploy_confirmed u ?m4"
  have new: "\<not> IsAlreadyDeployed g op d" if "dp_previousDeployment d = dp_previousDeployment (mg_deployer m0)" for d
    using assms(4) g(2) that by (auto simp: IsAlreadyDeployed_def split: option.split)
  have op: "generation_operation g m' = Some op"
    if "mg_configurationOperations m' = mg_configurationOperations m0" for m'
    using g(2) that assms(3) by (simp add: generation_operation_def)
  have "on_build_done u ?m1 = ?m2"
    using g assms(1) op [of ?m1] new [of "mg_deployer m"] by (auto simp: on_build_done_def GenerationGet_def staged_def)
  then have s1: "manager_act Tau m ?m2"
    using ma_built [of m u "[]"] assms(1,2) by (simp add: staged_def flow_def)
  have s2: "manager_act Tau ?m2 ?m3" by (rule ma_submit_deploy) (use c(1) in simp_all)
  have s3: "manager_act Tau ?m3 ?m5" using ma_deploy_confirmed [of ?m3 u c2] c(2) by simp
  have run: "internal m ?m5"
    by (rule internal_step [OF s1 internal_step [OF s2 internal_step [OF s3]]]) simp
  have fields: "mg_configurationOperations ?m4 = mg_configurationOperations m0" "mg_deployer ?m4 = mg_deployer m0"
    using assms(1) by (simp_all add: staged_def)
  let ?r = "''The generation '' @ u @ '' needs to be deployed''"
  have m5: "?m5 = with_deployer (Submit g op False ?r (the_deployer ?m4)) ?m4"
    using g(1) op [OF fields(1)] by (simp add: on_deploy_confirmed_def GenerationGet_def)
  have "Submit g op False ?r (the_deployer ?m4) = (the_deployer m)\<lparr>dp_GenerationToDeploy := Some g, dp_Operation := op,
      dp_Reason := ?r, dp_generationAvailableCh := [()]\<rparr>"
    using new [of "the_deployer ?m4"] fields(2) assms(5) by (simp add: Submit_def the_deployer_def)
  with m5 have "mg_deployer ?m5 = (the_deployer m)\<lparr>dp_GenerationToDeploy := Some g, dp_Operation := op,
      dp_Reason := ?r, dp_generationAvailableCh := [()]\<rparr>" "mg_store ?m5 = mg_store m" by simp_all
  with run g show thesis using that gen_table.get_key [OF g(1)] by blast
qed

text \<open>A deployment that is newer than the stored ones is found under its UUID once it is created.\<close>

lemma new_deployment_found:
  assumes "NewDeployment E g op r bp sp s = (dpl, t)" and "distinct (map d_Uuid (st_Deployments s))"
    and "newUuid E 0 \<notin> d_Uuid ` set (st_Deployments s)" and "newUuid E 1 \<notin> d_Uuid ` set (st_Deployments s)"
    and "newUuid E 2 \<notin> d_Uuid ` set (st_Deployments s)" and "inj (newUuid E)"
    and "1 \<le> ps_DeploymentAnyCapacity (st_persisted s)" and "0 < clk E 0"
    and "\<forall>x \<in> set (st_Deployments s). AsTime (d_CreatedAt x) < clk E 0"
  shows "deploymentGet (d_Uuid dpl) (st_Deployments t) = Some dpl" and "dpl = new_deployment E g op r sp"
proof -
  show d: "dpl = new_deployment E g op r sp" using assms(1) by (simp add: NewDeployment_def Let_def)
  let ?t = "updateDataDeployments E (newUuid E 1) (newUuid E 2) bp sp (Some dpl) s"
  have t: "st_Deployments t = st_Deployments ?t"
    using assms(1) by (auto simp: NewDeployment_def Let_def d)
  have ok: "uuids_ok (newUuid E 1) (newUuid E 2) (st_Deployments s) (Some dpl)"
    using assms(2-6) by (intro uuids_ok_fresh(3)) (simp_all add: d inj_eq)
  then have "newest dpl ?t" using assms(7-9) by (intro updateDataDeployments_newest) (simp_all add: d)
  moreover have "distinct (map d_Uuid (st_Deployments ?t))"
    using retention_result_wellformed [OF ok] by (simp add: updateDataDeployments_retention)
  ultimately show "deploymentGet (d_Uuid dpl) (st_Deployments t) = Some dpl"
    unfolding t by (intro dpl_table.get_distinct) (simp_all add: newest_def)
qed

text \<open>The deployer takes the submission, creates the deployment and starts it.\<close>

lemma runner_deploys:
  assumes "dp_pc d = WaitGeneration" and "dp_generationAvailableCh d = [()]" and "\<not> dp_isSuspended d"
    and "dp_GenerationToDeploy d = Some g" and "distinct (map d_Uuid (st_Deployments (dp_store d)))"
    and "\<forall>i. newUuid (dv_env W) i \<notin> d_Uuid ` set (st_Deployments (dp_store d))" and "inj (newUuid (dv_env W))"
    and "1 \<le> ps_DeploymentAnyCapacity (st_persisted (dp_store d))" and "0 < clk (dv_env W) 0"
    and "\<forall>x \<in> set (st_Deployments (dp_store d)). AsTime (d_CreatedAt x) < clk (dv_env W) 0"
  obtains d' dpl booted current where "run_steps W d d'" and "dp_pc d' = Execute g dpl booted current"
    and "d_Generation dpl = g" and "d_OperationSubmitted dpl = dp_Operation d" and "dp_deployment d' = Some dpl"
proof -
  let ?d1 = "d\<lparr>dp_generationAvailableCh := [], dp_pc := CheckSuspended\<rparr>"
  let ?d2 = "?d1\<lparr>dp_pc := Take\<rparr>"
  let ?d3 = "?d2\<lparr>dp_GenerationToDeploy := None, dp_pc := Create (Some g) (dp_Operation d)\<rparr>"
  obtain b c where bc: "GetBootedAndCurrentStorepaths (dv_env W) = (b, c)" by fastforce
  obtain dpl s where ds: "NewDeployment (dv_env W) g (dp_Operation d) (dp_Reason d) b c (dp_store d) = (dpl, s)"
    by fastforce
  note found = new_deployment_found [OF ds assms(5) assms(6) [rule_format] assms(6) [rule_format] assms(6) [rule_format] assms(7-10)]
  let ?d4 = "?d3\<lparr>dp_store := s, dp_pc := Announce g dpl b c\<rparr>"
  let ?d5 = "?d4\<lparr>dp_previousDeployment := dp_deployment d, dp_deployment := Some dpl, dp_isDeploying := True,
      dp_pc := Start g dpl b c\<rparr>"
  let ?dpl = "deployment_started (dv_env W) dpl"
  obtain s' where s': "DeploymentStarted (dv_env W) (d_Uuid dpl) b c s = Inr (?dpl, s')"
    using found(1) by (simp add: DeploymentStarted_def change_deployment_def Let_def)
  let ?d6 = "?d5\<lparr>dp_store := s', dp_deployment := Some ?dpl, dp_pc := Execute g ?dpl b c\<rparr>"
  have "runner_step W d = Some ?d1" "runner_step W ?d1 = Some ?d2" "runner_step W ?d2 = Some ?d3"
    "runner_step W ?d3 = Some ?d4" "runner_step W ?d4 = Some ?d5" "runner_step W ?d5 = Some ?d6"
    using assms(1-4) bc ds s' by (simp_all add: runner_step.simps Let_def)
  then have "run_steps W d ?d6" by (meson run_steps_Cons run_steps_refl)
  moreover have "d_Generation ?dpl = g" "d_OperationSubmitted ?dpl = dp_Operation d"
    by (simp_all add: deployment_started_def found(2)) (simp add: new_deployment_def Let_def split: prod.split)
  ultimately show thesis using that [of ?d6 ?dpl b c] by simp
qed

lemma run_steps_internal:
  "run_steps W (the_deployer m) d \<Longrightarrow> \<exists>m'. internal m m' \<and> the_deployer m' = d"
  unfolding run_steps_def
proof (induction rule: rtranclp_induct)
  case (step d d')
  then obtain m' where m': "internal m m'" "the_deployer m' = d" by blast
  then have "manager_act Tau m' (with_deployer d' m')" using step(2) by (intro ma_deployer) simp
  with m'(1) have "internal m (with_deployer d' m')" by (rule rtranclp.rtrancl_into_rtrancl)
  then show ?case using the_deployer_simps(3) by blast
qed blast

text \<open>The deployer of the composed system, on a store that has the deployments of \<open>s0\<close>.\<close>

lemma stage_deploy:
  fixes W :: denv
  assumes "mg_deployer m = d\<lparr>dp_GenerationToDeploy := Some g, dp_Operation := op, dp_Reason := reason,
      dp_generationAvailableCh := [()]\<rparr>" and "dp_pc d = WaitGeneration" and "\<not> dp_isSuspended d"
    and "same_deployments s0 (mg_store m)" and "distinct (map d_Uuid (st_Deployments s0))"
    and "fresh_uuids (dv_env W) (st_persisted s0)" and "1 \<le> ps_DeploymentAnyCapacity (st_persisted s0)"
    and "0 < clk (dv_env W) 0" and "\<forall>x \<in> set (st_Deployments s0). AsTime (d_CreatedAt x) < clk (dv_env W) 0"
  obtains m' dpl booted current where "internal m m'" and "dp_pc (mg_deployer m') = Execute g dpl booted current"
    and "d_Generation dpl = g" and "d_OperationSubmitted dpl = op"
proof -
  let ?d = "the_deployer m"
  have d: "dp_pc ?d = WaitGeneration" "dp_generationAvailableCh ?d = [()]" "\<not> dp_isSuspended ?d"
    "dp_GenerationToDeploy ?d = Some g" "dp_Operation ?d = op"
    using assms(1-3) by (simp_all add: the_deployer_def)
  have s: "distinct (map d_Uuid (st_Deployments (dp_store ?d)))"
    "\<forall>i. newUuid (dv_env W) i \<notin> d_Uuid ` set (st_Deployments (dp_store ?d))" "inj (newUuid (dv_env W))"
    "1 \<le> ps_DeploymentAnyCapacity (st_persisted (dp_store ?d))"
    "\<forall>x \<in> set (st_Deployments (dp_store ?d)). AsTime (d_CreatedAt x) < clk (dv_env W) 0"
    using fresh_uuidsD(2) [OF assms(6)] assms(4-7,9) by (simp_all add: fresh_uuids_def same_deployments_def)
  obtain d' dpl booted current where r: "run_steps W ?d d'" "dp_pc d' = Execute g dpl booted current"
    "d_Generation dpl = g" "d_OperationSubmitted dpl = op"
    using runner_deploys [OF d(1-4) s(1-4) assms(8) s(5)] d(5) by metis
  obtain m' where m': "internal m m'" "the_deployer m' = d'" using run_steps_internal [OF r(1)] by blast
  have "dp_pc (mg_deployer m') = Execute g dpl booted current" using m'(2) r(2) by (auto simp: the_deployer_def)
  then show thesis using that m'(1) r(3,4) by blast
qed

text \<open>
  An update \<open>rs\<close> can be deployed: the pipeline is idle, nothing is suspended and both confirmers are in mode
  without; the UUIDs are new; the selected commit evaluates to \<open>out\<close> for this machine and builds; its system
  is not the previous deployment with the operation \<open>op\<close> configured for its remote and branch; and the
  store keeps at least one deployment and has none from the future.
\<close>

definition ready_to_deploy ::
  "manager \<Rightarrow> GitRepositoryStatus \<Rightarrow> env \<Rightarrow> benv \<Rightarrow> denv \<Rightarrow> string \<Rightarrow> string \<Rightarrow> bool" where
  "ready_to_deploy m rs E V W out op \<longleftrightarrow> idle_pipeline m \<and>
     fresh_uuids E (st_persisted (mg_store m)) \<and> newUuid E 0 \<noteq> [] \<and>
     (\<forall>git. git_SelectedCommitId git = rs_SelectedCommitId rs \<longrightarrow>
        (\<exists>drv mid. bv_Eval V (Some (Source (Some git))) = (drv, out, mid, None) \<and>
           (mid = [] \<or> mid = mg_machineId m) \<and> bv_Build V drv = None)) \<and>
     op = getOperationFromConfigurationOperations (mg_configurationOperations m)
            (rs_SelectedRemoteName rs) (rs_SelectedBranchName rs) \<and>
     (\<forall>previous. dp_previousDeployment (mg_deployer m) = Some previous \<longrightarrow>
        d_OutPath previous \<noteq> out \<or> d_Operation previous \<noteq> op) \<and>
     distinct (map d_Uuid (st_Deployments (mg_store m))) \<and>
     fresh_uuids (dv_env W) (st_persisted (mg_store m)) \<and>
     1 \<le> ps_DeploymentAnyCapacity (st_persisted (mg_store m)) \<and> 0 < clk (dv_env W) 0 \<and>
     (\<forall>x \<in> set (st_Deployments (mg_store m)). AsTime (d_CreatedAt x) < clk (dv_env W) 0)"

lemma ready_to_deploy_events [simp]:
  "ready_to_deploy (m\<lparr>mg_brokerEvents := es\<rparr>) rs E V W out op = ready_to_deploy m rs E V W out op"
  by (simp add: ready_to_deploy_def idle_pipeline_def flow_def)

text \<open>
  Progress: when the manager has received such an update as verified, internal steps lead to the
  deployer having created and started a deployment of that commit, with the output path of its evaluation
  and the configured operation, right before the deployment function is called with them.
\<close>

lemma verified_update_deployed:
  fixes V :: benv and W :: denv
  assumes "ready_to_deploy m rs E V W out op"
    and "mg_brokerEvents m = mk_event (Event_Fetched True True (Some rs)) now # es"
  shows "\<exists>m' g git dpl booted current. internal m m' \<and>
    dp_pc (mg_deployer m') = Execute g dpl booted current \<and> g_Uuid g = newUuid E 0 \<and> g_OutPath g = out \<and>
    g_Source g = Some (Source (Some git)) \<and> git_SelectedCommitId git = rs_SelectedCommitId rs \<and>
    d_Generation dpl = g \<and> d_OperationSubmitted dpl = op"
proof -
  let ?u = "newUuid E 0"
  note ready = assms(1) [unfolded ready_to_deploy_def, THEN conjunct1]
    assms(1) [unfolded ready_to_deploy_def, THEN conjunct2]
  have fresh: "fresh_uuids E (st_persisted (mg_store m))" "?u \<noteq> []" using ready(2) by blast+
  have previous: "\<forall>previous. dp_previousDeployment (mg_deployer m) = Some previous \<longrightarrow>
      d_OutPath previous \<noteq> out \<or> d_Operation previous \<noteq> op" using ready(2) by blast
  have store: "distinct (map d_Uuid (st_Deployments (mg_store m)))"
    "fresh_uuids (dv_env W) (st_persisted (mg_store m))"
    "1 \<le> ps_DeploymentAnyCapacity (st_persisted (mg_store m))" "0 < clk (dv_env W) 0"
    "\<forall>x \<in> set (st_Deployments (mg_store m)). AsTime (d_CreatedAt x) < clk (dv_env W) 0" using ready(2) by blast+
  obtain m1 source git where m1: "internal m m1" "source = Some (Source (Some git))"
    "git_SelectedCommitId git = rs_SelectedCommitId rs" "git_SelectedRemoteName git = rs_SelectedRemoteName rs"
    "git_SelectedBranchName git = rs_SelectedBranchName rs"
    "staged m ?u (fresh_gen source) m1" "flow m1 = (Some (?u, source, None), None, [], [], False)"
    using stage_event [OF ready(1) assms(2) fresh] .
  obtain drv mid where V: "bv_Eval V source = (drv, out, mid, None)" "mid = [] \<or> mid = mg_machineId m" "bv_Build V drv = None"
    using ready(2) m1(2,3) by blast
  obtain m2 where m2: "internal m1 m2" "staged m ?u (built_gen source out) m2" "flow m2 = (None, None, [], [?u], False)"
    using stage_until_built [OF m1(6,7) V fresh(2)] .
  have idle: "dp_pc (mg_deployer m) = WaitGeneration" "dp_generationAvailableCh (mg_deployer m) = []"
    "\<not> dp_isSuspended (mg_deployer m)"
    using ready(1) by (simp_all add: idle_pipeline_def)
  have op: "op = getOperationFromConfigurationOperations (mg_configurationOperations m)
      (git_SelectedRemoteName git) (git_SelectedBranchName git)" using ready(2) m1(4,5) by simp
  obtain m3 g reason where m3: "internal m2 m3" "built_gen (Some (Source (Some git))) out g" "g_Uuid g = ?u"
    "mg_deployer m3 = (the_deployer m2)\<lparr>dp_GenerationToDeploy := Some g, dp_Operation := op, dp_Reason := reason,
       dp_generationAvailableCh := [()]\<rparr>" "mg_store m3 = mg_store m2"
    using stage_submit [OF m2(2) [unfolded m1(2)] m2(3) op previous idle(2) fresh(2)] .
  have "the_deployer m2 = (mg_deployer m)\<lparr>dp_store := mg_store m2\<rparr>" and same: "same_deployments (mg_store m) (mg_store m3)"
    using m2(2) m3(5) by (simp_all add: staged_def the_deployer_def)
  with m3(4) idle have d: "mg_deployer m3 = ((mg_deployer m)\<lparr>dp_store := mg_store m2\<rparr>)\<lparr>dp_GenerationToDeploy := Some g,
      dp_Operation := op, dp_Reason := reason, dp_generationAvailableCh := [()]\<rparr>" by simp
  obtain m4 dpl booted current where m4: "internal m3 m4" "dp_pc (mg_deployer m4) = Execute g dpl booted current"
    "d_Generation dpl = g" "d_OperationSubmitted dpl = op"
    by (rule stage_deploy [OF d _ _ same store]) (use idle in simp_all)
  have "internal m m4"
    using rtranclp_trans [OF rtranclp_trans [OF rtranclp_trans [OF m1(1) m2(1)] m3(1)] m4(1)] .
  then show ?thesis using m1(3) m3(2,3) m4(2-4) by blast
qed

lemma example_ready:
  "ready_to_deploy example_manager rs (example_env 0 1) example_benv (example_denv 9) ''st3''
     (getOperationFromConfigurationOperations (mg_configurationOperations example_manager)
        (rs_SelectedRemoteName rs) (rs_SelectedBranchName rs))"
proof -
  have "fresh_uuids (example_env n k) (st_persisted (mg_store example_manager))" for n k
    by (rule example_env_fresh) (simp add: example_manager_def manager_New_def store_simps)
  moreover have "idle_pipeline example_manager"
    by (simp add: idle_pipeline_def quiet_confirmer_def flow_def example_manager_def manager_New_def builder_New_def
        NewConfirmer_def example_deployer_def deployer_New_def store_simps DeployerState0_def)
  moreover have "newUuid (example_env 0 1) 0 \<noteq> []" by (simp add: example_env_def)
  moreover have "\<exists>drv mid. bv_Eval example_benv source = (drv, ''st3'', mid, None) \<and>
         (mid = [] \<or> mid = mg_machineId example_manager) \<and> bv_Build example_benv drv = None" for source
    by (simp add: example_benv_def)
  moreover have "dp_previousDeployment (mg_deployer example_manager) = None"
    "st_Deployments (mg_store example_manager) = []" "1 \<le> ps_DeploymentAnyCapacity (st_persisted (mg_store example_manager))"
    "0 < clk (dv_env (example_denv 9)) 0"
    by (simp_all add: example_manager_def manager_New_def example_deployer_def deployer_New_def store_simps example_denv_def)
  ultimately show ?thesis
    unfolding ready_to_deploy_def by (simp add: example_denv_def)
qed

end
