(* ===== verification/System.thy ===== *)
theory System
  imports Pipeline Fetcher
begin

text \<open>
  The fetcher and the composed system of the manager together, connected by the events of the broker:
  what a run from a start to a deployment guarantees about the deployed commit.
\<close>

section \<open>The composed system\<close>

text \<open>
  An event that reports a fetch reaches the manager only when the fetcher has published it (\<open>Broker\<close>: a
  subscriber receives what has been published, in order). The work of the fetcher uses a Git library that
  has no object with the zero hash.
\<close>

inductive system_act :: "manager_label \<Rightarrow> fetcher \<times> manager \<Rightarrow> fetcher \<times> manager \<Rightarrow> bool" where
  sa_submit: "system_act Tau (f, m) (fetcher_submit xs f, m)"
| sa_work: "fetcher_work V errString f = Some f' \<Longrightarrow> no_zero_commit V (rp_Repository (ft_repo f')) \<Longrightarrow>
    system_act Tau (f, m) (f', m)"
| sa_receive: "fetcher_receive now f = Some f' \<Longrightarrow> system_act Tau (f, m) (f', m)"
| sa_manager: "manager_act a m m' \<Longrightarrow>
    (\<And>e updated verified rs. a = Deliver e \<Longrightarrow> ev_Type e = Some (Event_Fetched updated verified rs) \<Longrightarrow>
       e \<in> set (ft_published f)) \<Longrightarrow>
    system_act a (f, m) (f, m')"

definition system_init :: "fetcher \<Rightarrow> manager \<Rightarrow> Mode \<Rightarrow> int \<Rightarrow> fetcher \<times> manager \<Rightarrow> bool" where
  "system_init f0 m0 mode duration s \<longleftrightarrow> s = (f0, m0) \<and> fetcher_init f0 \<and> manager_init m0 \<and>
     mg_DeployConfirmer m0 = NewConfirmer mode duration"

text \<open>A commit that one of the configured keys verifies, in some state of the repository and its library.\<close>

definition trusted_commit :: "repository \<Rightarrow> string \<Rightarrow> bool" where
  "trusted_commit r0 commit \<longleftrightarrow> (\<exists>V r. rp_gpgPubliKeys r = rp_gpgPubliKeys r0 \<and>
     rp_sshAllowedSigners r = rp_sshAllowedSigners r0 \<and> trusted V r commit)"

section \<open>What the fetcher publishes\<close>

definition same_keys :: "repository \<Rightarrow> repository \<Rightarrow> bool" where
  "same_keys r0 r \<longleftrightarrow> rp_gpgPubliKeys r = rp_gpgPubliKeys r0 \<and> rp_sshAllowedSigners r = rp_sshAllowedSigners r0"

definition status_trusted :: "repository \<Rightarrow> GitRepositoryStatus \<Rightarrow> bool" where
  "status_trusted r0 rs \<longleftrightarrow> (is_verified rs \<longrightarrow> trusted_commit r0 (rs_SelectedCommitId rs))"

definition published_trusted :: "repository \<Rightarrow> fetcher \<Rightarrow> bool" where
  "published_trusted r0 f \<longleftrightarrow> fetcher_inv f \<and> same_keys r0 (ft_repo f) \<and>
     (\<forall>names rs. ft_worker f = Sending names rs \<longrightarrow> status_trusted r0 rs) \<and>
     (\<forall>e \<in> set (ft_published f). \<forall>updated rs. ev_Type e = Some (Event_Fetched updated True (Some rs)) \<longrightarrow>
        trusted_commit r0 (rs_SelectedCommitId rs))"

lemma Fetch_same_keys: "Fetch V names r = Some r' \<Longrightarrow> same_keys r r'"
  by (auto simp: Fetch_def same_keys_def dest!: fetch_loop_keys)

lemma fetcher_launch_frames [simp]:
  "ft_repo (fetcher_launch f) = ft_repo f" "ft_published (fetcher_launch f) = ft_published f"
  "ft_worker (fetcher_launch f) = Sending names rs \<longleftrightarrow> ft_worker f = Sending names rs \<and> (ft_isFetching f \<or> ft_remotes f = [])"
  by (auto simp: fetcher_launch_def)

lemma published_submit: "published_trusted r0 f \<Longrightarrow> published_trusted r0 (fetcher_submit xs f)"
  using fetcher_submit_inv [of f xs] by (auto simp: published_trusted_def fetcher_submit_def)

lemma published_work:
  assumes "published_trusted r0 f" and "keys_configured r0" and "fetcher_work V errString f = Some f'"
    and "no_zero_commit V (rp_Repository (ft_repo f'))"
  shows "published_trusted r0 f'"
proof -
  have inv: "fetcher_inv f" using assms(1) by (simp add: published_trusted_def)
  obtain names where w: "ft_worker f = Working names"
    using assms(3) by (auto simp: fetcher_work_def split: worker.splits)
  have "repository_wf (ft_repo f)" using inv by (simp add: fetcher_inv_def)
  then obtain r1 where r1: "Fetch V names (ft_repo f) = Some r1" using fetch_total_ok by blast
  let ?r = "Update V errString r1"
  have f': "f' = f\<lparr>ft_repo := ?r, ft_worker := Sending names (rp_RepositoryStatus ?r)\<rparr>"
    using w assms(3) r1 by (simp add: fetcher_work_def FetchAndUpdate_def Let_def)
  have keys: "same_keys r0 r1" "same_keys r0 ?r"
    using assms(1) Fetch_same_keys [OF r1] by (simp_all add: published_trusted_def same_keys_def Update_frame)
  have "no_zero_commit V (rp_Repository r1)" "keys_configured r1"
    using assms(2,4) keys(1) by (simp_all add: f' Update_frame keys_configured_def same_keys_def)
  from signed_status_ok [OF this, of errString] keys(1)
  have "status_trusted r0 (rp_RepositoryStatus ?r)"
    unfolding status_trusted_def trusted_commit_def same_keys_def by (auto simp: is_verified_def)
  with keys(2) assms(1) fetcher_work_inv [OF inv assms(3)] show ?thesis by (simp add: f' published_trusted_def)
qed

lemma published_receive:
  assumes "published_trusted r0 f" and "fetcher_receive now f = Some f'"
  shows "published_trusted r0 f'"
proof -
  obtain names rs where w: "ft_worker f = Sending names rs"
    using assms(2) by (auto simp: fetcher_receive_def split: worker.splits)
  have f': "ft_repo f' = ft_repo f" "ft_published f' = ft_published f @ [fetched_event now rs (ft_repositoryStatus f)]"
    "\<forall>names rs. ft_worker f' \<noteq> Sending names rs"
    using assms(2) w by (auto simp: fetcher_receive_def simp del: fetcher_launch_frames(3))
      (auto simp: fetcher_launch_def split: if_splits)
  have "fetcher_inv f" using assms(1) by (simp add: published_trusted_def)
  then have "fetcher_inv f'" using assms(2) by (rule fetcher_receive_inv)
  then show ?thesis
    using assms(1) w f' by (auto simp: published_trusted_def status_trusted_def fetched_event_def mk_event_def)
qed

section \<open>Runs\<close>

definition delivered_trusted :: "repository \<Rightarrow> manager_label list \<Rightarrow> bool" where
  "delivered_trusted r0 as \<longleftrightarrow> (\<forall>e updated rs. Deliver e \<in> set as \<longrightarrow>
     ev_Type e = Some (Event_Fetched updated True (Some rs)) \<longrightarrow> trusted_commit r0 (rs_SelectedCommitId rs))"

definition system_inv :: "fetcher \<Rightarrow> manager \<Rightarrow> Mode \<Rightarrow> manager_label list \<Rightarrow> fetcher \<times> manager \<Rightarrow> bool" where
  "system_inv f0 m0 mode as s \<longleftrightarrow> published_trusted (ft_repo f0) (fst s) \<and> delivered_trusted (ft_repo f0) as \<and>
     provenance m0 mode as (snd s)"

lemma system_inv_act:
  assumes "keys_configured (ft_repo f0)" and "system_inv f0 m0 mode as s" and "system_act a s s'"
  shows "system_inv f0 m0 mode (a # as) s'"
  using assms(3,2)
proof cases
  case (sa_manager m m' f)
  have pub: "published_trusted (ft_repo f0) f" "delivered_trusted (ft_repo f0) as"
    using assms(2) sa_manager(1) by (simp_all add: system_inv_def)
  have "trusted_commit (ft_repo f0) (rs_SelectedCommitId rs)"
    if "Deliver e \<in> set (a # as)" "ev_Type e = Some (Event_Fetched updated True (Some rs))" for e updated rs
  proof (cases "a = Deliver e")
    case True
    then have "e \<in> set (ft_published f)" using sa_manager(4) that(2) by blast
    then show ?thesis using pub(1) that(2) by (auto simp: published_trusted_def)
  qed (use pub(2) that in \<open>auto simp: delivered_trusted_def\<close>)
  then have "delivered_trusted (ft_repo f0) (a # as)" by (auto simp: delivered_trusted_def)
  then show ?thesis
    using assms(2) sa_manager(1,2) provenance_act [OF _ sa_manager(3)] by (simp add: system_inv_def)
qed (use assms(1,2) in \<open>auto simp: system_inv_def delivered_trusted_def intro: provenance_mono published_submit
    published_receive published_work\<close>)

lemma system_inv_init:
  assumes "system_init f0 m0 mode duration s"
  shows "system_inv f0 m0 mode [] s"
proof -
  have "fetcher_inv f0" "ft_worker f0 = NoWorker" "ft_published f0 = []"
    using assms fetcher_runs.inv_init by (auto simp: system_init_def fetcher_init_def NewGitFetcher_def)
  then show ?thesis
    using assms provenance_init
    by (auto simp: system_init_def system_inv_def published_trusted_def same_keys_def delivered_trusted_def)
qed

interpretation system_history: history_of
  "\<lambda>s. keys_configured (ft_repo f0) \<and> system_init f0 m0 mode duration s" system_act
  "\<lambda>as s. keys_configured (ft_repo f0) \<and> system_inv f0 m0 mode as s" for f0 m0 mode duration
  by unfold_locales (auto intro: system_inv_init system_inv_act)

section \<open>From a fetch request to the deployment\<close>

text \<open>A run of the system that the broker alone keeps going: its labels are internal steps and events.\<close>

lemma internal_trace:
  assumes "internal m m'" and "trace init system_act as (f, m)"
  obtains as' where "trace init system_act as' (f, m')" and "set as' \<subseteq> insert Tau (set as)"
  using assms
proof (induction arbitrary: thesis rule: rtranclp_induct)
  case (step m1 m2)
  obtain as' where t: "trace init system_act as' (f, m1)" "set as' \<subseteq> insert Tau (set as)"
    using step.IH step.prems by blast
  have "system_act Tau (f, m1) (f, m2)" using step.hyps(2) by (rule sa_manager) simp
  from trace_act [OF t(1) this] show ?case using step.prems(1) t(2) by auto
qed blast

text \<open>A request of an idle fetcher is fetched at once, and the end of the fetch is published.\<close>

lemma fetch_published:
  assumes "reachable fetcher_init fetcher_step f" and "\<not> ft_isFetching f" and "xs \<noteq> []"
    and "Fetch G (union [] xs) (ft_repo f) = Some r" and "no_zero_commit G (rp_Repository r)"
    and "rs = rp_RepositoryStatus (Update G errString r)"
  obtains f' where "trace (\<lambda>s. s = (f, m)) system_act [Tau, Tau, Tau] (f', m)"
    and "fetched_event now rs (ft_repositoryStatus f) \<in> set (ft_published f')" and "ft_repo f' = Update G errString r"
proof -
  have "fetcher_inv f" using assms(1) by (rule fetcher_runs.reachable_inv)
  with assms(2) have idle: "ft_remotes f = []" "ft_worker f = NoWorker" by (auto simp: fetcher_inv_def)
  have names: "union [] xs \<noteq> []" using assms(3) set_union [of "[]" xs] by auto
  let ?f1 = "f\<lparr>ft_isFetching := True, ft_worker := Working (union [] xs), ft_remotes := []\<rparr>"
  let ?f2 = "?f1\<lparr>ft_repo := Update G errString r, ft_worker := Sending (union [] xs) rs\<rparr>"
  have "fetcher_submit xs f = ?f1" using assms(2) idle(1) names by (simp add: fetcher_submit_def fetcher_launch_def)
  then have s1: "system_act Tau (f, m) (?f1, m)" using sa_submit [of f m xs] by simp
  have "fetcher_work G errString ?f1 = Some ?f2"
    using assms(4,6) by (simp add: fetcher_work_def FetchAndUpdate_def Let_def)
  then have s2: "system_act Tau (?f1, m) (?f2, m)" by (rule sa_work) (simp add: Update_frame assms(5))
  obtain f3 where r: "fetcher_receive now ?f2 = Some f3" by (simp add: fetcher_receive_def)
  then have s3: "system_act Tau (?f2, m) (f3, m)" by (rule sa_receive)
  have "fetched_event now rs (ft_repositoryStatus f) \<in> set (ft_published f3)" "ft_repo f3 = Update G errString r"
    using r by (auto simp: fetcher_receive_def)
  moreover have "trace (\<lambda>s. s = (f, m)) system_act [Tau, Tau, Tau] (f3, m)"
    by (intro trace_act [OF trace_act [OF trace_act [OF trace_init]]], rule refl) (fact s1 s2 s3)+
  ultimately show thesis using that by blast
qed

text \<open>The run from the request of a fetch, over the published event, to the deployment function.\<close>

lemma fetch_run_deploys:
  fixes V :: benv and W :: denv and G :: genv
  assumes "reachable fetcher_init fetcher_step f" and "\<not> ft_isFetching f" and "xs \<noteq> []"
    and "Fetch G (union [] xs) (ft_repo f) = Some r" and "no_zero_commit G (rp_Repository r)"
    and "rs = rp_RepositoryStatus (Update G errString r)"
    and "is_updated rs (ft_repositoryStatus f)" and "is_verified rs"
    and "ready_to_deploy m rs E V W out op" and "mg_brokerEvents m = []"
  shows "\<exists>as f' m' g git dpl booted current. trace (\<lambda>s. s = (f, m)) system_act as (f', m') \<and>
    set as \<subseteq> {Tau, Deliver (fetched_event now rs (ft_repositoryStatus f))} \<and>
    dp_pc (mg_deployer m') = Execute g dpl booted current \<and> g_Uuid g = newUuid E 0 \<and> g_OutPath g = out \<and>
    g_Source g = Some (Source (Some git)) \<and> git_SelectedCommitId git = rs_SelectedCommitId rs \<and>
    d_Generation dpl = g \<and> d_OperationSubmitted dpl = op"
proof -
  let ?e = "fetched_event now rs (ft_repositoryStatus f)" and ?init = "\<lambda>s. s = (f, m)"
  obtain f' where f': "trace ?init system_act [Tau, Tau, Tau] (f', m)" "?e \<in> set (ft_published f')"
    using fetch_published [OF assms(1-6)] .
  let ?m = "m\<lparr>mg_brokerEvents := [?e]\<rparr>"
  have "manager_act (Deliver ?e) m ?m" using ma_broker [of m ?e] assms(10) by simp
  then have "system_act (Deliver ?e) (f', m) (f', ?m)" by (rule sa_manager) (use f'(2) in simp)
  from trace_act [OF f'(1) this] have t: "trace ?init system_act [Deliver ?e, Tau, Tau, Tau] (f', ?m)" .
  have "mg_brokerEvents ?m = mk_event (Event_Fetched True True (Some rs)) now # []"
    using assms(7,8) by (simp add: fetched_event_def)
  from verified_update_deployed [OF _ this, of E V W out op] assms(9)
  obtain m' g git dpl booted current where m': "internal ?m m'" "dp_pc (mg_deployer m') = Execute g dpl booted current"
    "g_Uuid g = newUuid E 0" "g_OutPath g = out" "g_Source g = Some (Source (Some git))"
    "git_SelectedCommitId git = rs_SelectedCommitId rs" "d_Generation dpl = g" "d_OperationSubmitted dpl = op"
    by auto
  obtain as where "trace ?init system_act as (f', m')" "set as \<subseteq> insert Tau (set [Deliver ?e, Tau, Tau, Tau])"
    using internal_trace [OF m'(1) t] .
  then show ?thesis using m'(2-) by (intro exI conjI) auto
qed

section \<open>Properties\<close>


text \<open>A repository whose commits carry a signature of the example signer.\<close>

definition example_trusted_repository :: repository where
  "example_trusted_repository = example_repository\<lparr>
     rp_Repository := example_repo\<lparr>gr_CommitObject := (\<lambda>h. if h \<in> {''a'', ''b'', ''c''}
       then Inr ((example_commit h)\<lparr>cm_PGPSignature := ''-----BEGIN SSH SIGNATURE-----''\<rparr>) else Inl ''object not found'')\<rparr>,
     rp_sshAllowedSigners := [example_signer]\<rparr>"

lemma example_trusted_signed:
  "h \<in> {''a'', ''b'', ''c''} \<Longrightarrow>
   commitSignedBy (gv_sig example_genv) (\<lambda>id. gr_CommitObject (rp_Repository example_trusted_repository)
     (gv_NewHash example_genv id)) h [] [example_signer] = Inr ''me@host''"
  by (auto simp: commitSignedBy_def commitSignedBySSH_def example_trusted_repository_def example_genv_def
      example_commit_def parseSSHSignature_def example_sigenv_def sshSignedData_def signer_verifies_def
      allowsNamespace_def example_signer_def TrimSpace_def IsSpace_def Let_def)

definition example_fetched :: repository where
  "example_fetched = the (Fetch example_genv [''origin''] example_trusted_repository)"

lemma example_fetched_eq: "Fetch example_genv [''origin''] example_trusted_repository = Some example_fetched"
  by (simp add: example_fetched_def Fetch_def fetch_remote_def example_trusted_repository_def example_repository_def
      example_remote_def GetRemote_def NewGitRepositoryStatus_def Let_def case_prod_unfold)

lemmas example_unfold =
  example_trusted_repository_def example_repository_def example_remote_def NewGitRepositoryStatus_def
  GitRepositoryStatus0_def Remote0_def Branch0_def example_genv_def example_repo_def example_commit_def

lemma example_fetched_fields:
  "rp_Repository example_fetched = rp_Repository example_trusted_repository"
  "rp_gpgPubliKeys example_fetched = []" "rp_sshAllowedSigners example_fetched = [example_signer]"
  "rs_MainCommitId (rp_RepositoryStatus example_fetched) = ''a''"
  "\<exists>r. rs_Remotes (rp_RepositoryStatus example_fetched) = [r] \<and> rm_FetchErrorMsg r = [] \<and> rm_Name r = ''origin'' \<and>
     br_Name (rm_Main r) = ''main'' \<and> br_Name (rm_Testing r) = ''testing''"
  by (simp_all add: example_fetched_def Fetch_def fetch_remote_def fetch_def fetch_auth_def record_fetch_def
      GetRemote_def Let_def example_unfold)

lemma example_trusted_head:
  "getHeadFromRemoteAndBranch example_genv (rp_Repository example_trusted_repository) ''origin'' ''main'' ''a'' =
     Inr (''b'', cm_Message (example_commit ''b''))"
  "getHeadFromRemoteAndBranch example_genv (rp_Repository example_trusted_repository) ''origin'' ''testing'' ''b'' =
     Inr (''c'', cm_Message (example_commit ''c''))"
  by (simp_all add: getHeadFromRemoteAndBranch_def getRemoteCommitHash_def hasNotBeenHardReset_def isAncestor_def
      example_unfold)

lemma example_fetched_status:
  "rs_SelectedCommitId (rp_RepositoryStatus (Update example_genv (\<lambda>_. []) example_fetched)) = ''c''"
  "rs_SelectedCommitSigned (rp_RepositoryStatus (Update example_genv (\<lambda>_. []) example_fetched)) = Some True"
proof -
  obtain r where r: "rs_Remotes (rp_RepositoryStatus example_fetched) = [r]" "rm_FetchErrorMsg r = []"
    "rm_Name r = ''origin''" "br_Name (rm_Main r) = ''main''" "br_Name (rm_Testing r) = ''testing''"
    using example_fetched_fields(5) by blast
  note facts = r example_fetched_fields(1-4) example_trusted_head example_trusted_signed
    Update_def check_signature_def select_commit_def found_head_def Let_def
  show "rs_SelectedCommitId (rp_RepositoryStatus (Update example_genv (\<lambda>_. []) example_fetched)) = ''c''"
    by (simp add: facts)
  show "rs_SelectedCommitSigned (rp_RepositoryStatus (Update example_genv (\<lambda>_. []) example_fetched)) = Some True"
    by (simp add: facts)
qed

lemma example_trusted_no_zero:
  "no_zero_commit example_genv (rp_Repository example_trusted_repository)"
  by (simp add: no_zero_commit_def example_unfold)

lemma example_trusted_wf: "repository_wf example_trusted_repository"
  by (simp add: repository_wf_def example_unfold)

lemma trace_weaken: "trace init act as s \<Longrightarrow> (\<And>s. init s \<Longrightarrow> init' s) \<Longrightarrow> trace init' act as s"
  by (induction rule: trace.induct) (auto intro: trace.intros)

lemma example_run:
  obtains as f m g git dpl booted current where
    "trace (\<lambda>s. s = (NewGitFetcher example_trusted_repository, example_manager)) system_act as (f, m)"
    and "dp_pc (mg_deployer m) = Execute g dpl booted current" and "g_Uuid g = ''u''" and "g_OutPath g = ''st3''"
    and "g_Source g = Some (Source (Some git))" and "git_SelectedCommitId git = ''c''"
proof -
  let ?f = "NewGitFetcher example_trusted_repository" and ?U = "Update example_genv (\<lambda>_. []) example_fetched"
  have "reachable fetcher_init fetcher_step ?f"
    by (rule reachable_init) (use example_trusted_wf in \<open>auto simp: fetcher_init_def\<close>)
  moreover have "\<not> ft_isFetching ?f" "Fetch example_genv (union [] [''origin'']) (ft_repo ?f) = Some example_fetched"
    by (simp_all add: NewGitFetcher_def example_fetched_eq)
  moreover have "no_zero_commit example_genv (rp_Repository example_fetched)"
    by (simp add: example_fetched_fields example_trusted_no_zero)
  moreover have "is_updated (rp_RepositoryStatus ?U) (ft_repositoryStatus ?f)" "is_verified (rp_RepositoryStatus ?U)"
    by (simp_all add: is_updated_def is_verified_def example_fetched_status NewGitFetcher_def) (simp add: example_unfold)
  moreover have "mg_brokerEvents example_manager = []" by (simp add: example_manager_def manager_New_def)
  moreover have "[''origin''] \<noteq> []" by simp
  ultimately obtain as f m g git dpl booted current where
    "trace (\<lambda>s. s = (?f, example_manager)) system_act as (f, m)"
    "dp_pc (mg_deployer m) = Execute g dpl booted current" "g_Uuid g = newUuid (example_env 0 1) 0" "g_OutPath g = ''st3''"
    "g_Source g = Some (Source (Some git))" "git_SelectedCommitId git = rs_SelectedCommitId (rp_RepositoryStatus ?U)"
    using fetch_run_deploys [OF _ _ _ _ _ refl _ _ example_ready, of ?f "[''origin'']" example_genv example_fetched "\<lambda>_. []" 0]
    by blast
  then show thesis using that example_fetched_status(1) by simp
qed


end
