(* ===== verification/Clients.thy ===== *)
theory Clients
  imports Manager_Correct Go_Strings
begin

text \<open>
  What the clients of the agent compute from its state and its events: the model of the terminal
  interface (\<open>pkg/tui/tui.go\<close>, \<open>cmd/watch.go\<close>), the listings of deployments (\<open>cmd/deployment.go\<close>) and the
  desktop notifications (\<open>cmd/desktop.go\<close>). What they print is not modelled beyond the choice of what
  to print.
\<close>

section \<open>The model of the terminal interface\<close>

record FetcherModel =
  fm_IsFetching :: bool
  fm_GitRepositoryStatus :: "GitRepositoryStatus option"

record BuilderModel =
  bm_IsEvaluating :: bool
  bm_IsBuilding :: bool
  bm_IsSuspended :: bool
  bm_Generation :: "Generation option"
  bm_LogLines :: "string list"

record DeployerModel =
  dm_IsDeploying :: bool
  dm_IsSuspended :: bool
  dm_Deployment :: "Deployment option"
  dm_LogLines :: "string list"

record ManagerModel =
  mm_NeedToReboot :: bool
  mm_IsSuspended :: bool
  mm_Hostname :: string
  mm_ConnectionMsg :: string
  mm_Fetcher :: FetcherModel
  mm_Builder :: BuilderModel
  mm_Deployer :: DeployerModel

definition commitMsgSummary :: "string \<Rightarrow> string" where
  "commitMsgSummary msg =
     (let s = TrimSpace msg; first = takeWhile (\<lambda>c. c \<noteq> CHR 0x0A) s; rest = drop (Suc (length first)) s
      in if CHR 0x0A \<in> set s \<and> TrimSpace rest \<noteq> [] then first @ ''...'' else first)"

definition add_log :: "string \<Rightarrow> string list \<Rightarrow> string list" where
  "add_log msg lines =
     (let lines' = lines @ [msg] in if length lines' > 10 then drop (length lines' - 10) lines' else lines')"

definition show_state :: "pbState \<Rightarrow> ManagerModel \<Rightarrow> ManagerModel" where
  "show_state st mm =
     (let mm1 = mm\<lparr>mm_NeedToReboot := GetValue (sm_NeedToReboot st), mm_IsSuspended := GetValue (sm_IsSuspended st)\<rparr>;
          mm2 = (case sm_Builder st of
                   None \<Rightarrow> mm1
                 | Some b \<Rightarrow> mm1\<lparr>mm_Hostname := pbb_Hostname b,
                     mm_Builder := (mm_Builder mm1)\<lparr>bm_IsEvaluating := GetValue (pbb_IsEvaluating b),
                       bm_IsBuilding := GetValue (pbb_IsBuilding b), bm_IsSuspended := GetValue (pbb_IsSuspended b),
                       bm_Generation := pbb_Generation b\<rparr>\<rparr>);
          mm3 = (case sm_Deployer st of
                   None \<Rightarrow> mm2
                 | Some d \<Rightarrow> mm2\<lparr>mm_Deployer := (mm_Deployer mm2)\<lparr>dm_IsDeploying := GetValue (pd_IsDeploying d),
                     dm_IsSuspended := GetValue (pd_IsSuspended d), dm_Deployment := pd_Deployment d\<rparr>\<rparr>)
      in case sm_Fetcher st of
           None \<Rightarrow> mm3
         | Some f \<Rightarrow> mm3\<lparr>mm_Fetcher := \<lparr>fm_IsFetching = GetValue (pf_IsFetching f),
             fm_GitRepositoryStatus = pf_GitRepositoryStatus f\<rparr>\<rparr>)"

definition upd_builder :: "(BuilderModel \<Rightarrow> BuilderModel) \<Rightarrow> ManagerModel \<Rightarrow> ManagerModel" where
  "upd_builder f mm = mm\<lparr>mm_Builder := f (mm_Builder mm)\<rparr>"

definition upd_deployer :: "(DeployerModel \<Rightarrow> DeployerModel) \<Rightarrow> ManagerModel \<Rightarrow> ManagerModel" where
  "upd_deployer f mm = mm\<lparr>mm_Deployer := f (mm_Deployer mm)\<rparr>"

definition UpdateManager :: "Event \<Rightarrow> ManagerModel \<Rightarrow> ManagerModel" where
  "UpdateManager e mm =
     (case ev_Type e of
        Some (Event_ManagerState st) \<Rightarrow> show_state st mm
      | Some (Event_EvalStarted g) \<Rightarrow> upd_builder (\<lambda>b. b\<lparr>bm_IsEvaluating := True, bm_Generation := Some g\<rparr>) mm
      | Some (Event_EvalFinished g) \<Rightarrow> upd_builder (\<lambda>b. b\<lparr>bm_IsEvaluating := False, bm_Generation := Some g\<rparr>) mm
      | Some (Event_BuildStarted g) \<Rightarrow> upd_builder (\<lambda>b. b\<lparr>bm_IsBuilding := True, bm_Generation := Some g\<rparr>) mm
      | Some (Event_BuildFinished g) \<Rightarrow> upd_builder (\<lambda>b. b\<lparr>bm_IsBuilding := False, bm_Generation := Some g\<rparr>) mm
      | Some (Event_DeploymentStarted d) \<Rightarrow>
          upd_deployer (\<lambda>x. x\<lparr>dm_IsDeploying := True, dm_Deployment := Some d\<rparr>) mm
      | Some (Event_DeploymentFinished d) \<Rightarrow>
          upd_deployer (\<lambda>x. x\<lparr>dm_IsDeploying := False, dm_Deployment := Some d\<rparr>) mm
      | Some (Event_Fetched _ _ rs) \<Rightarrow>
          mm\<lparr>mm_Fetcher := \<lparr>fm_IsFetching = False, fm_GitRepositoryStatus = rs\<rparr>\<rparr>
      | Some Event_Suspend \<Rightarrow> mm\<lparr>mm_IsSuspended := True\<rparr>
      | Some Event_Resume \<Rightarrow> mm\<lparr>mm_IsSuspended := False\<rparr>
      | Some (Event_RebootRequired _) \<Rightarrow> mm\<lparr>mm_NeedToReboot := True\<rparr>
      | Some (Event_Log obj _ (Log_Line _ msg)) \<Rightarrow>
          if obj = ''evaluation'' \<or> obj = ''build''
          then upd_builder (\<lambda>b. b\<lparr>bm_LogLines := add_log msg (bm_LogLines b)\<rparr>) mm
          else if obj = ''deployment''
          then upd_deployer (\<lambda>x. x\<lparr>dm_LogLines := add_log msg (dm_LogLines x)\<rparr>) mm
          else mm
      | _ \<Rightarrow> mm)"

text \<open>
  The messages of the program that watches the agent, and what it asks the agent for.
\<close>

datatype watch_msg = Streamed "Event option" string | Tick | Key string

datatype watch_cmd = ConsumeStream | WaitTick | Quit | ClientFetch | ClientSuspend | ClientResume

definition watch_Update :: "bool \<Rightarrow> watch_msg \<Rightarrow> ManagerModel \<Rightarrow> ManagerModel \<times> watch_cmd list" where
  "watch_Update connected msg mm =
     (case msg of
        Streamed (Some e) _ \<Rightarrow> (UpdateManager e (mm\<lparr>mm_ConnectionMsg := []\<rparr>), [ConsumeStream])
      | Streamed None failure \<Rightarrow> (mm\<lparr>mm_ConnectionMsg := failure\<rparr>, [ConsumeStream])
      | Tick \<Rightarrow> (mm, [WaitTick])
      | Key k \<Rightarrow>
          (mm, if k = ''q'' \<or> k = ''ctrl+c'' then [Quit]
               else if \<not> connected then []
               else if k = ''f'' then [ClientFetch]
               else if k = ''s'' then [if mm_IsSuspended mm then ClientResume else ClientSuspend]
               else []))"

section \<open>Listings of deployments\<close>

definition retentionListsForDeployment :: "uuid \<Rightarrow> PStore \<Rightarrow> string list" where
  "retentionListsForDeployment u p =
     (if ps_DeploymentSwitched p = u then [''switched''] else []) @
     (if ps_DeploymentBooted p = u then [''booted''] else []) @
     (if u \<in> set (ps_DeploymentsBootEntry p) then [''boot''] else []) @
     (if u \<in> set (ps_DeploymentsSuccessful p) then [''successful''] else []) @
     (if u \<in> set (ps_DeploymentsAny p) then [''any''] else [])"

definition filterBootEntryDeployments :: "Deployment list \<Rightarrow> PStore \<Rightarrow> Deployment list" where
  "filterBootEntryDeployments dpls p =
     (let bootUUIDs = (if ps_DeploymentSwitched p \<noteq> [] then {ps_DeploymentSwitched p} else {}) \<union>
            (if ps_DeploymentBooted p \<noteq> [] then {ps_DeploymentBooted p} else {}) \<union>
            set (ps_DeploymentsBootEntry p)
      in filter (\<lambda>d. d_Uuid d \<in> bootUUIDs) dpls)"

definition listEndedAtCmp :: "Deployment \<Rightarrow> Deployment \<Rightarrow> int" where
  "listEndedAtCmp a b = time_Compare (AsTime (d_EndedAt a)) (AsTime (d_EndedAt b))"

text \<open>The deployments in the order in which they are printed.\<close>

definition deploymentList :: "Deployment list \<Rightarrow> bool \<Rightarrow> Deployment list" where
  "deploymentList dpls newestFirst =
     (let sorted = SortFunc listEndedAtCmp dpls in if newestFirst then rev sorted else sorted)"

definition deployment_list :: "bool \<Rightarrow> PStore \<Rightarrow> Deployment list" where
  "deployment_list bootOnly p =
     deploymentList (if bootOnly then filterBootEntryDeployments (ps_Deployments p) p else ps_Deployments p) bootOnly"

definition deployment_latest :: "PStore \<Rightarrow> Deployment option" where
  "deployment_latest p =
     (if ps_Deployments p = [] then None else Some (last (SortFunc listEndedAtCmp (ps_Deployments p))))"

definition client_getDeployment :: "PStore \<Rightarrow> uuid \<Rightarrow> Deployment option" where
  "client_getDeployment p u = find_first (\<lambda>d. d_Uuid d = u) (ps_Deployments p)"

text \<open>The lines of \<open>printDeployments\<close>: \<open>None\<close> is the message that the deployment does not exist.\<close>

definition printDeployments :: "PStore \<Rightarrow> uuid list \<Rightarrow> (uuid \<times> Deployment option) list" where
  "printDeployments p uuids = map (\<lambda>u. (u, client_getDeployment p u)) uuids"

definition retention_list :: "PStore \<Rightarrow> (uuid \<times> Deployment option) list" where
  "retention_list p = printDeployments p [ps_DeploymentBooted p] @ printDeployments p [ps_DeploymentSwitched p] @
     printDeployments p (ps_DeploymentsBootEntry p) @ printDeployments p (ps_DeploymentsSuccessful p) @
     printDeployments p (ps_DeploymentsAny p)"

section \<open>Notifications\<close>

text \<open>The message of a notification, empty when there is none; \<open>None\<close> is the nil dereference.\<close>

definition notification :: "Event \<Rightarrow> string option" where
  "notification e =
     (case ev_Type e of
        Some Event_Suspend \<Rightarrow> Some ''The agent is suspended.''
      | Some Event_Resume \<Rightarrow> Some ''The agent is resumed.''
      | Some (Event_EvalFinished g) \<Rightarrow>
          Some (if g_EvalStatus g = ''failed'' then ''The evaluation has failed.'' else [])
      | Some (Event_BuildStarted g) \<Rightarrow>
          if g_BuildReason g = BuildReasonNeedBuild
          then map_option (\<lambda>git. ''A new commit from '' @ git_SelectedRemoteName git @ ''/'' @
                 git_SelectedBranchName git @ '' is building.'') (getGitFromGeneration (Some g))
          else Some []
      | Some (Event_BuildFinished g) \<Rightarrow>
          Some (if g_BuildStatus g = ''failed'' then ''The build has failed.'' else [])
      | Some (Event_DeploymentStarted _) \<Rightarrow> Some ''A deployment started.''
      | Some (Event_DeploymentFinished d) \<Rightarrow>
          Some (if d_Status d = ''done'' then ''The deployment is finished.''
                else if d_Status d = ''failed'' then ''The deployment has failed.'' else [])
      | Some (Event_RebootRequired _) \<Rightarrow>
          Some ''The machine needs to be rebooted to take the deployment into account.''
      | _ \<Rightarrow> Some [])"

section \<open>What the listings show\<close>

lemma listEndedAtCmp_ok: "cmp_ok listEndedAtCmp"
  by (auto simp: cmp_ok_def listEndedAtCmp_def time_Compare_def)

lemma deploymentList_set: "set (deploymentList dpls b) = set dpls"
  by (simp add: deploymentList_def gosort.srt_set Let_def)

lemma deploymentList_newest_first:
  "sorted_wrt (\<lambda>a b. AsTime (d_EndedAt b) \<le> AsTime (d_EndedAt a)) (deploymentList dpls True)"
proof -
  have "sorted_wrt (\<lambda>a b. AsTime (d_EndedAt a) \<le> AsTime (d_EndedAt b)) (SortFunc listEndedAtCmp dpls)"
    by (rule sorted_wrt_mono_rel [OF _ gosort.srt_sorted [OF listEndedAtCmp_ok]])
      (auto simp: listEndedAtCmp_def time_Compare_def split: if_splits)
  then show ?thesis by (simp add: deploymentList_def Let_def sorted_wrt_rev)
qed

lemma client_getDeployment_Some:
  assumes "u \<in> d_Uuid ` set (ps_Deployments p)"
  shows "\<exists>d \<in> set (ps_Deployments p). client_getDeployment p u = Some d \<and> d_Uuid d = u"
proof -
  obtain d where "client_getDeployment p u = Some d"
    using assms find_first_ex [of _ "ps_Deployments p" "\<lambda>d. d_Uuid d = u"] by (auto simp: client_getDeployment_def)
  then show ?thesis using find_first_Some by (fastforce simp: client_getDeployment_def)
qed

text \<open>
  Property C35. The listings agree with the store: in every reachable state of the store that has
  deployments, \<open>deployment retention-list\<close> finds each deployment it prints, so that the message "this
  should never happen" is never printed; \<open>deployment list --boot\<close> shows exactly the deployments that
  the full listing labels as switched, booted or boot entries, newest first, and the booted and
  the switched system are among them.
\<close>

theorem boot_listing_complete:
  assumes "codec_ok M U" and "reachable store_init (store_step M U) s" and "p = st_persisted s"
    and "ps_Deployments p \<noteq> []" and "\<forall>d \<in> set (ps_Deployments p). d_Uuid d \<noteq> []"
  shows "(\<forall>(u, r) \<in> set (retention_list p). \<exists>d \<in> set (ps_Deployments p). r = Some d \<and> d_Uuid d = u) \<and>
    set (deployment_list True p) = {d \<in> set (ps_Deployments p).
      set (retentionListsForDeployment (d_Uuid d) p) \<inter> {''switched'', ''booted'', ''boot''} \<noteq> {}} \<and>
    sorted_wrt (\<lambda>a b. AsTime (d_EndedAt b) \<le> AsTime (d_EndedAt a)) (deployment_list True p) \<and>
    {ps_DeploymentBooted p, ps_DeploymentSwitched p} \<subseteq> d_Uuid ` set (deployment_list True p)"
proof -
  have wf: "deployments_wf p"
    using store_runs.reachable_inv [OF assms(2)] assms(1,3) by (simp add: store_inv_def)
  have run: "{ps_DeploymentBooted p, ps_DeploymentSwitched p} \<subseteq> d_Uuid ` set (ps_Deployments p)"
    and lists: "list_uuids p \<subseteq> d_Uuid ` set (ps_Deployments p)"
    using wf assms(4) by (auto simp: deployments_wf_def)
  have ne: "ps_DeploymentBooted p \<noteq> []" "ps_DeploymentSwitched p \<noteq> []" using run assms(5) by auto
  have found: "\<forall>(u, r) \<in> set (retention_list p). \<exists>d \<in> set (ps_Deployments p). r = Some d \<and> d_Uuid d = u"
  proof safe
    fix u r assume "(u, r) \<in> set (retention_list p)"
    then have "r = client_getDeployment p u" "u \<in> d_Uuid ` set (ps_Deployments p)"
      using run lists by (auto simp: retention_list_def printDeployments_def list_uuids_def)
    then show "\<exists>d \<in> set (ps_Deployments p). r = Some d \<and> d_Uuid d = u" using client_getDeployment_Some by blast
  qed
  have shown: "set (deployment_list True p) = {d \<in> set (ps_Deployments p).
      d_Uuid d \<in> {ps_DeploymentSwitched p, ps_DeploymentBooted p} \<union> set (ps_DeploymentsBootEntry p)}"
    using ne by (auto simp: deployment_list_def deploymentList_set filterBootEntryDeployments_def)
  have label: "set (retentionListsForDeployment u p) \<inter> {''switched'', ''booted'', ''boot''} \<noteq> {} \<longleftrightarrow>
      u \<in> {ps_DeploymentSwitched p, ps_DeploymentBooted p} \<union> set (ps_DeploymentsBootEntry p)" for u
    by (simp add: retentionListsForDeployment_def) blast
  have sorted: "sorted_wrt (\<lambda>a b. AsTime (d_EndedAt b) \<le> AsTime (d_EndedAt a)) (deployment_list True p)"
    by (simp add: deployment_list_def deploymentList_newest_first)
  have "{ps_DeploymentBooted p, ps_DeploymentSwitched p} \<subseteq> d_Uuid ` set (deployment_list True p)"
    unfolding shown using run by auto
  with found sorted show ?thesis unfolding label shown by (intro conjI refl)
qed

theorem boot_listing_complete_witness:
  "{''u'', ''uu''} \<subseteq> d_Uuid ` set (deployment_list True (st_persisted example_store))"
proof -
  have v: "map (\<lambda>d. d_Uuid d) (st_Deployments example_store) = [''u'', ''uu'']"
    "ps_DeploymentBooted (st_persisted example_store) = ''u''"
    "ps_DeploymentSwitched (st_persisted example_store) = ''uu''"
    by code_simp+
  then have ne: "ps_Deployments (st_persisted example_store) \<noteq> []"
    "\<forall>d \<in> set (ps_Deployments (st_persisted example_store)). d_Uuid d \<noteq> []"
    by (auto simp: map_eq_Cons_conv)
  from boot_listing_complete [OF example_codec example_store_reachable refl ne]
  have "{ps_DeploymentBooted (st_persisted example_store), ps_DeploymentSwitched (st_persisted example_store)} \<subseteq>
      d_Uuid ` set (deployment_list True (st_persisted example_store))"
    by blast
  then show ?thesis unfolding v(2,3) .
qed

text \<open>
  \<open>deployment latest\<close> orders by the end of the deployments, the store by their creation: while a newer
  deployment is running, the deployment that is shown is not the one that \<open>submit-latest\<close> resubmits.
\<close>

lemma latest_is_not_resubmitted:
  assumes "ps_Deployments (st_persisted s) = [running, ended]" and "d_EndedAt running = None"
    and "d_EndedAt ended = Some t" and "0 < t"
    and "AsTime (d_CreatedAt ended) \<le> AsTime (d_CreatedAt running)"
  shows "deployment_latest (st_persisted s) = Some ended" "GetDeploymentLastest s = Some running"
  using assms by (simp_all add: deployment_latest_def SortFunc_def listEndedAtCmp_def time_Compare_def
      GetDeploymentLastest_def)

section \<open>What the terminal interface shows\<close>

lemma view_shows_state:
  assumes "ev_Type e = Some (Event_ManagerState (toState m))"
  shows "mm_IsSuspended (UpdateManager e mm) = mg_isSuspended m"
    and "mm_NeedToReboot (UpdateManager e mm) = mg_needToReboot m"
    and "bm_IsEvaluating (mm_Builder (UpdateManager e mm)) = bu_isEvaluating (mg_builder m)"
    and "dm_IsSuspended (mm_Deployer (UpdateManager e mm)) = dp_isSuspended (mg_deployer m)"
  by (simp_all add: UpdateManager_def assms show_state_def toState_def builder_State_def deployer_State_def Let_def
      the_builder_def the_deployer_def)

text \<open>A suspension is not shown for the builder and the deployer before the next state event.\<close>

lemma suspend_not_shown:
  assumes "ev_Type e = Some Event_Suspend"
  shows "mm_IsSuspended (UpdateManager e mm)" "mm_Builder (UpdateManager e mm) = mm_Builder mm"
    "mm_Deployer (UpdateManager e mm) = mm_Deployer mm"
  by (simp_all add: UpdateManager_def assms)

definition last_lines :: "string list \<Rightarrow> string list" where
  "last_lines xs = drop (length xs - 10) xs"

definition log_message :: "string set \<Rightarrow> Event \<Rightarrow> string list" where
  "log_message objs e = (case ev_Type e of
     Some (Event_Log obj _ (Log_Line _ msg)) \<Rightarrow> if obj \<in> objs then [msg] else [] | _ \<Rightarrow> [])"

lemma add_log_last: "add_log msg (last_lines xs) = last_lines (xs @ [msg])"
proof (cases "length xs < 10")
  case False
  then have "Suc (length xs - 10) = length xs - 9" by simp
  with False show ?thesis by (simp add: add_log_def last_lines_def Let_def)
qed (simp add: add_log_def last_lines_def)

lemma last_lines_short [simp]: "length xs \<le> 10 \<Longrightarrow> last_lines xs = xs"
  by (simp add: last_lines_def)

lemma UpdateManager_logs:
  "bm_LogLines (mm_Builder mm) = last_lines xs \<Longrightarrow>
     bm_LogLines (mm_Builder (UpdateManager e mm)) = last_lines (xs @ log_message {''evaluation'', ''build''} e)"
  "dm_LogLines (mm_Deployer mm) = last_lines ys \<Longrightarrow>
     dm_LogLines (mm_Deployer (UpdateManager e mm)) = last_lines (ys @ log_message {''deployment''} e)"
  by (auto simp: UpdateManager_def log_message_def show_state_def upd_builder_def upd_deployer_def add_log_last Let_def
      split: option.split event_type.split log_type.split)

lemma logs_last_ten:
  "bm_LogLines (mm_Builder mm) = last_lines xs \<Longrightarrow> dm_LogLines (mm_Deployer mm) = last_lines ys \<Longrightarrow>
     bm_LogLines (mm_Builder (fold UpdateManager es mm)) =
       last_lines (xs @ concat (map (log_message {''evaluation'', ''build''}) es)) \<and>
     dm_LogLines (mm_Deployer (fold UpdateManager es mm)) =
       last_lines (ys @ concat (map (log_message {''deployment''}) es))"
proof (induction es arbitrary: mm xs ys)
  case (Cons e es)
  from Cons.IH [OF UpdateManager_logs(1) [OF Cons.prems(1), of e] UpdateManager_logs(2) [OF Cons.prems(2), of e]]
  show ?case by simp
qed simp

text \<open>
  The logs on the screen are the last ten lines: after any sequence of events, the builder
  shows the last ten of all the lines logged by evaluations and builds, in their order, and the deployer
  those logged by deployments; the other events do not touch them.
\<close>

theorem log_lines_last_ten:
  assumes "length (bm_LogLines (mm_Builder mm)) \<le> 10" and "length (dm_LogLines (mm_Deployer mm)) \<le> 10"
  shows "bm_LogLines (mm_Builder (fold UpdateManager es mm)) =
      last_lines (bm_LogLines (mm_Builder mm) @ concat (map (log_message {''evaluation'', ''build''}) es)) \<and>
    dm_LogLines (mm_Deployer (fold UpdateManager es mm)) =
      last_lines (dm_LogLines (mm_Deployer mm) @ concat (map (log_message {''deployment''}) es)) \<and>
    length (bm_LogLines (mm_Builder (fold UpdateManager es mm))) \<le> 10"
  using logs_last_ten [of mm "bm_LogLines (mm_Builder mm)" "dm_LogLines (mm_Deployer mm)" es] assms
  by (simp add: last_lines_def)

definition example_view :: ManagerModel where
  "example_view = \<lparr>mm_NeedToReboot = False, mm_IsSuspended = False, mm_Hostname = [], mm_ConnectionMsg = [],
     mm_Fetcher = \<lparr>fm_IsFetching = False, fm_GitRepositoryStatus = None\<rparr>,
     mm_Builder = \<lparr>bm_IsEvaluating = False, bm_IsBuilding = False, bm_IsSuspended = False, bm_Generation = None,
       bm_LogLines = []\<rparr>,
     mm_Deployer = \<lparr>dm_IsDeploying = False, dm_IsSuspended = False, dm_Deployment = None, dm_LogLines = []\<rparr>\<rparr>"

theorem log_lines_last_ten_witness:
  "bm_LogLines (mm_Builder (fold UpdateManager
     (map (\<lambda>n. mk_event (Event_Log ''build'' ''u'' (Log_Line ''stdout'' (replicate n CHR ''x''))) 0) [0..<12]) example_view)) =
   map (\<lambda>n. replicate n CHR ''x'') [2..<12]"
proof -
  have "length (bm_LogLines (mm_Builder example_view)) \<le> 10" "length (dm_LogLines (mm_Deployer example_view)) \<le> 10"
    by (simp_all add: example_view_def)
  from log_lines_last_ten [OF this, THEN conjunct1]
  have logs: "bm_LogLines (mm_Builder (fold UpdateManager es example_view)) =
      last_lines (bm_LogLines (mm_Builder example_view) @ concat (map (log_message {''evaluation'', ''build''}) es))"
    for es .
  have msgs: "concat (map (log_message {''evaluation'', ''build''})
      (map (\<lambda>n. mk_event (Event_Log ''build'' ''u'' (Log_Line ''stdout'' (replicate n CHR ''x''))) 0) [0..<12])) =
    map (\<lambda>n. replicate n CHR ''x'') [0..<12]"
    by (simp add: log_message_def mk_event_def comp_def concat_map_singleton)
  have "drop 2 [0..<12] = [2..<12::nat]" by code_simp
  then show ?thesis unfolding logs msgs by (simp only: last_lines_def example_view_def drop_map) (simp add: drop_map)
qed

end
