(* ===== verification/Views.thy ===== *)
theory Views
  imports Clients
begin

text \<open>
  What the terminal interface draws (\<open>View\<close> of the models of \<open>pkg/tui/tui.go\<close> and of \<open>cmd/watch.go\<close>) and
  what \<open>cmd/status.go\<close> prints, as strings of UTF-8 bytes. The styles of the terminal and the wording of
  dates are parameters. \<open>None\<close> is the nil dereference of a source without Git.
\<close>

section \<open>Output\<close>

datatype text_style = titleStyle | sectionStyle | labelStyle | warnStyle | errorStyle | successStyle | activeStyle | dimStyle

text \<open>\<open>vv_Since\<close> is \<open>time.Since\<close> in nanoseconds, \<open>vv_Humanize\<close> is \<open>humanize.Time\<close>, \<open>vv_Help\<close> the key help.\<close>

record venv =
  vv_Render :: "text_style \<Rightarrow> string \<Rightarrow> string"
  vv_Since :: "time \<Rightarrow> int"
  vv_Humanize :: "time \<Rightarrow> string"
  vv_Help :: string

abbreviation nl :: string where "nl \<equiv> [CHR 0x0A]"

definition pause_sign :: string where
  "pause_sign = [CHR 0xE2, CHR 0x8F, CHR 0xB8]"

definition formatTime :: "venv \<Rightarrow> time \<Rightarrow> string" where
  "formatTime V t = (if vv_Since V t < 10 * 1000000000 then ''less than 10 seconds ago'' else vv_Humanize V t)"

definition boolToString :: "venv \<Rightarrow> bool \<Rightarrow> string" where
  "boolToString V v = (if v then vv_Render V warnStyle ''yes'' else vv_Render V dimStyle ''no'')"

text \<open>\<open>commitID[:8]\<close> when it is longer\<close>

definition short_id :: "string \<Rightarrow> string" where
  "short_id commitID = (if length commitID > 8 then take 8 commitID else commitID)"

section \<open>The view of the fetcher\<close>

definition branch_view :: "venv \<Rightarrow> string \<Rightarrow> Branch \<Rightarrow> string" where
  "branch_view V label b = ''    '' @ vv_Render V labelStyle label @ short_id (br_CommitId b) @ ''  '' @
     commitMsgSummary (br_CommitMsg b) @ nl @
     (if br_ErrorMsg b \<noteq> [] then ''      '' @ vv_Render V errorStyle (br_ErrorMsg b) @ nl else [])"

definition remote_view :: "venv \<Rightarrow> Remote \<Rightarrow> string" where
  "remote_view V r =
     ''  '' @ vv_Render V labelStyle ''Remote: '' @ rm_Name r @
     (case rm_FetchedAt r of None \<Rightarrow> [] | Some t \<Rightarrow> ''  '' @ vv_Render V dimStyle (formatTime V t)) @ nl @
     ''    '' @ vv_Render V labelStyle ''URL:     '' @ rm_Url r @ nl @
     (if rm_FetchErrorMsg r \<noteq> [] then ''    '' @ vv_Render V errorStyle (''Error: '' @ rm_FetchErrorMsg r) @ nl else []) @
     branch_view V ''main:    '' (rm_Main r) @ branch_view V ''testing: '' (rm_Testing r)"

definition fetcher_view :: "venv \<Rightarrow> FetcherModel \<Rightarrow> string" where
  "fetcher_view V fm =
     vv_Render V sectionStyle ''Fetcher'' @ ''  '' @
     (if fm_IsFetching fm then vv_Render V activeStyle ''fetching...'' else vv_Render V dimStyle ''idle'') @ nl @
     (case fm_GitRepositoryStatus fm of None \<Rightarrow> [] | Some rs \<Rightarrow> concat (map (remote_view V) (rs_Remotes rs)))"

section \<open>The views of the builder and the deployer\<close>

definition commit_view :: "venv \<Rightarrow> string \<Rightarrow> string \<Rightarrow> Git \<Rightarrow> string" where
  "commit_view V commitLabel messageLabel git =
     ''  '' @ vv_Render V labelStyle commitLabel @ short_id (git_SelectedCommitId git) @ '' from '' @
     git_SelectedRemoteName git @ ''/'' @ git_SelectedBranchName git @ nl @
     (let msg = commitMsgSummary (git_SelectedCommitMsg git)
      in if msg \<noteq> [] then ''  '' @ vv_Render V labelStyle messageLabel @ msg @ nl else [])"

definition status_line :: "venv \<Rightarrow> string \<Rightarrow> text_style \<Rightarrow> string \<Rightarrow> string \<Rightarrow> timestamp \<Rightarrow> string" where
  "status_line V label style word sep t =
     ''  '' @ vv_Render V labelStyle label @ vv_Render V style word @ sep @ formatTime V (AsTime t) @ nl"

definition eval_view :: "venv \<Rightarrow> Generation \<Rightarrow> string" where
  "eval_view V g =
     (if g_EvalStatus g = EvalStatus_String Evaluating
      then status_line V ''Eval:    '' activeStyle ''running'' '' since '' (g_EvalStartedAt g)
      else if g_EvalStatus g = EvalStatus_String Evaluated
      then status_line V ''Eval:    '' successStyle ''succeeded'' '' '' (g_EvalEndedAt g)
      else if g_EvalStatus g = EvalStatus_String EvalFailed
      then status_line V ''Eval:    '' errorStyle ''failed'' '' '' (g_EvalEndedAt g)
      else [])"

definition build_view :: "venv \<Rightarrow> Generation \<Rightarrow> string" where
  "build_view V g =
     (if g_BuildStatus g = BuildStatus_String Building
      then status_line V ''Build:   '' activeStyle ''running'' '' since '' (g_BuildStartedAt g)
      else if g_BuildStatus g = BuildStatus_String Built
      then status_line V ''Build:   '' successStyle ''succeeded'' '' '' (g_BuildEndedAt g)
      else if g_BuildStatus g = BuildStatus_String BuildFailed
      then status_line V ''Build:   '' errorStyle ''failed'' '' '' (g_BuildEndedAt g)
      else [])"

definition log_view :: "venv \<Rightarrow> string list \<Rightarrow> string" where
  "log_view V logLines =
     ''  '' @ vv_Render V labelStyle ''Logs:'' @ nl @
     (let start = (if length logLines > 10 then length logLines - 10 else 0)
      in concat (map (\<lambda>l. ''    '' @ l @ nl) (drop start logLines)))"

definition builder_view :: "venv \<Rightarrow> BuilderModel \<Rightarrow> string option" where
  "builder_view V bm =
     (let status = (if bm_IsSuspended bm then vv_Render V warnStyle (pause_sign @ '' suspended'')
                    else if bm_IsEvaluating bm then vv_Render V activeStyle ''evaluating...''
                    else if bm_IsBuilding bm then vv_Render V activeStyle ''building...''
                    else vv_Render V dimStyle ''idle'');
          head = vv_Render V sectionStyle ''Builder'' @ ''  '' @ status @ nl
      in case bm_Generation bm of
           None \<Rightarrow> Some (head @ log_view V (bm_LogLines bm))
         | Some g \<Rightarrow> map_option (\<lambda>git. head @ commit_view V ''Commit:  '' ''Message: '' git @ eval_view V g @
             build_view V g @ log_view V (bm_LogLines bm)) (getGitFromGeneration (Some g)))"

definition dpl_status_view :: "venv \<Rightarrow> Deployment \<Rightarrow> string" where
  "dpl_status_view V d =
     (if d_Status d = StatusToString Running
      then status_line V ''Status:    '' activeStyle ''running'' '' since '' (d_StartedAt d)
      else if d_Status d = StatusToString Done
      then status_line V ''Status:    '' successStyle ''done'' '' '' (d_EndedAt d)
      else if d_Status d = StatusToString Failed
      then status_line V ''Status:    '' errorStyle ''failed'' '' '' (d_EndedAt d)
      else [])"

definition deployer_view :: "venv \<Rightarrow> DeployerModel \<Rightarrow> string option" where
  "deployer_view V dm =
     (let status = (if dm_IsSuspended dm then vv_Render V warnStyle (pause_sign @ '' suspended'')
                    else if dm_IsDeploying dm then vv_Render V activeStyle ''deploying...''
                    else vv_Render V dimStyle ''idle'');
          head = vv_Render V sectionStyle ''Deployer'' @ ''  '' @ status @ nl
      in case dm_Deployment dm of
           None \<Rightarrow> Some (head @ log_view V (dm_LogLines dm))
         | Some d \<Rightarrow> map_option (\<lambda>git. head @ commit_view V ''Commit:    '' ''Message:   '' git @
             ''  '' @ vv_Render V labelStyle ''Operation: '' @ d_Operation d @ nl @
             dpl_status_view V d @ log_view V (dm_LogLines dm)) (getGitFromGeneration (Some (d_Generation d))))"

section \<open>The view of the manager\<close>

definition manager_header :: "venv \<Rightarrow> ManagerModel \<Rightarrow> string" where
  "manager_header V mm = vv_Render V titleStyle ''comin'' @
     (if mm_Hostname mm \<noteq> [] then ''  '' @ mm_Hostname mm else []) @ nl"

definition manager_view :: "venv \<Rightarrow> ManagerModel \<Rightarrow> string option" where
  "manager_view V mm =
     (if mm_ConnectionMsg mm \<noteq> []
      then Some (manager_header V mm @ ''  '' @ vv_Render V warnStyle (''Disconnected: '' @ mm_ConnectionMsg mm) @ nl)
      else case (builder_view V (mm_Builder mm), deployer_view V (mm_Deployer mm)) of
             (Some b, Some d) \<Rightarrow> Some (manager_header V mm @ ''  '' @ vv_Render V dimStyle ''Connected'' @ nl @
               ''  '' @ vv_Render V labelStyle ''Reboot required: '' @ boolToString V (mm_NeedToReboot mm) @ nl @
               ''  '' @ vv_Render V labelStyle ''Suspended:       '' @ boolToString V (mm_IsSuspended mm) @ nl @ nl @
               fetcher_view V (mm_Fetcher mm) @ nl @ b @ nl @ d)
           | _ \<Rightarrow> None)"

definition watch_View :: "venv \<Rightarrow> ManagerModel \<Rightarrow> string option" where
  "watch_View V mm = map_option (\<lambda>s. s @ nl @ ''Help: '' @ vv_Help V @ nl) (manager_view V mm)"

section \<open>Printing a generation and a deployment\<close>

text \<open>\<open>store.GenerationShow\<close>\<close>

definition git_lines :: "string \<Rightarrow> string \<Rightarrow> Source option \<Rightarrow> string" where
  "git_lines padding messageLabel source =
     (case GetGit source of
        None \<Rightarrow> []
      | Some git \<Rightarrow> padding @ ''Commit ID '' @ git_SelectedCommitId git @ '' from '' @ git_SelectedRemoteName git @ ''/'' @
          git_SelectedBranchName git @ nl @
          padding @ messageLabel @ trim_newlines (git_SelectedCommitMsg git) @ nl)"

definition GenerationShow :: "venv \<Rightarrow> Generation \<Rightarrow> string" where
  "GenerationShow V g =
     (let padding = ''    '';
          at = (\<lambda>word t. padding @ word @ vv_Humanize V (AsTime t) @ nl);
          head = padding @ ''Generation UUID '' @ g_Uuid g @ nl @ git_lines padding ''Commit message: '' (g_Source g);
          evaluation =
            (if g_EvalStatus g = EvalStatus_String Evaluated
             then at ''Evaluation succeeded '' (g_EvalEndedAt g) @ padding @ ''  DrvPath: '' @ g_DrvPath g @ nl
             else if g_EvalStatus g = EvalStatus_String EvalFailed then at ''Evaluation failed '' (g_EvalEndedAt g)
             else []);
          building =
            (if g_BuildStatus g = BuildStatus_String BuildInit then padding @ ''No build started'' @ nl
             else if g_BuildStatus g = BuildStatus_String Building then at ''Build started '' (g_BuildStartedAt g)
             else if g_BuildStatus g = BuildStatus_String Built
             then at ''Built '' (g_BuildEndedAt g) @ padding @ ''  Outpath:  '' @ g_OutPath g @ nl
             else if g_BuildStatus g = BuildStatus_String BuildFailed then at ''Build failed '' (g_BuildEndedAt g)
             else [])
      in if g_EvalStatus g = EvalStatus_String EvalInit then head @ padding @ ''No evaluation started'' @ nl
         else if g_EvalStatus g = EvalStatus_String Evaluating then head @ at ''Evaluation started '' (g_EvalStartedAt g)
         else head @ evaluation @ building)"

definition showDeployment :: "venv \<Rightarrow> string \<Rightarrow> Deployment \<Rightarrow> string" where
  "showDeployment V padding d =
     (let line = (\<lambda>word x. padding @ word @ x @ nl);
          at = (\<lambda>word t. line word (vv_Humanize V (AsTime t)))
      in (if d_Status d = StatusToString Running
          then at ''Deployment is running since '' (d_StartedAt d) @ line ''Operation '' (d_Operation d)
          else if d_Status d = StatusToString Done
          then at ''Deployment succeeded '' (d_EndedAt d) @ line ''Operation '' (d_Operation d) @
            line ''ProfilePath '' (d_ProfilePath d)
          else if d_Status d = StatusToString Failed
          then at ''Deployment failed '' (d_EndedAt d) @ line ''Operation '' (d_Operation d) @
            line ''ProfilePath '' (d_ProfilePath d)
          else []) @
         line ''Generation '' (g_Uuid (d_Generation d)) @
         git_lines padding ''Commit message '' (g_Source (d_Generation d)) @
         line ''Outpath '' (g_OutPath (d_Generation d)))"

definition deployer_Show :: "venv \<Rightarrow> pbDeployer \<Rightarrow> string \<Rightarrow> string" where
  "deployer_Show V s padding = ''  Deployer'' @ nl @
     (case pd_Deployment s of
        Some d \<Rightarrow> showDeployment V padding d
      | None \<Rightarrow> (case pd_PreviousDeployment s of
                   None \<Rightarrow> padding @ ''No deployment yet'' @ nl
                 | Some d \<Rightarrow> showDeployment V padding d))"

section \<open>The status command\<close>

definition fetcher_status :: "venv \<Rightarrow> GitRepositoryStatus option \<Rightarrow> string" where
  "fetcher_status V gitRepoStatus =
     (case gitRepoStatus of
        None \<Rightarrow> []
      | Some rs \<Rightarrow>
          (if GetValue (rs_SelectedCommitShouldBeSigned rs)
           then if GetValue (rs_SelectedCommitSigned rs)
                then ''    Commit '' @ rs_SelectedCommitId rs @ '' signed by '' @ rs_SelectedCommitSignedBy rs @ nl
                else ''    Commit '' @ rs_SelectedCommitId rs @ '' is not signed while it should be'' @ nl
           else []) @
          concat (map (\<lambda>r. ''    Remote '' @ rm_Name r @ '' '' @ rm_Url r @ '' fetched '' @
            vv_Humanize V (AsTime (rm_FetchedAt r)) @ nl) (rs_Remotes rs)))"

text \<open>The state must have a builder and a deployer; \<open>GetGitRepositoryStatus\<close> accepts a nil fetcher.\<close>

definition longStatus :: "venv \<Rightarrow> pbState \<Rightarrow> string option" where
  "longStatus V status =
     (case (sm_Builder status, sm_Deployer status) of
        (Some b, Some d) \<Rightarrow> Some
          (''Status of the machine '' @ pbb_Hostname b @ nl @
           (if GetValue (sm_NeedToReboot status) then ''  Need to reboot: yes'' @ nl else []) @
           (if GetValue (sm_IsSuspended status) then ''  Is suspended: yes'' @ nl else []) @
           ''  Fetcher'' @ nl @
           fetcher_status V (case sm_Fetcher status of None \<Rightarrow> None | Some f \<Rightarrow> pf_GitRepositoryStatus f) @
           ''  Builder'' @ nl @
           (case pbb_Generation b of Some g \<Rightarrow> GenerationShow V g | None \<Rightarrow> ''    No build available'' @ nl) @
           deployer_Show V d ''    '')
      | _ \<Rightarrow> None)"

text \<open>The symbols of the one line status, in UTF-8.\<close>

definition sign_question :: string where "sign_question = '' '' @ [CHR 0xE2, CHR 0x9D, CHR 0x94] @ '' ''"
definition sign_pause :: string where "sign_pause = '' '' @ pause_sign @ [CHR 0xEF, CHR 0xB8, CHR 0x8F] @ '' ''"
definition sign_work :: string where "sign_work = [CHR 0xEF, CHR 0x84, CHR 0x90]"
definition sign_fail :: string where "sign_fail = [CHR 0xEF, CHR 0x81, CHR 0xB1]"
definition sign_done :: string where "sign_done = [CHR 0xEF, CHR 0x80, CHR 0x8C]"
definition sign_reboot :: string where "sign_reboot = '' '' @ [CHR 0xEF, CHR 0x8B, CHR 0xB9]"

definition pending :: "pbConfirmer \<Rightarrow> bool" where
  "pending c \<longleftrightarrow> cf_Submitted c \<noteq> [] \<and> cf_Confirmed c = []"

text \<open>The condition on the confirmers: the second one is only read when the first one has nothing pending.\<close>

definition confirmation_sign :: "pbState \<Rightarrow> string option" where
  "confirmation_sign status =
     (case sm_BuildConfirmer status of
        None \<Rightarrow> None
      | Some b \<Rightarrow> if pending b then Some sign_question
                  else (case sm_DeployConfirmer status of
                          None \<Rightarrow> None
                        | Some d \<Rightarrow> Some (if pending d then sign_question else [])))"

definition ref_line :: "venv \<Rightarrow> string \<Rightarrow> Generation \<Rightarrow> timestamp \<Rightarrow> string option" where
  "ref_line V word g t = map_option (\<lambda>git. word @ git_SelectedRemoteName git @ ''/'' @ git_SelectedBranchName git @
     '' ('' @ vv_Humanize V (AsTime t) @ '')'') (getGitFromGeneration (Some g))"

text \<open>The date of a running deployment is its end, which is not set.\<close>

definition deployment_activity :: "venv \<Rightarrow> Deployment option \<Rightarrow> string option" where
  "deployment_activity V deployment =
     (case deployment of
        None \<Rightarrow> Some []
      | Some d \<Rightarrow>
          if d_Status d = StatusToString Running then ref_line V (sign_work @ '' deploy '') (d_Generation d) (d_EndedAt d)
          else if d_Status d = StatusToString Failed then ref_line V (sign_fail @ '' '') (d_Generation d) (d_EndedAt d)
          else if d_Status d = StatusToString Done then ref_line V (sign_done @ '' '') (d_Generation d) (d_EndedAt d)
          else Some [])"

lemma running_shown_by_its_end:
  assumes "d_Status d = StatusToString Running" and "d_EndedAt d = None"
    and "getGitFromGeneration (Some (d_Generation d)) = Some git"
  shows "deployment_activity V (Some d) = Some (sign_work @ '' deploy '' @ git_SelectedRemoteName git @ ''/'' @
    git_SelectedBranchName git @ '' ('' @ vv_Humanize V (AsTime None) @ '')'')"
  using assms by (simp add: deployment_activity_def ref_line_def)

definition activity :: "venv \<Rightarrow> pbState \<Rightarrow> string option" where
  "activity V status =
     (case sm_Builder status of
        None \<Rightarrow> None
      | Some b \<Rightarrow>
          let deploying = (case sm_Deployer status of None \<Rightarrow> None | Some d \<Rightarrow> deployment_activity V (pd_Deployment d))
          in case pbb_Generation b of
               None \<Rightarrow> deploying
             | Some g \<Rightarrow>
                 if GetValue (pbb_IsEvaluating b) then ref_line V (sign_work @ '' eval   '') g (g_EvalStartedAt g)
                 else if GetValue (pbb_IsBuilding b) then ref_line V (sign_work @ '' build  '') g (g_BuildStartedAt g)
                 else if g_EvalStatus g = EvalStatus_String EvalFailed then ref_line V (sign_fail @ '' '') g (g_EvalEndedAt g)
                 else if g_BuildStatus g = BuildStatus_String BuildFailed then ref_line V (sign_fail @ '' '') g (g_BuildEndedAt g)
                 else deploying)"

definition onelineStatus :: "venv \<Rightarrow> pbState \<Rightarrow> string option" where
  "onelineStatus V status =
     (case (confirmation_sign status, activity V status) of
        (Some c, Some a) \<Rightarrow> Some (c @ (if GetValue (sm_IsSuspended status) then sign_pause else []) @ a @
          (if GetValue (sm_NeedToReboot status) then sign_reboot else []))
      | _ \<Rightarrow> None)"

section \<open>The printed listings of deployments\<close>

text \<open>\<open>format\<close> is \<open>Format(time.DateTime)\<close>, \<open>dec\<close> the decimal numeral of a capacity.\<close>

definition deployment_entry :: "(time \<Rightarrow> string) \<Rightarrow> PStore \<Rightarrow> Deployment \<Rightarrow> string" where
  "deployment_entry format p d =
     d_Uuid d @ nl @
     ''  status             '' @ d_Status d @ nl @
     ''  ended at           '' @ format (AsTime (d_EndedAt d)) @ nl @
     ''  operation          '' @ d_Operation d @ nl @
     (if d_ProfilePath d \<noteq> [] then ''  profile path       '' @ d_ProfilePath d @ nl else []) @
     ''  out path           '' @ g_OutPath (d_Generation d) @ nl @
     ''  generation uuid    '' @ g_Uuid (d_Generation d) @ nl @
     (case GetGit (g_Source (d_Generation d)) of None \<Rightarrow> []
      | Some git \<Rightarrow> ''    commit id        '' @ git_SelectedCommitId git @ nl) @
     (let lists = retentionListsForDeployment (d_Uuid d) p
      in if lists \<noteq> [] then ''  part of retention  '' @ Join lists '', '' @ nl else []) @ nl"

definition print_deploymentList :: "(time \<Rightarrow> string) \<Rightarrow> Deployment list \<Rightarrow> PStore \<Rightarrow> bool \<Rightarrow> string" where
  "print_deploymentList format dpls p newestFirst = concat (map (deployment_entry format p) (deploymentList dpls newestFirst))"

definition deploymentListCmd :: "(time \<Rightarrow> string) \<Rightarrow> bool \<Rightarrow> PStore \<Rightarrow> string" where
  "deploymentListCmd format bootOnly p =
     print_deploymentList format
       (if bootOnly then filterBootEntryDeployments (ps_Deployments p) p else ps_Deployments p) p bootOnly"

definition deploymentLatestCmd :: "(time \<Rightarrow> string) \<Rightarrow> PStore \<Rightarrow> string" where
  "deploymentLatestCmd format p =
     (case deployment_latest p of None \<Rightarrow> ''No deployment found'' @ nl
      | Some latest \<Rightarrow> print_deploymentList format [latest] p False)"

definition missing_deployment :: "uuid \<Rightarrow> string" where
  "missing_deployment u = '' deployment with '' @ u @ '' doesn'' @ [CHR 0x27] @ ''t exist in the store, this should never happen.''"

definition print_deployment :: "(time \<Rightarrow> string) \<Rightarrow> uuid \<times> Deployment option \<Rightarrow> string" where
  "print_deployment format = (\<lambda>(u, dpl). ''  - '' @ u @ '': '' @
     (case dpl of
        None \<Rightarrow> missing_deployment u
      | Some d \<Rightarrow> ''ended_at='' @ format (AsTime (d_EndedAt d)) @ '' operation='' @ d_Operation d @
          '' status='' @ d_Status d @ '' reason='' @ d_Reason d) @ nl)"

definition deploymentRetentionList :: "(time \<Rightarrow> string) \<Rightarrow> (int \<Rightarrow> string) \<Rightarrow> PStore \<Rightarrow> string" where
  "deploymentRetentionList format dec p =
     (let print = (\<lambda>uuids. concat (map (print_deployment format) (printDeployments p uuids)) @ nl)
      in ''Currently booted deployment:'' @ nl @ print [ps_DeploymentBooted p] @
         ''Currently switched deployment:'' @ nl @ print [ps_DeploymentSwitched p] @
         ''Retention for the boot entries deployments (capacity: '' @ dec (ps_DeploymentBootEntryCapacity p) @ '')'' @ nl @
         print (ps_DeploymentsBootEntry p) @
         ''Retention for the successful deployments (capacity: '' @ dec (ps_DeploymentSuccessfulCapacity p) @ '')'' @ nl @
         print (ps_DeploymentsSuccessful p) @
         ''Retention for the deployments history (capacity: '' @ dec (ps_DeploymentAnyCapacity p) @ '')'' @ nl @
         print (ps_DeploymentsAny p))"

end
