(* ===== verification/Server.thy ===== *)
theory Server
  imports Manager_Correct Fetcher Broker
begin

text \<open>
  The gRPC server (\<open>internal/server/server.go\<close>): its handlers as functions on the manager, the fetcher
  and the broker. A \<open>stream\<close> is the state of one call of \<open>Events\<close>; \<open>send\<close> tells whether the client
  takes an event.
\<close>

section \<open>Handlers\<close>

datatype grpc_status = Aborted manager_error

definition server_GetState :: "manager \<Rightarrow> pbState" where
  "server_GetState m = toState m"

definition server_Fetch :: "fetcher \<Rightarrow> fetcher" where
  "server_Fetch f =
     (case pf_GitRepositoryStatus (fetcher_GetState f) of
        None \<Rightarrow> f
      | Some gitRepoStatus \<Rightarrow> fetcher_submit (map rm_Name (rs_Remotes gitRepoStatus)) f)"

definition server_DeploymentLatestSubmit :: "string \<Rightarrow> manager \<Rightarrow> grpc_status option \<times> manager" where
  "server_DeploymentLatestSubmit operation m =
     (let (err, m') = DeploymentLatestSubmit operation m in (map_option Aborted err, m'))"

definition server_Suspend :: "benv \<Rightarrow> env \<Rightarrow> manager \<Rightarrow> grpc_status option \<times> manager" where
  "server_Suspend V E m = (let (err, m') = manager_Suspend V E m in (map_option Aborted err, m'))"

definition server_Resume :: "benv \<Rightarrow> env \<Rightarrow> manager \<Rightarrow> grpc_status option \<times> manager" where
  "server_Resume V E m = (let (err, m') = manager_Resume V E m in (map_option Aborted err, m'))"

text \<open>\<open>None\<close>: the send to the confirmer blocks.\<close>

definition confirm_build :: "time \<Rightarrow> uuid \<Rightarrow> manager \<Rightarrow> manager option" where
  "confirm_build now u m =
     map_option (\<lambda>c. m\<lparr>mg_BuildConfirmer := c\<rparr>) (confirmer_select now (CConfirm u) (mg_BuildConfirmer m))"

definition confirm_deploy :: "time \<Rightarrow> uuid \<Rightarrow> manager \<Rightarrow> manager option" where
  "confirm_deploy now u m =
     map_option (\<lambda>c. m\<lparr>mg_DeployConfirmer := c\<rparr>) (confirmer_select now (CConfirm u) (mg_DeployConfirmer m))"

definition server_Confirm :: "time \<Rightarrow> string \<Rightarrow> uuid \<Rightarrow> manager \<Rightarrow> manager option" where
  "server_Confirm now what u m =
     (if what = ''build'' then confirm_build now u m
      else if what = ''deploy'' then confirm_deploy now u m
      else if what = ''all'' then
        (case confirm_build now u m of None \<Rightarrow> None | Some m' \<Rightarrow> confirm_deploy now u m')
      else Some m)"

record stream =
  es_subscriber :: nat
  es_sent :: "Event list"
  es_closed :: bool

definition events_open :: "(Event \<Rightarrow> bool) \<Rightarrow> time \<Rightarrow> manager \<Rightarrow> broker \<Rightarrow> stream \<times> broker" where
  "events_open send now m b =
     (let (k, b1) = Subscribe b;
          stateEvent = mk_event (Event_ManagerState (toState m)) now
      in if send stateEvent then (\<lparr>es_subscriber = k, es_sent = [stateEvent], es_closed = False\<rparr>, b1)
         else (\<lparr>es_subscriber = k, es_sent = [], es_closed = True\<rparr>, Unsubscribe k b1))"

definition events_next :: "(Event \<Rightarrow> bool) \<Rightarrow> stream \<Rightarrow> broker \<Rightarrow> (stream \<times> broker) option" where
  "events_next send s b =
     (if es_closed s then None
      else case receive (es_subscriber s) b of
             None \<Rightarrow> None
           | Some (e, b1) \<Rightarrow>
               if send e then Some (s\<lparr>es_sent := es_sent s @ [e]\<rparr>, b1)
               else Some (s\<lparr>es_closed := True\<rparr>, Unsubscribe (es_subscriber s) b1))"

text \<open>Before it listens, the server makes sure that no other one uses the socket.\<close>

datatype start_outcome =
    SocketInUse
  | RemoveFailed
  | ListenFailed
  | ChmodFailed
  | Serving string

record nenv =
  nv_Stat :: "string \<Rightarrow> bool"
  nv_Dial :: "string \<Rightarrow> bool"
  nv_RemoveAll :: "string \<Rightarrow> bool"
  nv_Listen :: "string \<Rightarrow> bool"
  nv_Chmod :: "string \<Rightarrow> bool"

definition server_Start :: "nenv \<Rightarrow> string \<Rightarrow> start_outcome" where
  "server_Start N unixSocketPath =
     (if nv_Stat N unixSocketPath \<and> nv_Dial N unixSocketPath then SocketInUse
      else if \<not> nv_RemoveAll N unixSocketPath then RemoveFailed
      else if \<not> nv_Listen N unixSocketPath then ListenFailed
      else if \<not> nv_Chmod N unixSocketPath then ChmodFailed
      else Serving unixSocketPath)"

section \<open>Requests and the state of the agent\<close>

inductive server_request :: "manager \<Rightarrow> manager \<Rightarrow> bool" where
  rq_latest: "server_request m (snd (server_DeploymentLatestSubmit operation m))"
| rq_suspend: "server_request m (snd (server_Suspend V E m))"
| rq_resume: "server_request m (snd (server_Resume V E m))"
| rq_confirm: "server_Confirm now what u m = Some m' \<Longrightarrow> server_request m m'"

lemma confirm_step:
  "confirm_build now u m = Some m' \<Longrightarrow> manager_step m m'"
  "confirm_deploy now u m = Some m' \<Longrightarrow> manager_step m m'"
  unfolding confirm_build_def confirm_deploy_def
  by (auto simp del: confirmer_select.simps intro: ms_build_user [of "CConfirm u" now] ms_deploy_user [of "CConfirm u" now])

lemma server_Confirm_reachable:
  assumes "reachable manager_init manager_step m" and "server_Confirm now what u m = Some m'"
  shows "reachable manager_init manager_step m'"
proof -
  have "confirm_build now u m = Some m' \<or> confirm_deploy now u m = Some m' \<or> m' = m \<or>
    (\<exists>m1. confirm_build now u m = Some m1 \<and> confirm_deploy now u m1 = Some m')"
    using assms(2) by (auto simp: server_Confirm_def split: if_splits option.splits)
  then show ?thesis using assms(1) by (meson confirm_step reachable_step)
qed

lemma server_request_reachable:
  assumes "reachable manager_init manager_step m" and "server_request m m'"
  shows "reachable manager_init manager_step m'"
  using assms(2)
proof cases
  case (rq_latest operation)
  then have "m' = snd (DeploymentLatestSubmit operation m)"
    by (simp add: server_DeploymentLatestSubmit_def split: prod.splits)
  then show ?thesis using reachable_step [OF assms(1) ms_latest] by simp
next
  case (rq_suspend V E)
  then have "m' = snd (manager_Suspend V E m)" by (simp add: server_Suspend_def split: prod.splits)
  then show ?thesis using reachable_step [OF assms(1) ms_suspend] by simp
next
  case (rq_resume V E)
  then have "m' = snd (manager_Resume V E m)" by (simp add: server_Resume_def split: prod.splits)
  then show ?thesis using reachable_step [OF assms(1) ms_resume] by simp
next
  case (rq_confirm now what u)
  then show ?thesis using server_Confirm_reachable [OF assms(1)] by blast
qed

section \<open>Streams of events\<close>

text \<open>
  A call of \<open>Events\<close> in a run of the broker: the events broadcast since the subscription, and how many
  of them found the channel of the call full. \<open>first\<close> is the state event. After the end of the call the
  broker is not followed any more.
\<close>

inductive events_call :: "Event \<Rightarrow> stream \<Rightarrow> broker \<Rightarrow> Event list \<Rightarrow> nat \<Rightarrow> bool" for first :: Event where
  ec_open: "broker_inv b \<Longrightarrow> first = mk_event (Event_ManagerState (toState m)) now \<Longrightarrow>
    events_open send now m b = (s, b') \<Longrightarrow> events_call first s b' [] 0"
| ec_next: "events_call first s b hist n \<Longrightarrow> events_next send s b = Some (s', b') \<Longrightarrow>
    events_call first s' b' hist n"
| ec_publish: "events_call first s b hist n \<Longrightarrow> \<not> es_closed s \<Longrightarrow> Publish e b = Some b' \<Longrightarrow>
    events_call first s b' hist n"
| ec_subscribe: "events_call first s b hist n \<Longrightarrow> \<not> es_closed s \<Longrightarrow> Subscribe b = (j, b') \<Longrightarrow>
    events_call first s b' hist n"
| ec_unsubscribe: "events_call first s b hist n \<Longrightarrow> \<not> es_closed s \<Longrightarrow> j \<noteq> es_subscriber s \<Longrightarrow>
    events_call first s (Unsubscribe j b) hist n"
| ec_turn: "events_call first s b hist n \<Longrightarrow> \<not> es_closed s \<Longrightarrow> broker_turn b = Some (e, b') \<Longrightarrow>
    channel (es_subscriber s) b = Some ch \<Longrightarrow>
    events_call first s b' (hist @ [e]) (n + (if length ch < 5 then 0 else 1))"
| ec_receive: "events_call first s b hist n \<Longrightarrow> \<not> es_closed s \<Longrightarrow> j \<noteq> es_subscriber s \<Longrightarrow>
    receive j b = Some (e, b') \<Longrightarrow> events_call first s b' hist n"
| ec_stop: "events_call first s b hist n \<Longrightarrow> \<not> es_closed s \<Longrightarrow> events_call first s (broker_Stop b) hist n"

definition call_ok :: "Event \<Rightarrow> stream \<Rightarrow> broker \<Rightarrow> Event list \<Rightarrow> nat \<Rightarrow> bool" where
  "call_ok first s b hist n \<longleftrightarrow>
     (if es_closed s then channel (es_subscriber s) b = None \<and>
        (es_sent s = [] \<or> (\<exists>got. es_sent s = first # got \<and> subseq got hist))
      else \<exists>got. es_sent s = first # got \<and> subscription (es_subscriber s) b hist got n)"

lemma subseq_appendD1: "subseq (xs @ ys) zs \<Longrightarrow> subseq xs zs"
  by (rule subseq_order.trans [OF prefix_imp_subseq [OF prefixI [OF refl]]])

lemma channel_Unsubscribe: "channel k (Unsubscribe k b) = None"
  by (auto simp: channel_def Unsubscribe_def map_of_eq_None_iff)

lemma events_next_ok:
  assumes "call_ok first s b hist n" and "events_next send s b = Some (s', b')"
  shows "call_ok first s' b' hist n"
proof -
  obtain e b1 where r: "\<not> es_closed s" "receive (es_subscriber s) b = Some (e, b1)"
    using assms(2) by (auto simp: events_next_def split: if_splits option.splits)
  obtain got where g: "es_sent s = first # got" "subscription (es_subscriber s) b hist got n"
    using assms(1) r(1) by (auto simp: call_ok_def)
  show ?thesis
  proof (cases "send e")
    case True
    then show ?thesis using assms(2) r g sub_receive [OF g(2) r(2)] by (auto simp: events_next_def call_ok_def)
  next
    case False
    have "subseq got hist"
      using subscription_ok [OF g(2)] by (auto simp: subscriber_ok_def dest: subseq_appendD1)
    then show ?thesis
      using False assms(2) r g by (auto simp: events_next_def call_ok_def channel_Unsubscribe)
  qed
qed

lemma events_call_ok: "events_call first s b hist n \<Longrightarrow> call_ok first s b hist n"
proof (induction rule: events_call.induct)
  case (ec_open b m now send s b')
  show ?case
  proof (cases "send first")
    case True
    then have s: "s = \<lparr>es_subscriber = fst (Subscribe b), es_sent = [first], es_closed = False\<rparr>" "b' = snd (Subscribe b)"
      using ec_open(2,3) by (auto simp: events_open_def split: prod.splits)
    show ?thesis
      using sub_start [OF ec_open(1), of "fst (Subscribe b)" "snd (Subscribe b)"] by (simp add: s call_ok_def)
  next
    case False
    then show ?thesis
      using ec_open(2,3) by (auto simp: events_open_def call_ok_def channel_Unsubscribe split: prod.splits)
  qed
next
  case (ec_next s b hist n send s' b')
  then show ?case by (blast intro: events_next_ok)
next
  case (ec_turn s b hist n e b' ch)
  then show ?case using sub_turn [OF _ ec_turn(3,4)] by (auto simp: call_ok_def)
qed (auto simp: call_ok_def intro: sub_publish sub_other sub_leave sub_receive_other sub_stop)

text \<open>
  Property C36. A client that watches the agent gets a consistent history: the first event of the stream
  is the state of the manager at a moment after its subscription, and what follows is a
  subsequence, in order and without repetition, of the events broadcast since then, from which exactly
  those are missing that found its channel full or still wait in it. When the client goes away, its
  subscription is removed, so the broker does not keep dead subscribers.
\<close>

theorem events_stream_consistent:
  assumes "events_call first s b hist dropped"
  shows "(es_closed s \<longrightarrow> channel (es_subscriber s) b = None) \<and>
    (\<not> es_closed s \<longrightarrow> (\<exists>got ch. es_sent s = first # got \<and> channel (es_subscriber s) b = Some ch \<and>
       length ch \<le> 5 \<and> subseq (got @ ch) hist \<and> length hist = length got + length ch + dropped)) \<and>
    (es_sent s = [] \<or> (\<exists>got. es_sent s = first # got \<and> subseq got hist))"
proof (cases "es_closed s")
  case True
  then show ?thesis using events_call_ok [OF assms] by (simp add: call_ok_def)
next
  case False
  then obtain got where g: "es_sent s = first # got" "subscription (es_subscriber s) b hist got dropped"
    using events_call_ok [OF assms] by (auto simp: call_ok_def)
  then obtain ch where ch: "channel (es_subscriber s) b = Some ch" "length ch \<le> 5" "subseq (got @ ch) hist"
    "length hist = length got + length ch + dropped"
    using subscription_ok [OF g(2)] by (auto simp: subscriber_ok_def)
  then have "subseq got hist" by (blast dest: subseq_appendD1)
  then show ?thesis using False g(1) ch by blast
qed

theorem events_stream_consistent_witness:
  "\<exists>s b. events_open (\<lambda>_. True) 0 example_manager broker_New = (s, b) \<and> \<not> es_closed s \<and>
     channel (es_subscriber s) b = Some []"
proof -
  let ?e = "mk_event (Event_ManagerState (toState example_manager)) 0"
  obtain s b where o: "events_open (\<lambda>_. True) 0 example_manager broker_New = (s, b)" by fastforce
  have "broker_inv broker_New" by (simp add: broker_inv_def broker_New_def)
  from ec_open [OF this refl o] have c: "events_call ?e s b [] 0" .
  have "\<not> es_closed s" using o by (auto simp: events_open_def Let_def Subscribe_def)
  with events_stream_consistent [OF c] o show ?thesis by auto
qed

text \<open>
  Whatever a client asks for, the agent stays sound: a request to the server that is served
  (a resubmission, a suspension, a resumption or a confirmation, accepted or refused) leads from a
  reachable state of the agent to a reachable one, in which the invariant of the composed system holds.
  A suspension is only refused when the agent is suspended already, and then changes nothing.
\<close>

theorem server_requests_sound:
  assumes "reachable manager_init manager_step m" and "server_request m m'"
  shows "reachable manager_init manager_step m' \<and> manager_inv m' \<and>
    (fst (server_Suspend V E m) \<noteq> None \<longrightarrow> mg_isSuspended m \<and> snd (server_Suspend V E m) = m)"
proof -
  have r: "reachable manager_init manager_step m'" using assms by (rule server_request_reachable)
  moreover have "manager_inv m'" using r by (rule manager_runs.reachable_inv)
  moreover have "mg_isSuspended m \<and> snd (server_Suspend V E m) = m" if "fst (server_Suspend V E m) \<noteq> None"
  proof -
    have "bu_isSuspended (mg_builder m) = mg_isSuspended m"
      using manager_runs.reachable_inv [OF assms(1)] by (simp add: manager_inv_def)
    with that show ?thesis
      by (auto simp: server_Suspend_def manager_Suspend_def builder_Suspend_def the_builder_def Let_def
          split: prod.splits if_splits)
  qed
  ultimately show ?thesis by blast
qed

theorem server_requests_sound_witness:
  "manager_inv (snd (server_Resume example_benv (example_env 0 1) example_manager))"
proof -
  have "reachable manager_init manager_step example_manager"
    by (rule reachable_init) (rule example_manager_init)
  from server_requests_sound [OF this rq_resume] show ?thesis by blast
qed

end
