(* ===== verification/Commands.thy ===== *)
theory Commands
  imports Views Server Executor
begin

text \<open>
  The client (\<open>pkg/client/client.go\<close>) and the commands of \<open>cmd\<close> that talk to the agent or to Nix. A
  command is a function of what the calls it makes return; its result is what it prints, the requests it
  sends to the agent and how it ends (what was printed before a nil dereference is left out). The requests are served by the handlers of \<open>Server\<close>.
\<close>

section \<open>The client\<close>

datatype request =
    RFetch
  | RSuspend
  | RResume
  | RLatestSubmit string
  | RConfirm uuid string

text \<open>
  The connection: the error of \<open>grpc.NewClient\<close> for the address of a socket, the answer of \<open>GetState\<close> and the
  error of a request.
\<close>

record connection =
  cn_NewClient :: "string \<Rightarrow> string option"
  cn_GetState :: "string + pbState"
  cn_Request :: "request \<Rightarrow> string option"

definition client_New :: "connection \<Rightarrow> string \<Rightarrow> string option" where
  "client_New C unixSocketPath = cn_NewClient C (''unix://'' @ unixSocketPath)"

definition GetManagerState :: "connection \<Rightarrow> string + pbState" where
  "GetManagerState C = cn_GetState C"

definition default_socket :: string where "default_socket = ''/var/lib/comin/grpc.sock''"

text \<open>What the stream hands to its consumer.\<close>

record Streamer =
  sr_FailureMsg :: string
  sr_Event :: "Event option"

definition failure :: "string \<Rightarrow> Streamer" where
  "failure reason = \<lparr>sr_FailureMsg = reason, sr_Event = None\<rparr>"

definition received :: "Event \<Rightarrow> Streamer" where
  "received e = \<lparr>sr_FailureMsg = [], sr_Event = Some e\<rparr>"

text \<open>
  The goroutine of \<open>Stream\<close>: it is connecting or receiving, and takes the result of the call it makes there.
  \<open>None\<close>: this result does not belong to that call.
\<close>

datatype stream_pc = Connecting | Receiving

datatype net_result =
    EventsErr string
  | EventsOk
  | RecvEvent Event
  | RecvEOF
  | RecvErr string

fun stream_step :: "stream_pc \<Rightarrow> net_result \<Rightarrow> (stream_pc \<times> Streamer list) option" where
  "stream_step Connecting (EventsErr err) =
     Some (Connecting, [failure (''failed to connect to the stream: '' @ err)])"
| "stream_step Connecting EventsOk = Some (Receiving, [])"
| "stream_step Receiving (RecvEvent e) = Some (Receiving, [received e])"
| "stream_step Receiving RecvEOF = Some (Connecting, [failure ''server closed stream: EOF''])"
| "stream_step Receiving (RecvErr err) =
     Some (Connecting, [failure (''failed to receive from the stream: '' @ err)])"
| "stream_step _ _ = None"

fun client_Stream :: "stream_pc \<Rightarrow> net_result list \<Rightarrow> (stream_pc \<times> Streamer list) option" where
  "client_Stream pc [] = Some (pc, [])"
| "client_Stream pc (r # rs) =
     (case stream_step pc r of
        None \<Rightarrow> None
      | Some (pc', out) \<Rightarrow>
          (case client_Stream pc' rs of None \<Rightarrow> None | Some (pc'', outs) \<Rightarrow> Some (pc'', out @ outs)))"

section \<open>Commands that ask the agent\<close>

datatype outcome = Exited | FatalExit string | Crashed

type_synonym cmd_result = "string \<times> request list \<times> outcome"

definition fatal :: "string \<Rightarrow> cmd_result" where
  "fatal err = ([], [], FatalExit err)"

definition printed :: "string option \<Rightarrow> cmd_result" where
  "printed out = (case out of None \<Rightarrow> ([], [], Crashed) | Some s \<Rightarrow> (s, [], Exited))"

definition with_client :: "connection \<Rightarrow> string \<Rightarrow> cmd_result \<Rightarrow> cmd_result" where
  "with_client C path k = (case client_New C path of Some err \<Rightarrow> fatal err | None \<Rightarrow> k)"

definition with_state :: "connection \<Rightarrow> string \<Rightarrow> (pbState \<Rightarrow> cmd_result) \<Rightarrow> cmd_result" where
  "with_state C path k =
     with_client C path (case GetManagerState C of Inl err \<Rightarrow> fatal err | Inr status \<Rightarrow> k status)"

text \<open>\<open>marshal\<close> is \<open>protojson\<close> with the options of \<open>jsonStatus\<close>.\<close>

definition jsonStatus :: "(pbState \<Rightarrow> string + string) \<Rightarrow> pbState \<Rightarrow> cmd_result" where
  "jsonStatus marshal status =
     (case marshal status of
        Inl err \<Rightarrow> fatal (''Error while marshaling the state to JSON: '' @ err)
      | Inr buf \<Rightarrow> (buf, [], Exited))"

definition statusCmd ::
  "venv \<Rightarrow> (pbState \<Rightarrow> string + string) \<Rightarrow> connection \<Rightarrow> string \<Rightarrow> bool \<Rightarrow> bool \<Rightarrow> cmd_result" where
  "statusCmd V marshal C unixSocketPath statusJson statusOneline =
     with_state C (if unixSocketPath = [] then default_socket else unixSocketPath)
       (\<lambda>status. if statusJson then jsonStatus marshal status
                 else if statusOneline then printed (onelineStatus V status)
                 else printed (longStatus V status))"

definition confirmationAccept :: "pbState \<Rightarrow> cmd_result" where
  "confirmationAccept state =
     (case (sm_BuildConfirmer state, sm_DeployConfirmer state) of
        (Some b, Some d) \<Rightarrow>
          if cf_Submitted b \<noteq> []
          then (''Generation '' @ cf_Submitted b @ '' accepted for building and deploying'' @ nl,
                [RConfirm (cf_Submitted b) ''all''], Exited)
          else if cf_Submitted d \<noteq> []
          then (''Generation '' @ cf_Submitted d @ '' accepted for deploying'' @ nl,
                [RConfirm (cf_Submitted d) ''deploy''], Exited)
          else (''No confirmation is required'' @ nl, [], Exited)
      | _ \<Rightarrow> ([], [], Crashed))"

definition confirmationAcceptCmd :: "connection \<Rightarrow> cmd_result" where
  "confirmationAcceptCmd C = with_state C default_socket confirmationAccept"

text \<open>The local \<open>empty\<close> of \<open>confirmerShow\<close> is never true. Dates are in nanoseconds.\<close>

definition confirmerShow :: "venv \<Rightarrow> pbConfirmer \<Rightarrow> string \<Rightarrow> string" where
  "confirmerShow V c what =
     (if cf_Confirmed c \<noteq> [] then ''Confirmation submitted for '' @ what @ '': '' @ cf_Confirmed c @ nl else []) @
     (if cf_Submitted c \<noteq> []
      then ''Confirmation needed for '' @ what @ '': '' @ cf_Submitted c @ nl @
        (if cf_Mode c = mode_int Auto
         then ''  Auto confirmation in '' @
           vv_Humanize V (AsTime (cf_AutoconfirmStartedAt c) + cf_AutoconfirmDuration c * 1000000000) @ nl
         else [])
      else [])"

definition confirmationShowCmd :: "venv \<Rightarrow> connection \<Rightarrow> cmd_result" where
  "confirmationShowCmd V C = with_state C default_socket (\<lambda>status.
     printed (case (sm_BuildConfirmer status, sm_DeployConfirmer status) of
        (Some b, Some d) \<Rightarrow> Some (confirmerShow V b ''building'' @ confirmerShow V d ''deploying'')
      | _ \<Rightarrow> None))"

definition with_store :: "connection \<Rightarrow> (PStore \<Rightarrow> string) \<Rightarrow> cmd_result" where
  "with_store C k = with_state C default_socket (\<lambda>status. printed (map_option k (sm_Store status)))"

definition run_deploymentList :: "(time \<Rightarrow> string) \<Rightarrow> connection \<Rightarrow> bool \<Rightarrow> cmd_result" where
  "run_deploymentList format C bootOnly = with_store C (deploymentListCmd format bootOnly)"

definition run_deploymentLatest :: "(time \<Rightarrow> string) \<Rightarrow> connection \<Rightarrow> cmd_result" where
  "run_deploymentLatest format C = with_store C (deploymentLatestCmd format)"

definition run_retentionList :: "(time \<Rightarrow> string) \<Rightarrow> (int \<Rightarrow> string) \<Rightarrow> connection \<Rightarrow> cmd_result" where
  "run_retentionList format dec C = with_store C (deploymentRetentionList format dec)"

section \<open>Commands that send a request\<close>

definition send_request :: "connection \<Rightarrow> request \<Rightarrow> cmd_result" where
  "send_request C r =
     with_client C default_socket
       (case cn_Request C r of Some err \<Rightarrow> ([], [r], FatalExit err) | None \<Rightarrow> ([], [r], Exited))"

definition suspendCmd :: "connection \<Rightarrow> cmd_result" where
  "suspendCmd C = send_request C RSuspend"

definition resumeCmd :: "connection \<Rightarrow> cmd_result" where
  "resumeCmd C = send_request C RResume"

definition deploymentLatestSubmitCmd :: "connection \<Rightarrow> string \<Rightarrow> cmd_result" where
  "deploymentLatestSubmitCmd C operation =
     (if operation \<noteq> [] \<and> operation \<notin> {''test'', ''switch'', ''boot''}
      then fatal (''The operation is '' @ [CHR 0x27] @ operation @ [CHR 0x27] @
             '' while it must be one of [test, switch, boot]'')
      else send_request C (RLatestSubmit operation))"

text \<open>The error of the request is ignored.\<close>

definition fetchCmd :: "connection \<Rightarrow> string \<Rightarrow> cmd_result" where
  "fetchCmd C unixSocketPath =
     with_client C (if unixSocketPath = [] then default_socket else unixSocketPath)
       (''All remotes have been fetched.'', [RFetch], Exited)"

section \<open>Commands that consume the stream of events\<close>

text \<open>
  What \<open>events\<close> prints for the messages of the stream, until one reports a failure; \<open>json\<close> is \<open>json.Marshal\<close> when
  the events are printed as JSON. Without it, a message without event and failure is a nil dereference.
\<close>

definition event_text :: "(Event option \<Rightarrow> string + string) option \<Rightarrow> Event option \<Rightarrow> string option + string" where
  "event_text json event =
     (case json of
        Some marshal \<Rightarrow> (case marshal event of
          Inl err \<Rightarrow> Inl (Some (''failed to marshal event to json: '' @ err)) | Inr s \<Rightarrow> Inr s)
      | None \<Rightarrow> (case Option.bind event Event_Short of None \<Rightarrow> Inl None | Some s \<Rightarrow> Inr s))"

fun events_loop :: "(Event option \<Rightarrow> string + string) option \<Rightarrow> Streamer list \<Rightarrow> string \<times> outcome option" where
  "events_loop json [] = ([], None)"
| "events_loop json (s # ss) =
     (if sr_FailureMsg s \<noteq> []
      then ([], Some (FatalExit (''failed to consume to the event stream: '' @ sr_FailureMsg s)))
      else case event_text json (sr_Event s) of
        Inl (Some err) \<Rightarrow> ([], Some (FatalExit err))
      | Inl None \<Rightarrow> ([], Some Crashed)
      | Inr text \<Rightarrow> (let (out, end) = events_loop json ss in (text @ nl @ out, end)))"

definition eventsCmd ::
  "connection \<Rightarrow> (Event option \<Rightarrow> string + string) option \<Rightarrow> Streamer list \<Rightarrow> string \<times> outcome option" where
  "eventsCmd C json stream =
     (case client_New C default_socket of
        Some err \<Rightarrow> ([], Some (FatalExit err))
      | None \<Rightarrow> events_loop json stream)"

text \<open>The notifications that \<open>desktop\<close> shows: \<open>None\<close> while it runs.\<close>

fun desktop_loop :: "Streamer list \<Rightarrow> string list \<times> outcome option" where
  "desktop_loop [] = ([], None)"
| "desktop_loop (s # ss) =
     (if sr_FailureMsg s \<noteq> []
      then ([], Some (FatalExit (''failed to consume to the event stream: '' @ sr_FailureMsg s)))
      else case sr_Event s of
        None \<Rightarrow> ([], Some Crashed)
      | Some e \<Rightarrow> (case notification e of
          None \<Rightarrow> ([], Some Crashed)
        | Some message \<Rightarrow>
            (let (out, end) = desktop_loop ss in ((if message \<noteq> [] then [message] else []) @ out, end))))"

definition scenario_generation :: Generation where
  "scenario_generation = Generation0\<lparr>g_BuildReason := BuildReasonNeedBuild,
     g_Source := Some (Source (Some (Git0\<lparr>git_SelectedRemoteName := ''origin'', git_SelectedBranchName := ''main''\<rparr>)))\<rparr>"

definition scenario :: "Event list" where
  "scenario =
     (let started = Deployment0\<lparr>d_Status := StatusToString Init, d_Generation := scenario_generation\<rparr>;
          finished = Deployment0\<lparr>d_Status := StatusToString Done, d_Generation := scenario_generation\<rparr>
      in map (\<lambda>t. \<lparr>ev_Type = Some t, ev_CreatedAt = None\<rparr>)
           [Event_BuildStarted scenario_generation, Event_DeploymentStarted started,
            Event_DeploymentFinished finished, Event_RebootRequired finished])"

definition desktopCmd :: "connection \<Rightarrow> string \<Rightarrow> bool \<Rightarrow> Streamer list \<Rightarrow> string list \<times> outcome option" where
  "desktopCmd C unixSocketPath test stream =
     (let start = ''Agent desktop notifications started.'';
          (out, end) =
            (if test then (fst (desktop_loop (map received scenario)), Some Exited)
             else case client_New C unixSocketPath of
                    Some err \<Rightarrow> ([], Some (FatalExit err))
                  | None \<Rightarrow> desktop_loop stream)
      in (start # out, end))"

section \<open>The scenario of the watch command\<close>

definition scenario_git :: Git where
  "scenario_git = Git0\<lparr>git_SelectedRemoteName := ''origin'', git_SelectedBranchName := ''main'',
     git_SelectedCommitId := ''d3b9c304-cb7d-4682-a052-57abd427e2b0'',
     git_SelectedCommitMsg := ''commit message'' @ nl @ ''multi line''\<rparr>"

definition scenario_deployment :: "string \<Rightarrow> Deployment" where
  "scenario_deployment status = Deployment0\<lparr>d_Uuid := ''b9c9c304-cb7d-4682-a052-57abd427e2b0'', d_Operation := ''switch'',
     d_Status := status, d_Generation := Generation0\<lparr>g_Uuid := ''d3b9c304-cb7d-4682-a052-57abd427e2b0'',
       g_Source := Some (Source (Some scenario_git))\<rparr>\<rparr>"

definition scenario_build :: "string \<Rightarrow> Generation" where
  "scenario_build status = Generation0\<lparr>g_Uuid := ''b9c9c304-cb7d-4682-a052-57abd427e2b0'', g_BuildStatus := status,
     g_Source := Some (Source (Some scenario_git))\<rparr>"

definition dStarted :: "time \<Rightarrow> string \<Rightarrow> Event" where
  "dStarted now status = mk_event (Event_DeploymentStarted (scenario_deployment status)) now"

definition dFinished :: "time \<Rightarrow> string \<Rightarrow> Event" where
  "dFinished now status = mk_event (Event_DeploymentFinished (scenario_deployment status)) now"

definition bStarted :: "time \<Rightarrow> string \<Rightarrow> Event" where
  "bStarted now status = mk_event (Event_BuildStarted (scenario_build status)) now"

definition bFinished :: "time \<Rightarrow> string \<Rightarrow> Event" where
  "bFinished now status = mk_event (Event_BuildFinished (scenario_build status)) now"

definition scenario_state :: pbState where
  "scenario_state = \<lparr>sm_NeedToReboot = Some False, sm_IsSuspended = None, sm_Builder = None,
     sm_Deployer = Some \<lparr>pd_IsDeploying = Some False, pd_Deployment = Some (scenario_deployment ''done''),
       pd_GenerationToDeploy = None, pd_Operation = [], pd_PreviousDeployment = None, pd_IsSuspended = None\<rparr>,
     sm_Fetcher = None, sm_Store = None, sm_BuildConfirmer = None, sm_DeployConfirmer = None\<rparr>"

definition watchScenario :: "time \<Rightarrow> Streamer list" where
  "watchScenario now =
     [received (mk_event (Event_ManagerState scenario_state) now), failure ''not connected'', failure [],
      received (bStarted now ''initialized''), received (bFinished now ''built''), received (dStarted now ''init''),
      received (dFinished now ''done''), received (dFinished now ''failed'')]"

text \<open>The model at the start of the program, and after messages of the stream.\<close>

definition ManagerModel0 :: ManagerModel where
  "ManagerModel0 = \<lparr>mm_NeedToReboot = False, mm_IsSuspended = False, mm_Hostname = [], mm_ConnectionMsg = [],
     mm_Fetcher = \<lparr>fm_IsFetching = False, fm_GitRepositoryStatus = None\<rparr>,
     mm_Builder = \<lparr>bm_IsEvaluating = False, bm_IsBuilding = False, bm_IsSuspended = False, bm_Generation = None,
       bm_LogLines = []\<rparr>,
     mm_Deployer = \<lparr>dm_IsDeploying = False, dm_IsSuspended = False, dm_Deployment = None, dm_LogLines = []\<rparr>\<rparr>"

definition watch_message :: "Streamer \<Rightarrow> ManagerModel \<Rightarrow> ManagerModel" where
  "watch_message s mm = fst (watch_Update True (Streamed (sr_Event s) (sr_FailureMsg s)) mm)"

definition watch_stream :: "Streamer list \<Rightarrow> ManagerModel \<Rightarrow> ManagerModel" where
  "watch_stream ss mm = fold watch_message ss mm"

text \<open>
  The stream that \<open>watch\<close> shows and whether it has a client: a test run replays the scenario, otherwise the
  error of \<open>client.New\<close> ends it with status 1.
\<close>

definition watchCmd :: "connection \<Rightarrow> bool \<Rightarrow> string \<Rightarrow> time \<Rightarrow> Streamer list \<Rightarrow> string + (bool \<times> Streamer list)" where
  "watchCmd C watchTest unixSocketPath now stream =
     (if watchTest then Inr (False, watchScenario now)
      else case client_New C (if unixSocketPath = [] then default_socket else unixSocketPath) of
        Some err \<Rightarrow> Inl (''Error: '' @ err @ nl)
      | None \<Rightarrow> Inr (True, stream))"

text \<open>The request of the client that a command of the program makes.\<close>

fun watch_request :: "watch_cmd \<Rightarrow> request option" where
  "watch_request ClientFetch = Some RFetch"
| "watch_request ClientSuspend = Some RSuspend"
| "watch_request ClientResume = Some RResume"
| "watch_request _ = None"

section \<open>Commands that run Nix\<close>

definition system_attribute :: "bool \<Rightarrow> string" where
  "system_attribute darwin = (if darwin then ''darwinConfigurations'' else ''nixosConfigurations'')"

text \<open>The hosts of the commands; the error of \<open>List\<close> is ignored.\<close>

definition command_hosts :: "xenv \<Rightarrow> bool \<Rightarrow> string \<Rightarrow> string \<Rightarrow> string list" where
  "command_hosts X darwin hostname flakeUrl =
     (if hostname \<noteq> [] then [hostname]
      else case List_hosts X (system_attribute darwin) flakeUrl of Inl _ \<Rightarrow> [] | Inr hosts \<Rightarrow> hosts)"

definition listCmd :: "xenv \<Rightarrow> bool \<Rightarrow> string \<Rightarrow> string" where
  "listCmd X darwin flakeUrl = concat (map (\<lambda>host. host @ nl) (command_hosts X darwin [] flakeUrl))"

text \<open>The errors that are logged, with their host; \<open>None\<close> is the panic of an empty derivation list.\<close>

fun eval_loop :: "xenv \<Rightarrow> bool \<Rightarrow> string \<Rightarrow> string list \<Rightarrow> (string \<times> x_error) list option" where
  "eval_loop X darwin flakeUrl [] = Some []"
| "eval_loop X darwin flakeUrl (host # hosts) =
     (case showDerivationWithFlake X flakeUrl host (system_attribute darwin) of
        Inl IndexPanic \<Rightarrow> None
      | Inl err \<Rightarrow> map_option ((#) (host, err)) (eval_loop X darwin flakeUrl hosts)
      | Inr _ \<Rightarrow> eval_loop X darwin flakeUrl hosts)"

text \<open>What is built for a host: after a failed evaluation the empty derivation path.\<close>

definition build_host :: "xenv \<Rightarrow> bool \<Rightarrow> string \<Rightarrow> string \<Rightarrow> (string \<times> x_error option \<times> x_error option) option" where
  "build_host X darwin flakeUrl host =
     (case showDerivationWithFlake X flakeUrl host (system_attribute darwin) of
        Inl IndexPanic \<Rightarrow> None
      | Inl err \<Rightarrow> Some ([], Some err, buildWithFlake X [])
      | Inr (drvPath, _) \<Rightarrow> Some (drvPath, None, buildWithFlake X drvPath))"

fun build_loop :: "xenv \<Rightarrow> bool \<Rightarrow> string \<Rightarrow> string list \<Rightarrow> (string \<times> string \<times> x_error option \<times> x_error option) list option" where
  "build_loop X darwin flakeUrl [] = Some []"
| "build_loop X darwin flakeUrl (host # hosts) =
     (case build_host X darwin flakeUrl host of
        None \<Rightarrow> None
      | Some r \<Rightarrow> map_option ((#) (host, r)) (build_loop X darwin flakeUrl hosts))"

definition evalCmd :: "xenv \<Rightarrow> bool \<Rightarrow> string \<Rightarrow> string \<Rightarrow> (string \<times> x_error) list option" where
  "evalCmd X darwin hostname flakeUrl = eval_loop X darwin flakeUrl (command_hosts X darwin hostname flakeUrl)"

definition buildCmd :: "xenv \<Rightarrow> bool \<Rightarrow> string \<Rightarrow> string \<Rightarrow>
    (string \<times> string \<times> x_error option \<times> x_error option) list option" where
  "buildCmd X darwin hostname flakeUrl = build_loop X darwin flakeUrl (command_hosts X darwin hostname flakeUrl)"

section \<open>Requests and the agent\<close>

text \<open>The handler of each request; \<open>None\<close>: it blocks.\<close>

fun serve :: "benv \<Rightarrow> env \<Rightarrow> time \<Rightarrow> request \<Rightarrow> fetcher \<times> manager \<Rightarrow> (grpc_status option \<times> fetcher \<times> manager) option" where
  "serve V E now RFetch (f, m) = Some (None, server_Fetch f, m)"
| "serve V E now RSuspend (f, m) = (let (err, m') = server_Suspend V E m in Some (err, f, m'))"
| "serve V E now RResume (f, m) = (let (err, m') = server_Resume V E m in Some (err, f, m'))"
| "serve V E now (RLatestSubmit operation) (f, m) =
     (let (err, m') = server_DeploymentLatestSubmit operation m in Some (err, f, m'))"
| "serve V E now (RConfirm u what) (f, m) = map_option (\<lambda>m'. (None, f, m')) (server_Confirm now what u m)"

text \<open>
  Property C23. Accepting a pending build accepts its deployment too. When a generation waits for the
  confirmation of its build, no generation is being sent by the confirmers and it does not wait for
  its deployment yet, the request of \<open>confirmation accept\<close> is served and lets the build confirmer
  send the generation; and the deploy confirmer, in manual mode too, sends it as soon as the manager
  submits it. When only a deployment waits, only that one is confirmed.
\<close>

theorem accept_confirms_build_and_deployment:
  assumes "co_sending (mg_BuildConfirmer m) = None" and "co_sending (mg_DeployConfirmer m) = None"
  shows "(cf_Submitted (co_state (mg_BuildConfirmer m)) = u \<and> u \<noteq> [] \<and> \<not> co_notified (mg_BuildConfirmer m) \<and>
      cf_Submitted (co_state (mg_DeployConfirmer m)) \<noteq> u \<longrightarrow>
      (\<exists>out m' c. confirmationAccept (toState m) = (out, [RConfirm u ''all''], Exited) \<and>
         serve V E now (RConfirm u ''all'') (f, m) = Some (None, f, m') \<and>
         co_sending (mg_BuildConfirmer m') = Some u \<and> co_sending (mg_DeployConfirmer m') = None \<and>
         confirmer_select now' (CSubmit u) (mg_DeployConfirmer m') = Some c \<and> co_sending c = Some u)) \<and>
    (cf_Submitted (co_state (mg_BuildConfirmer m)) = [] \<and> cf_Submitted (co_state (mg_DeployConfirmer m)) = u \<and> u \<noteq> [] \<and>
      \<not> co_notified (mg_DeployConfirmer m) \<longrightarrow>
      (\<exists>out m'. confirmationAccept (toState m) = (out, [RConfirm u ''deploy''], Exited) \<and>
         serve V E now (RConfirm u ''deploy'') (f, m) = Some (None, f, m') \<and>
         mg_BuildConfirmer m' = mg_BuildConfirmer m \<and> co_sending (mg_DeployConfirmer m') = Some u))"
proof -
  have state: "sm_BuildConfirmer (toState m) = Some (co_state (mg_BuildConfirmer m))"
    "sm_DeployConfirmer (toState m) = Some (co_state (mg_DeployConfirmer m))"
    by (simp_all add: toState_def confirmer_status_def)
  show ?thesis
    using assms
    by (auto simp: confirmationAccept_def state server_Confirm_def confirm_build_def confirm_deploy_def
        confirmer_select.simps confirmer_confirm_def confirmer_notify_def confirmer_submit_def Let_def)
qed

theorem accept_confirms_build_and_deployment_witness:
  "\<exists>out (m' :: manager) c. confirmationAccept (toState (example_manager\<lparr>
       mg_BuildConfirmer := the (confirmer_select 1 (CSubmit ''a'') (NewConfirmer Manual 0)),
       mg_DeployConfirmer := NewConfirmer Manual 0\<rparr>)) = (out, [RConfirm ''a'' ''all''], Exited) \<and>
     confirmer_select 3 (CSubmit ''a'') (mg_DeployConfirmer m') = Some c \<and> co_sending c = Some ''a''"
proof -
  let ?m = "example_manager\<lparr>mg_BuildConfirmer := the (confirmer_select 1 (CSubmit ''a'') (NewConfirmer Manual 0)),
     mg_DeployConfirmer := NewConfirmer Manual 0\<rparr>"
  have "co_sending (mg_BuildConfirmer ?m) = None" "co_sending (mg_DeployConfirmer ?m) = None"
    "cf_Submitted (co_state (mg_BuildConfirmer ?m)) = ''a''" "\<not> co_notified (mg_BuildConfirmer ?m)"
    "cf_Submitted (co_state (mg_DeployConfirmer ?m)) \<noteq> ''a''" "''a'' \<noteq> ([] :: string)"
    by (simp_all add: confirmer_select.simps confirmer_defs NewConfirmer_def)
  note pending = this
  have "\<exists>out m' c. confirmationAccept (toState ?m) = (out, [RConfirm ''a'' ''all''], Exited) \<and>
      serve example_benv (example_env 0 0) 2 (RConfirm ''a'' ''all'') (example_fetcher, ?m) = Some (None, example_fetcher, m') \<and>
      co_sending (mg_BuildConfirmer m') = Some ''a'' \<and> co_sending (mg_DeployConfirmer m') = None \<and>
      confirmer_select 3 (CSubmit ''a'') (mg_DeployConfirmer m') = Some c \<and> co_sending c = Some ''a''"
    by (rule accept_confirms_build_and_deployment [OF pending(1,2), THEN conjunct1, THEN mp]) (intro conjI pending(3-))
  then show ?thesis by blast
qed

section \<open>Reconnection\<close>

text \<open>The messages of the stream are failures or events, and failures are never empty.\<close>

lemma stream_step_messages:
  "stream_step pc r = Some (pc', out) \<Longrightarrow> s \<in> set out \<Longrightarrow> sr_FailureMsg s \<noteq> [] \<longleftrightarrow> sr_Event s = None"
  by (induction pc r rule: stream_step.induct) (auto simp: failure_def received_def)

lemma stream_messages:
  "client_Stream pc rs = Some (pc', outs) \<Longrightarrow> s \<in> set outs \<Longrightarrow> sr_FailureMsg s \<noteq> [] \<longleftrightarrow> sr_Event s = None"
proof (induction pc rs arbitrary: outs rule: client_Stream.induct)
  case (2 pc r rs)
  then obtain p out outs' where "stream_step pc r = Some (p, out)" "client_Stream p rs = Some (pc', outs')" "outs = out @ outs'"
    by (auto split: option.splits)
  with 2 show ?case using stream_step_messages [of pc r p out s] by auto blast+
qed auto

lemma client_Stream_append:
  "client_Stream pc rs = Some (p, outs) \<Longrightarrow>
     client_Stream pc (rs @ rs') = map_option (\<lambda>(q, outs'). (q, outs @ outs')) (client_Stream p rs')"
proof (induction pc rs arbitrary: outs rule: client_Stream.induct)
  case (1 pc)
  then show ?case by (cases "client_Stream pc rs'") auto
next
  case (2 pc r rs)
  then show ?case by (cases "client_Stream p rs'") (auto split: option.splits)
qed

lemma client_Stream_events: "client_Stream Receiving (map RecvEvent es) = Some (Receiving, map received es)"
  by (induction es) simp_all

text \<open>What the view shows besides the log lines.\<close>

definition forget_logs :: "ManagerModel \<Rightarrow> ManagerModel" where
  "forget_logs mm = mm\<lparr>mm_Builder := (mm_Builder mm)\<lparr>bm_LogLines := []\<rparr>,
     mm_Deployer := (mm_Deployer mm)\<lparr>dm_LogLines := []\<rparr>\<rparr>"

lemma forget_UpdateManager: "forget_logs (UpdateManager e (forget_logs mm)) = forget_logs (UpdateManager e mm)"
  by (simp add: UpdateManager_def show_state_def upd_builder_def upd_deployer_def forget_logs_def Let_def
      split: option.split event_type.split log_type.split)

lemma forget_fold:
  "forget_logs mm = forget_logs mm' \<Longrightarrow> forget_logs (fold UpdateManager es mm) = forget_logs (fold UpdateManager es mm')"
proof (induction es arbitrary: mm mm')
  case (Cons e es)
  have "forget_logs (UpdateManager e mm) = forget_logs (UpdateManager e mm')"
    by (rule forget_UpdateManager [of e mm, unfolded Cons.prems, symmetric, THEN trans]) (rule forget_UpdateManager)
  from Cons.IH [OF this] show ?case by simp
qed simp

lemma UpdateManager_connection [simp]: "mm_ConnectionMsg (UpdateManager e mm) = mm_ConnectionMsg mm"
  by (simp add: UpdateManager_def show_state_def upd_builder_def upd_deployer_def Let_def
      split: option.split event_type.split log_type.split)

lemma watch_received: "watch_message (received e) mm = UpdateManager e (mm\<lparr>mm_ConnectionMsg := []\<rparr>)"
  by (simp add: watch_message_def watch_Update_def received_def)

lemma no_connection_message: "mm_ConnectionMsg mm = [] \<Longrightarrow> mm\<lparr>mm_ConnectionMsg := []\<rparr> = mm"
  by (cases mm) simp

lemma watch_events:
  "mm_ConnectionMsg mm = [] \<Longrightarrow> watch_stream (map received es) mm = fold UpdateManager es mm"
  unfolding watch_stream_def by (induction es arbitrary: mm) (simp_all add: watch_received no_connection_message)

text \<open>A state event of the agent leaves nothing of the earlier view but the log lines.\<close>

lemma state_event_resets:
  "forget_logs (show_state (toState m) (mm\<lparr>mm_ConnectionMsg := []\<rparr>)) = forget_logs (show_state (toState m) ManagerModel0)"
  by (simp add: show_state_def toState_def forget_logs_def ManagerModel0_def Let_def)

text \<open>
  Property C22. A reconnection resynchronises: whatever happened on the connection before, after failures,
  lost events and any view, once the client is connected again and has received what the server sent on
  the new stream, it shows (but for old log lines) exactly what a client shows that starts with the
  state of the manager at the time of that connection and the events broadcast since then, in order,
  that were not dropped; and it shows no failure.
\<close>

theorem reconnect_resynchronises:
  assumes "events_call first s b hist dropped" and "first = mk_event (Event_ManagerState (toState m)) now"
    and "es_sent s \<noteq> []" and "client_Stream Connecting rs = Some (Connecting, before)"
  shows "\<exists>outs got. client_Stream Connecting (rs @ EventsOk # map RecvEvent (es_sent s)) = Some (Receiving, before @ outs) \<and>
    subseq got hist \<and> mm_ConnectionMsg (watch_stream (before @ outs) mm) = [] \<and>
    forget_logs (watch_stream (before @ outs) mm) =
      forget_logs (fold UpdateManager got (show_state (toState m) ManagerModel0))"
proof -
  obtain got where sent: "es_sent s = first # got" and got: "subseq got hist"
  proof (cases "es_closed s")
    case True
    with that show thesis using events_call_ok [OF assms(1)] assms(3) by (auto simp: call_ok_def)
  next
    case False
    then obtain got where "es_sent s = first # got" "subscription (es_subscriber s) b hist got dropped"
      using events_call_ok [OF assms(1)] by (auto simp: call_ok_def)
    then show thesis
      using that subscription_ok [of "es_subscriber s" b hist got dropped] by (auto simp: subscriber_ok_def dest: subseq_appendD1)
  qed
  let ?outs = "map received (es_sent s)"
  have run: "client_Stream Connecting (rs @ EventsOk # map RecvEvent (es_sent s)) = Some (Receiving, before @ ?outs)"
    using client_Stream_append [OF assms(4), of "EventsOk # map RecvEvent (es_sent s)"] client_Stream_events by simp
  define mm1 where "mm1 = (watch_stream before mm)\<lparr>mm_ConnectionMsg := []\<rparr>"
  have upd: "UpdateManager first mm1 = show_state (toState m) mm1"
    by (simp add: assms(2) UpdateManager_def mk_event_def)
  have conn: "mm_ConnectionMsg (show_state (toState m) mm1) = []"
    unfolding upd [symmetric] by (simp add: mm1_def)
  have "watch_stream (before @ ?outs) mm = watch_stream (map received got) (show_state (toState m) mm1)"
    by (simp add: watch_stream_def sent watch_received upd flip: mm1_def) (simp add: mm1_def watch_stream_def upd [unfolded mm1_def watch_stream_def])
  also have "\<dots> = fold UpdateManager got (show_state (toState m) mm1)" using conn by (rule watch_events)
  finally have view: "watch_stream (before @ ?outs) mm = fold UpdateManager got (show_state (toState m) mm1)" .
  have "mm_ConnectionMsg (fold UpdateManager got x) = mm_ConnectionMsg x" for x by (induction got arbitrary: x) simp_all
  then have "mm_ConnectionMsg (watch_stream (before @ ?outs) mm) = []" using conn by (simp add: view)
  moreover have "forget_logs (show_state (toState m) mm1) = forget_logs (show_state (toState m) ManagerModel0)"
    unfolding mm1_def by (rule state_event_resets)
  from forget_fold [OF this, of got] have "forget_logs (watch_stream (before @ ?outs) mm) =
      forget_logs (fold UpdateManager got (show_state (toState m) ManagerModel0))" by (simp add: view)
  ultimately show ?thesis using run got by blast
qed

theorem reconnect_resynchronises_witness:
  "\<exists>s b outs. events_open (\<lambda>_. True) 7 example_manager broker_New = (s, b) \<and>
     client_Stream Connecting ([EventsErr ''down'', EventsOk, RecvEOF] @ EventsOk # map RecvEvent (es_sent s)) =
       Some (Receiving, [failure (''failed to connect to the stream: '' @ ''down''), failure ''server closed stream: EOF''] @ outs) \<and>
     mm_ConnectionMsg (watch_stream
       ([failure (''failed to connect to the stream: '' @ ''down''), failure ''server closed stream: EOF''] @ outs)
       ManagerModel0) = []"
proof -
  let ?e = "mk_event (Event_ManagerState (toState example_manager)) 7"
  obtain s b where o: "events_open (\<lambda>_. True) 7 example_manager broker_New = (s, b)" by fastforce
  have "broker_inv broker_New" by (simp add: broker_inv_def broker_New_def)
  from ec_open [OF this refl o] have c: "events_call ?e s b [] 0" .
  have sent: "es_sent s \<noteq> []" using o by (auto simp: events_open_def Let_def Subscribe_def)
  have "client_Stream Connecting [EventsErr ''down'', EventsOk, RecvEOF] = Some (Connecting,
      [failure (''failed to connect to the stream: '' @ ''down''), failure ''server closed stream: EOF''])" by simp
  from reconnect_resynchronises [OF c refl sent this, of ManagerModel0] o show ?thesis by blast
qed

section \<open>The suspension key\<close>



section \<open>Consumers without reconnection\<close>

lemma desktop_loop_events:
  "None \<notin> notification ` set es \<Longrightarrow>
   desktop_loop (map received es @ ss) =
     (filter (\<lambda>s. s \<noteq> []) (map (\<lambda>e. the (notification e)) es) @ fst (desktop_loop ss), snd (desktop_loop ss))"
  by (induction es) (auto simp: received_def split: option.splits prod.splits)

text \<open>
  The stream connects again after a failure, but the program of the desktop notifications ends at the first
  one: nothing that happens afterwards is shown.
\<close>

theorem desktop_ends_at_disconnection:
  assumes "None \<notin> notification ` set es"
    and "client_Stream Connecting (EventsOk # map RecvEvent es @ RecvErr err # rs) = Some (pc, outs)"
  shows "desktop_loop outs = (filter (\<lambda>s. s \<noteq> []) (map (\<lambda>e. the (notification e)) es),
    Some (FatalExit (''failed to consume to the event stream: failed to receive from the stream: '' @ err)))"
proof -
  obtain outs' where "outs = map received es @ failure (''failed to receive from the stream: '' @ err) # outs'"
    using assms(2) client_Stream_append [OF client_Stream_events [of es], of "RecvErr err # rs"] by (auto split: option.splits)
  then show ?thesis using desktop_loop_events [OF assms(1)] by (simp add: failure_def)
qed

section \<open>Shortcomings\<close>

text \<open>A build whose evaluation failed is started nevertheless, of the empty derivation path.\<close>

lemma failed_evaluation_builds_nothing:
  assumes "showDerivationWithFlake X flakeUrl host (system_attribute darwin) = Inl err" and "err \<noteq> IndexPanic"
  shows "build_host X darwin flakeUrl host =
    Some ([], Some err, fst (runNixFlakeCommand X [''build'', ''^*'', ''-L'', ''--no-link'']))"
  using assms by (cases err) (simp_all add: build_host_def buildWithFlake_def)

end
