(* ===== verification/Status.thy ===== *)
theory Status
  imports Pipeline Commands
begin

text \<open>
  What the views and the status command show of the agent: they dereference the Git source of the
  generation of the builder and of the deployment of the deployer, so the agent must never report
  one whose source is set but is not a Git source. The provenance of the pipeline gives this for every
  state that is reached from a store that can be shown.
\<close>

section \<open>The deployment the deployer reports\<close>

text \<open>A step of the deployer reports the deployment it reported before or one that the pipeline has accounted for.\<close>

definition reports :: "(uuid \<times> Source option) set \<Rightarrow> Deployment option \<Rightarrow> Deployment option \<Rightarrow> bool" where
  "reports D old new \<longleftrightarrow> new = old \<or> (\<exists>dpl. new = Some dpl \<and> origin (d_Generation dpl) \<in> D)"

lemma reports_same [simp]: "reports D x x"
  by (simp add: reports_def)

lemma reports_trans: "reports D x y \<Longrightarrow> reports D y z \<Longrightarrow> reports D x z"
  by (auto simp: reports_def)

lemma reports_mono: "reports D x y \<Longrightarrow> D \<subseteq> D' \<Longrightarrow> reports D' x y"
  by (auto simp: reports_def)

lemma runner_step_reports:
  assumes "runner_step W d = Some d'" and "deployer_in D d" and "([], None) \<in> D"
  shows "reports D (dp_deployment d) (dp_deployment d')"
proof (cases "dp_pc d")
  case (Create g op)
  with assms(1) show ?thesis by (cases g) (auto simp: runner_step.simps Let_def split: prod.splits)
next
  case (Announce g dpl b c)
  with assms show ?thesis by (auto simp: runner_step.simps deployer_in_def reports_def)
next
  case (Start g dpl b c)
  with assms show ?thesis
    by (auto simp: runner_step.simps Let_def deployer_in_def reports_def dest: update_in split: sum.splits)
next
  case (Finish g dpl b c r)
  with assms show ?thesis
    by (cases r) (auto simp: runner_step.simps Let_def deployer_in_def reports_def
        dest: update_in(2) [OF set_ended_in] split: sum.splits)
next
  case (Post dpl)
  with assms show ?thesis by (auto simp: runner_step.simps Let_def deployer_in_def reports_def split: prod.splits)
qed (use assms(1) in \<open>auto simp: runner_step.simps split: list.splits if_splits option.splits\<close>)

text \<open>No other step of the agent changes it.\<close>

lemma reported_frames [simp]:
  "dp_deployment (mg_deployer (with_builder b m)) = dp_deployment (mg_deployer m)"
  "dp_deployment (Submit g op force reason d) = dp_deployment d"
  "dp_deployment (Suspend E reason d) = dp_deployment d" "dp_deployment (Resume E d) = dp_deployment d"
  "dp_deployment (the_deployer m) = dp_deployment (mg_deployer m)"
  "mg_deployer (on_event V E e m) = mg_deployer m"
  by (simp_all add: with_builder_def Submit_def the_deployer_def Suspend_def Resume_def on_event_def Let_def
      case_prod_beta' split: option.split event_type.split)

lemma manager_act_reports:
  assumes "manager_act a m m'" and "deployer_in D (the_deployer m)" and "([], None) \<in> D"
  shows "reports D (dp_deployment (mg_deployer m)) (dp_deployment (mg_deployer m'))"
  using assms
proof (induction rule: manager_act.induct)
  case (ma_deployer W m d)
  then show ?case using runner_step_reports [OF ma_deployer] by (simp add: with_deployer_def)
next
  case (ma_done m dpl d NeedToReboot E)
  then show ?case
    by (auto simp: on_deployment_done_def receive_done_def with_deployer_def Let_def split: list.splits)
qed (auto simp: on_evaluation_done_def on_build_confirmed_def on_build_done_def on_deploy_confirmed_def manager_Suspend_def
    manager_Resume_def DeploymentLatestSubmit_def with_deployer_def Let_def
    split: sum.split option.split prod.split)

definition reported :: "manager \<Rightarrow> Mode \<Rightarrow> manager_label list \<Rightarrow> manager \<Rightarrow> bool" where
  "reported m0 mode as m \<longleftrightarrow> provenance m0 mode as m \<and>
     reports (deployable m0 mode as) (dp_deployment (mg_deployer m0)) (dp_deployment (mg_deployer m))"

lemma reported_act:
  assumes "reported m0 mode as m" and "manager_act a m m'"
  shows "reported m0 mode (a # as) m'"
proof -
  have "reports (deployable m0 mode as) (dp_deployment (mg_deployer m)) (dp_deployment (mg_deployer m'))"
    using assms by (intro manager_act_reports) (auto simp: reported_def provenance_def)
  then have "reports (deployable m0 mode as) (dp_deployment (mg_deployer m0)) (dp_deployment (mg_deployer m'))"
    using assms(1) reports_trans unfolding reported_def by blast
  then show ?thesis
    using assms provenance_act reports_mono [OF _ deployable_mono] unfolding reported_def by blast
qed

interpretation reported_history: history_of
  "\<lambda>m. m = m0 \<and> manager_init m0 \<and> mg_DeployConfirmer m0 = NewConfirmer mode duration" manager_act "reported m0 mode"
  for m0 mode duration
  by unfold_locales (auto simp: reported_def provenance_init elim!: reported_act [unfolded reported_def, OF conjI])

section \<open>Status and views are defined\<close>

text \<open>A source that can be shown: not set, or a Git source.\<close>

definition showable :: "Source option \<Rightarrow> bool" where
  "showable source \<longleftrightarrow> source \<noteq> Some (Source None)"

definition showable_store :: "store \<Rightarrow> bool" where
  "showable_store s \<longleftrightarrow> (\<forall>g \<in> set (st_Generations s). showable (g_Source g)) \<and>
     (\<forall>d \<in> set (st_Deployments s). showable (g_Source (d_Generation d)))"

lemma showable_git: "(\<exists>git. getGitFromGeneration (Some g) = Some git) \<longleftrightarrow> showable (g_Source g)"
proof (cases "g_Source g")
  case (Some source)
  then show ?thesis by (cases source) (simp add: getGitFromGeneration_def showable_def)
qed (simp add: getGitFromGeneration_def showable_def)

lemma deployable_showable:
  assumes "showable_store (mg_store m0)"
  shows "(u, source) \<in> deployable m0 mode as \<Longrightarrow> showable source" "(u, source) \<in> created m0 as \<Longrightarrow> showable source"
  using assms by (auto simp: deployable_def created_def origin_def showable_store_def showable_def verified_source_def)

lemma ref_line_defined: "showable (g_Source g) \<Longrightarrow> \<exists>line. ref_line V word g t = Some line"
  by (simp add: ref_line_def showable_git)

lemma deployment_activity_defined:
  "(\<And>d. deployment = Some d \<Longrightarrow> showable (g_Source (d_Generation d))) \<Longrightarrow>
     \<exists>line. deployment_activity V deployment = Some line"
  by (cases deployment) (simp_all add: deployment_activity_def ref_line_defined)

text \<open>
  Property C24. Showing the agent never crashes: in every state the agent can reach from a store and a
  previous deployment whose sources are unset or Git sources, the long status, the one line status
  and the view that a client draws after it received that state are all defined, whatever the
  client drew before.
\<close>

theorem status_never_crashes:
  assumes "reachable (\<lambda>m. m = m0 \<and> manager_init m) manager_step m" and "showable_store (mg_store m0)"
    and "\<forall>d. dp_deployment (mg_deployer m0) = Some d \<longrightarrow> showable (g_Source (d_Generation d))"
  shows "longStatus V (toState m) \<noteq> None \<and> onelineStatus V (toState m) \<noteq> None \<and>
    watch_View V (show_state (toState m) mm) \<noteq> None"
proof -
  obtain as where t: "trace (\<lambda>m. m = m0 \<and> manager_init m) manager_act as m"
    using assms(1) by (auto simp: reachable_manager_trace)
  then have "manager_init m0" by (induction rule: trace.induct) simp_all
  then obtain mode duration where c: "mg_DeployConfirmer m0 = NewConfirmer mode duration"
    by (auto simp: manager_init_def manager_New_def)
  have "(\<lambda>m. m = m0 \<and> manager_init m) = (\<lambda>m. m = m0 \<and> manager_init m0 \<and> mg_DeployConfirmer m0 = NewConfirmer mode duration)"
    using c by (intro ext) auto
  with t have r: "reported m0 mode as m" using reported_history.trace_inv by metis
  have build: "showable (g_Source g)" if "pbb_Generation (builder_State (the_builder m)) = Some g" for g
  proof -
    from that obtain u where "GenerationGet u (mg_store m) = Inr g"
      by (auto simp: builder_State_def split: if_splits sum.splits)
    then have "origin g \<in> created m0 as" using r generation_in(2) by (auto simp: reported_def provenance_def)
    then show ?thesis using deployable_showable(2) [OF assms(2)] by (simp add: origin_def)
  qed
  have deploy: "showable (g_Source (d_Generation d))" if "pd_Deployment (deployer_State (the_deployer m)) = Some d" for d
    using that r assms(3) deployable_showable(1) [OF assms(2)]
    by (auto simp: reported_def reports_def deployer_State_def origin_def)
  have "activity V (toState m) \<noteq> None"
    using build deployment_activity_defined [OF deploy, of "pd_Deployment (deployer_State (the_deployer m))" V]
    by (cases "pbb_Generation (builder_State (the_builder m))")
      (simp_all add: activity_def toState_def ref_line_defined)
  then obtain line where "activity V (toState m) = Some line" by blast
  moreover have "\<exists>sign. confirmation_sign (toState m) = Some sign" by (simp add: confirmation_sign_def toState_def)
  ultimately have "onelineStatus V (toState m) \<noteq> None" by (auto simp: onelineStatus_def)
  moreover have "longStatus V (toState m) \<noteq> None" by (simp add: longStatus_def toState_def)
  moreover have "builder_view V (mm_Builder (show_state (toState m) mm)) \<noteq> None"
    using build by (auto simp: builder_view_def show_state_def toState_def Let_def showable_git split: option.split)
  moreover have "deployer_view V (mm_Deployer (show_state (toState m) mm)) \<noteq> None"
    using deploy by (auto simp: deployer_view_def show_state_def toState_def Let_def showable_git split: option.split)
  ultimately show ?thesis by (auto simp: watch_View_def manager_view_def split: option.split)
qed

theorem status_never_crashes_witness:
  "onelineStatus \<lparr>vv_Render = (\<lambda>_ s. s), vv_Since = (\<lambda>_. 0), vv_Humanize = (\<lambda>_. []), vv_Help = []\<rparr>
     (toState example_manager) \<noteq> None"
proof -
  have "reachable (\<lambda>m. m = example_manager \<and> manager_init m) manager_step example_manager"
    by (rule reachable_init) (simp add: example_manager_init)
  moreover have "showable_store (mg_store example_manager)"
    by (simp add: showable_store_def example_manager_def manager_New_def store_simps)
  moreover have "\<forall>d. dp_deployment (mg_deployer example_manager) = Some d \<longrightarrow> showable (g_Source (d_Generation d))"
    by (simp add: example_manager_def manager_New_def example_deployer_def deployer_New_def store_simps)
  ultimately show ?thesis by (rule status_never_crashes [THEN conjunct2, THEN conjunct1])
qed

end
