(* ===== verification/Lifecycle.thy ===== *)
theory Lifecycle
  imports Manager_Correct
begin

text \<open>
  The life cycle of a generation: the composed system of the manager refines, for every
  generation in its store, a small state machine. A generation is created, evaluated once, and then built, maybe
  several times until a build succeeds; what its evaluation returned never changes, and a successful
  build is final. Only the garbage collection of the store takes a generation out of the machine.
\<close>

section \<open>The state machine\<close>

text \<open>The result of an evaluation: its status, error, derivation, output path and machine id.\<close>

datatype evaluation = Evaluation string string string string string

datatype phase = Created | InEvaluation | Settled evaluation string

definition evaluation_of :: "Generation \<Rightarrow> evaluation" where
  "evaluation_of g = Evaluation (g_EvalStatus g) (g_EvalErr g) (g_DrvPath g) (g_OutPath g) (g_MachineId g)"

definition phase_of :: "Generation \<Rightarrow> phase" where
  "phase_of g =
     (if g_EvalStatus g = EvalStatus_String EvalInit \<and> g_BuildStatus g = BuildStatus_String BuildInit then Created
      else if g_EvalStatus g = EvalStatus_String Evaluating \<and> g_BuildStatus g = BuildStatus_String BuildInit then InEvaluation
      else Settled (evaluation_of g) (g_BuildStatus g))"

inductive edge :: "phase \<Rightarrow> phase \<Rightarrow> bool" where
  evaluation_starts: "edge Created InEvaluation"
| evaluation_ends: "edge InEvaluation (Settled r (BuildStatus_String BuildInit))"
| build_starts: "b \<noteq> BuildStatus_String Built \<Longrightarrow> edge (Settled r b) (Settled r (BuildStatus_String Building))"
| build_succeeds: "edge (Settled r (BuildStatus_String Building)) (Settled r (BuildStatus_String Built))"
| build_fails: "edge (Settled r (BuildStatus_String Building)) (Settled r (BuildStatus_String BuildFailed))"

inductive_cases Settled_edgeE: "edge (Settled r b) p"

abbreviation along :: "phase \<Rightarrow> phase \<Rightarrow> bool" where
  "along \<equiv> edge\<^sup>*\<^sup>*"

text \<open>What never changes again: the result of the evaluation, and a successful build.\<close>

lemma along_Settled:
  assumes "along (Settled r b) p"
  shows "\<exists>b'. p = Settled r b' \<and> (b = ''built'' \<longrightarrow> b' = ''built'')"
  using assms by (induction rule: rtranclp_induct) (auto elim: Settled_edgeE)

lemma edges [intro]:
  "along InEvaluation (Settled r ''initialized'')"
  "b \<noteq> ''built'' \<Longrightarrow> along (Settled r b) (Settled r ''building'')"
  "along (Settled r ''building'') (Settled r ''built'')" "along (Settled r ''building'') (Settled r ''failed'')"
  using edge.intros by (auto intro!: r_into_rtranclp)

section \<open>The phases of a store\<close>

definition phases :: "store \<Rightarrow> uuid \<Rightarrow> phase option" where
  "phases s u = map_option phase_of (generationGet u (st_Generations s))"

text \<open>
  From \<open>s\<close> to \<open>s'\<close> no generation appears, the ones in \<open>U\<close> move along the edges, and the other ones stay as they
  are, if they stay at all.
\<close>

definition moves :: "uuid set \<Rightarrow> store \<Rightarrow> store \<Rightarrow> bool" where
  "moves U s s' \<longleftrightarrow> (\<forall>u q. phases s' u = Some q \<longrightarrow>
     (\<exists>p. phases s u = Some p \<and> along p q \<and> (u \<notin> U \<longrightarrow> p = q)))"

lemma moves_refl [simp]: "moves U s s"
  by (simp add: moves_def)

lemma moves_trans: "moves U s t \<Longrightarrow> moves U t v \<Longrightarrow> moves U s v"
  unfolding moves_def
proof (intro allI impI)
  fix u q
  assume st: "\<forall>u q. phases t u = Some q \<longrightarrow> (\<exists>p. phases s u = Some p \<and> along p q \<and> (u \<notin> U \<longrightarrow> p = q))"
    and tv: "\<forall>u q. phases v u = Some q \<longrightarrow> (\<exists>p. phases t u = Some p \<and> along p q \<and> (u \<notin> U \<longrightarrow> p = q))"
    and "phases v u = Some q"
  then obtain p where p: "phases t u = Some p" "along p q" "u \<notin> U \<longrightarrow> p = q" by blast
  with st obtain r where "phases s u = Some r" "along r p" "u \<notin> U \<longrightarrow> r = p" by blast
  with p show "\<exists>p. phases s u = Some p \<and> along p q \<and> (u \<notin> U \<longrightarrow> p = q)" by (auto intro: rtranclp_trans)
qed

lemma moves_mono: "moves U s s' \<Longrightarrow> U \<subseteq> U' \<Longrightarrow> moves U' s s'"
  unfolding moves_def by blast

lemma phases_frame: "st_Generations s' = st_Generations s \<Longrightarrow> phases s' = phases s"
  by (simp add: phases_def fun_eq_iff)

lemma moves_frame: "st_Generations s' = st_Generations s \<Longrightarrow> moves U t s' = moves U t s"
  by (simp add: moves_def phases_def)

lemma open_log_phases [simp]: "phases (open_log E obj u s) = phases s" "moves U t (open_log E obj u s) = moves U t s"
  by (simp_all add: moves_def phases_def fun_eq_iff)

context generation_change
begin

lemma ok_other:
  assumes "change_generation f record_last ev now u s = Inr s'" and "v \<noteq> u"
    and "generationGet v (st_Generations s') = Some g"
  shows "generationGet v (st_Generations s) = Some g"
proof -
  have "find_first (\<lambda>g. g_Uuid g = v) (filter (\<lambda>g. g_Uuid g \<in> last_uuids s') gs) = Some g \<Longrightarrow>
      find_first (\<lambda>g. g_Uuid g = v) gs = Some g" for gs
    by (induction gs) (auto split: if_splits dest: find_first_Some)
  with assms(3) have "generationGet v (generationPut u f (st_Generations s)) = Some g"
    unfolding gen_table.get_find ok_generations(1) [OF assms(1)] by blast
  then show ?thesis using assms(2) by (simp add: gen_table.get_put_other)
qed

lemma ok_moves:
  assumes "change_generation f record_last ev now u s = Inr s'"
    and "\<And>g. generationGet u (st_Generations s) = Some g \<Longrightarrow> along (phase_of g) (phase_of (f g))"
  shows "moves {u} s s'"
  unfolding moves_def
proof (intro allI impI)
  fix v q
  assume "phases s' v = Some q"
  then obtain g' where g': "generationGet v (st_Generations s') = Some g'" "q = phase_of g'" by (auto simp: phases_def)
  show "\<exists>p. phases s v = Some p \<and> along p q \<and> (v \<notin> {u} \<longrightarrow> p = q)"
  proof (cases "v = u")
    case True
    with ok_get [OF assms(1)] g' assms(2) show ?thesis by (auto simp: phases_def)
  next
    case False
    with ok_other [OF assms(1)] g' show ?thesis by (auto simp: phases_def)
  qed
qed

lemma ok_phase:
  assumes "change_generation f record_last ev now u s = Inr s'"
  shows "\<exists>g. generationGet u (st_Generations s) = Some g \<and> phases s' u = Some (phase_of (f g))"
  using ok_get [OF assms] by (auto simp: phases_def)

end

section \<open>The operations of the store\<close>

lemma phase_of_Settled: "phase_of g = Settled r b \<longleftrightarrow> r = evaluation_of g \<and> b = g_BuildStatus g \<and>
    \<not> (g_EvalStatus g \<in> {''initialized'', ''evaluating''} \<and> g_BuildStatus g = ''initialized'')"
  by (auto simp: phase_of_def)

lemma GenerationEvalStarted_phase:
  assumes "GenerationEvalStarted E u s = Inr s'" and "phases s u = Some Created"
  shows "moves {u} s s'" and "phases s' u = Some InEvaluation"
proof -
  note op = assms(1) [unfolded GenerationEvalStarted_def]
  show "moves {u} s s'"
    by (rule eval_started.ok_moves [OF op])
      (use assms(2) evaluation_starts in \<open>auto simp: phases_def phase_of_def split: if_splits intro: r_into_rtranclp\<close>)
  show "phases s' u = Some InEvaluation"
    using eval_started.ok_phase [OF op] assms(2) by (auto simp: phases_def phase_of_def split: if_splits)
qed

lemma GenerationEvalFinished_phase:
  assumes "GenerationEvalFinished E u d p m e s = Inr s'" and "phases s u = Some InEvaluation"
  shows "moves {u} s s'" and "\<exists>r. phases s' u = Some (Settled r ''initialized'')"
proof -
  note op = assms(1) [unfolded GenerationEvalFinished_def]
  have f: "\<exists>r. phase_of (eval_finished E d p m e g) = Settled r ''initialized''" if "phase_of g = InEvaluation" for g
    using that by (cases e) (auto simp: phase_of_def eval_finished_def split: if_splits)
  show "moves {u} s s'"
    by (rule eval_done.ok_moves [OF op]) (use assms(2) f in \<open>force simp: phases_def\<close>)
  show "\<exists>r. phases s' u = Some (Settled r ''initialized'')"
    using eval_done.ok_phase [OF op] assms(2) f by (auto simp: phases_def)
qed

lemma GenerationBuildStart_phase:
  assumes "GenerationBuildStart E u reason s = Inr s'" and "phases s u = Some (Settled r b)" and "b \<noteq> ''built''"
  shows "moves {u} s s'" and "phases s' u = Some (Settled r ''building'')"
proof -
  note op = assms(1) [unfolded GenerationBuildStart_def]
  have f: "phase_of (g\<lparr>g_BuildStartedAt := t, g_BuildStatus := ''building'', g_BuildReason := reason\<rparr>) =
      Settled r ''building''" if "phase_of g = Settled r b" for g t
    using that by (auto simp: phase_of_Settled evaluation_of_def)
  show "moves {u} s s'"
    by (rule build_started.ok_moves [OF op]) (use assms(2,3) f in \<open>auto simp: phases_def\<close>)
  show "phases s' u = Some (Settled r ''building'')"
    using build_started.ok_phase [OF op] assms(2) f by (auto simp: phases_def)
qed

lemma GenerationBuildFinished_phase:
  assumes "GenerationBuildFinished E u e s = Inr s'" and "phases s u = Some (Settled r ''building'')"
  shows "moves {u} s s'"
  using assms(1)
proof (rule GenerationBuildFinished_change)
  fix t
  assume op: "change_generation (build_finished E e) (\<lambda>s. s\<lparr>st_lastBuildFinished := Some u\<rparr>)
      Event_BuildFinished (clk E 1) u t = Inr s'" and t: "st_Generations t = st_Generations s"
  have "along (phase_of g) (phase_of (build_finished E e g))" if "phase_of g = Settled r ''building''" for g
  proof -
    have "phase_of (build_finished E e g) = Settled r (if e = None then ''built'' else ''failed'')"
      using that by (cases e) (auto simp: phase_of_Settled evaluation_of_def build_finished_def)
    with that show ?thesis by (auto simp del: rtranclp.rtrancl_refl)
  qed
  with assms(2) t have "moves {u} t s'" by (intro build_done.ok_moves [OF op]) (auto simp: phases_def)
  then show ?thesis using phases_frame [OF t] by (simp add: moves_def)
qed

section \<open>The builder\<close>

text \<open>The generation in evaluation is in its evaluation, and the one being built is being built.\<close>

definition in_phase :: "builder \<Rightarrow> bool" where
  "in_phase b \<longleftrightarrow>
     (\<forall>u source c. bu_evaluator b = Some (u, source, c) \<longrightarrow> phases (bu_store b) u = Some InEvaluation) \<and>
     (\<forall>u drv c. bu_buildator b = Some (u, drv, c) \<longrightarrow> (\<exists>r. phases (bu_store b) u = Some (Settled r ''building'')))"

text \<open>The generations a builder works on.\<close>

definition active :: "builder \<Rightarrow> uuid set" where
  "active b = fst ` set_option (bu_evaluator b) \<union> fst ` set_option (bu_buildator b)"

lemma phases_present: "phases s u = Some p \<Longrightarrow> \<exists>g. generationGet u (st_Generations s) = Some g"
  by (auto simp: phases_def)

lemma operation_succeeds:
  assumes "phases s u = Some p"
  shows "\<exists>s'. GenerationEvalFinished E u d o' m e s = Inr s'" "\<exists>s'. GenerationBuildStart E u reason s = Inr s'"
    "\<exists>s'. GenerationBuildFinished E u err s = Inr s'"
  using phases_present [OF assms]
  by (auto simp: GenerationEvalFinished_def GenerationBuildStart_def GenerationBuildFinished_def change_generation_def)

lemma eval_finish_phase:
  assumes "builder_inv b" and "in_phase b" and "eval_finish V b = Some b'"
  shows "moves (active b) (bu_store b) (bu_store b')" and "in_phase b'" and "active b' = {}"
proof -
  obtain u source c where ev: "bu_evaluator b = Some (u, source, c)"
    using assms(3) by (auto simp: eval_finish_def split: option.splits)
  obtain drv out mid err where V: "bv_Eval V source = (drv, out, mid, err)" by (metis prod_cases4)
  have idle: "bu_buildator b = None" using assms(1) ev by (auto simp: builder_inv_def)
  have p0: "phases (bu_store b) u = Some InEvaluation" using assms(2) ev by (simp add: in_phase_def)
  then obtain s1 where s1: "GenerationEvalFinished (bv_env V 0) u drv out mid (exec_result c err) (bu_store b) = Inr s1"
    using operation_succeeds(1) by blast
  obtain r where p1: "phases s1 u = Some (Settled r ''initialized'')"
    using GenerationEvalFinished_phase(2) [OF s1 p0] by blast
  then obtain s2 where s2: "GenerationBuildStart (bv_env V 1) u BuildReasonAlreadyBuilt s1 = Inr s2"
    using operation_succeeds(2) by blast
  have p2: "phases s2 u = Some (Settled r ''building'')" by (rule GenerationBuildStart_phase(2) [OF s2 p1]) simp
  then obtain s3 where s3: "GenerationBuildFinished (bv_env V 2) u None s2 = Inr s3" using operation_succeeds(3) by blast
  have m1: "moves {u} (bu_store b) s1" by (rule GenerationEvalFinished_phase(1) [OF s1 p0])
  have "moves {u} s1 s2" by (rule GenerationBuildStart_phase(1) [OF s2 p1]) simp
  then have "moves {u} s1 s3" using GenerationBuildFinished_phase [OF s3 p2] by (rule moves_trans)
  with m1 have m3: "moves {u} (bu_store b) s3" by (rule moves_trans)
  have "active b = {u}" using ev idle by (simp add: active_def)
  then show "moves (active b) (bu_store b) (bu_store b')" "in_phase b'" "active b' = {}"
    using assms(3) ev idle V s1 s2 s3 m1 m3
    by (auto simp: eval_finish_def Let_def logged_def in_phase_def active_def split: if_splits)
qed

lemma build_finish_phase:
  assumes "builder_inv b" and "in_phase b" and "build_finish V b = Some b'"
  shows "moves (active b) (bu_store b) (bu_store b')" and "in_phase b'" and "active b' = {}"
proof -
  obtain u drv c where bd: "bu_buildator b = Some (u, drv, c)"
    using assms(3) by (auto simp: build_finish_def split: option.splits)
  have idle: "bu_evaluator b = None" using assms(1) bd by (cases "bu_evaluator b") (auto simp: builder_inv_def)
  obtain r where p: "phases (bu_store b) u = Some (Settled r ''building'')" using assms(2) bd by (auto simp: in_phase_def)
  then obtain s where s: "GenerationBuildFinished (bv_env V 3) u (exec_result c (bv_Build V drv)) (bu_store b) = Inr s"
    using operation_succeeds(3) by blast
  note m = GenerationBuildFinished_phase [OF s p]
  have "active b = {u}" using bd idle by (simp add: active_def)
  then show "moves (active b) (bu_store b) (bu_store b')" "in_phase b'" "active b' = {}"
    using assms(3) bd idle s m by (auto simp: build_finish_def logged_def in_phase_def active_def)
qed

lemma cancel_phase [simp]:
  "in_phase (cancel_eval why b) = in_phase b" "in_phase (cancel_build why b) = in_phase b"
  "active (cancel_eval why b) = active b" "active (cancel_build why b) = active b"
  by (cases "bu_evaluator b"; cases "bu_buildator b"; force simp: in_phase_def active_def cancel_eval_def cancel_build_def)+

lemma in_phase_flags [simp]:
  "in_phase (b\<lparr>bu_isEvaluating := x\<rparr>) = in_phase b" "in_phase (b\<lparr>bu_isBuilding := x\<rparr>) = in_phase b"
  "in_phase (b\<lparr>bu_isSuspended := x\<rparr>) = in_phase b" "in_phase (b\<lparr>bu_EvaluationDone := us\<rparr>) = in_phase b"
  "in_phase (b\<lparr>bu_BuildDone := us\<rparr>) = in_phase b"
  "active (b\<lparr>bu_isEvaluating := x\<rparr>) = active b" "active (b\<lparr>bu_isBuilding := x\<rparr>) = active b"
  "active (b\<lparr>bu_isSuspended := x\<rparr>) = active b"
  by (simp_all add: in_phase_def active_def)

lemma stop_phase:
  assumes "builder_inv b" and "in_phase b"
  shows "moves (active b) (bu_store b) (bu_store (stopEval V b)) \<and> in_phase (stopEval V b) \<and> active (stopEval V b) \<subseteq> active b"
    and "moves (active b) (bu_store b) (bu_store (stopBuild V b)) \<and> in_phase (stopBuild V b) \<and> active (stopBuild V b) \<subseteq> active b"
proof -
  show "moves (active b) (bu_store b) (bu_store (stopEval V b)) \<and> in_phase (stopEval V b) \<and> active (stopEval V b) \<subseteq> active b"
    using eval_finish_phase [OF cancel_inv(1) [OF assms(1)], of "''context canceled''" V] assms(2)
    by (cases "eval_finish V (cancel_eval ''context canceled'' b)") (simp_all add: stopEval_def)
  show "moves (active b) (bu_store b) (bu_store (stopBuild V b)) \<and> in_phase (stopBuild V b) \<and> active (stopBuild V b) \<subseteq> active b"
    using build_finish_phase [OF cancel_inv(2) [OF assms(1)], of "''context canceled''" V] assms(2)
    by (cases "build_finish V (cancel_build ''context canceled'' b)") (simp_all add: stopBuild_def)
qed

lemma Stop_phase:
  assumes "builder_inv b" and "in_phase b"
  shows "moves (active b) (bu_store b) (bu_store (Stop V b))" and "in_phase (Stop V b)"
    and "bu_evaluator (Stop V b) = None" and "bu_buildator (Stop V b) = None"
proof -
  note e = stop_phase(1) [OF assms, of V]
  have inv: "builder_inv (stopEval V b)" using assms(1) by (rule stopEval_inv)
  note c = stop_phase(2) [OF inv, of V]
  have "moves (active b) (bu_store (stopEval V b)) (bu_store (Stop V b))"
    unfolding Stop_def using e c by (blast intro: moves_mono)
  with e show "moves (active b) (bu_store b) (bu_store (Stop V b))" by (blast intro: moves_trans)
  show "in_phase (Stop V b)" unfolding Stop_def using e c by blast
  show "bu_evaluator (Stop V b) = None" "bu_buildator (Stop V b) = None"
    using Stop_inv [OF assms(1), of V] by simp_all
qed

text \<open>A new generation is created, whatever the builder works on.\<close>

lemma NewGeneration_phases:
  assumes "NewGeneration E h d a rs s = (g, s')" and "newUuid E 0 \<notin> g_Uuid ` set (st_Generations s)"
  shows "phases s' = (phases s)(g_Uuid g \<mapsto> Created)" and "g_Uuid g = newUuid E 0"
proof -
  have g: "s' = upd_generations (\<lambda>gs. gs @ [g]) s" "g_Uuid g = newUuid E 0" "phase_of g = Created"
    using assms(1) by (auto simp: NewGeneration_def Let_def phase_of_def)
  have "find_first P (gs @ [x]) = (case find_first P gs of None \<Rightarrow> if P x then Some x else None | Some y \<Rightarrow> Some y)"
    for P :: "Generation \<Rightarrow> bool" and gs x by (induction gs) simp_all
  moreover have "find_first (\<lambda>x. g_Uuid x = g_Uuid g) (st_Generations s) = None"
    using assms(2) unfolding find_first_None g(2) by (metis imageI)
  ultimately show "phases s' = (phases s)(g_Uuid g \<mapsto> Created)"
    by (auto simp: phases_def generationGet_def fun_eq_iff g split: option.split)
  show "g_Uuid g = newUuid E 0" by (rule g(2))
qed

text \<open>The abstract system: a generation that was not there starts from its creation.\<close>

definition life_step :: "(uuid \<Rightarrow> phase option) \<Rightarrow> (uuid \<Rightarrow> phase option) \<Rightarrow> bool" where
  "life_step \<phi> \<phi>' \<longleftrightarrow> (\<forall>u q. \<phi>' u = Some q \<longrightarrow> along (case \<phi> u of None \<Rightarrow> Created | Some p \<Rightarrow> p) q)"

lemma moves_life: "moves U s s' \<Longrightarrow> life_step (phases s) (phases s')"
  unfolding moves_def life_step_def by (metis option.simps(5))

lemma Eval_phase:
  fixes V :: benv
  assumes "builder_inv b" and "in_phase b" and "fresh_uuids E (st_persisted (bu_store b))"
    and n: "NewGeneration E h d a rs (bu_store b) = (g, s)"
  defines "b' \<equiv> snd (Eval V g (b\<lparr>bu_store := s\<rparr>))"
  shows "life_step (phases (bu_store b)) (phases (bu_store b')) \<and> in_phase b'"
proof -
  let ?b = "b\<lparr>bu_store := s\<rparr>"
  note new = NewGeneration_phases [OF n fresh_uuidsD(3) [OF assms(3)]]
  have none: "phases (bu_store b) (g_Uuid g) = None"
    using fresh_uuidsD(3) [OF assms(3), of 0] by (auto simp: phases_def new(2) gen_table.get_None)
  have inv: "builder_inv ?b" by (rule builder_step_inv [OF assms(1) bstep_new [OF assms(3) n]])
  have ph: "in_phase ?b" using assms(2) none by (auto simp: in_phase_def new(1))
  have idle: "g_Uuid g \<notin> active ?b" using assms(2) none by (auto simp: active_def in_phase_def)
  note stop = Stop_phase [OF inv ph, of V]
  have old: "phases (bu_store (Stop V ?b)) (g_Uuid g) \<in> {None, Some Created}"
    using stop(1) idle new(1) by (force simp: moves_def)
  have life: "life_step (phases (bu_store b)) \<phi>" if "life_step (phases s) \<phi>" for \<phi>
    unfolding life_step_def
  proof (intro allI impI)
    fix u q
    assume "\<phi> u = Some q"
    with that have "along (case phases s u of None \<Rightarrow> Created | Some p \<Rightarrow> p) q" unfolding life_step_def by blast
    then show "along (case phases (bu_store b) u of None \<Rightarrow> Created | Some p \<Rightarrow> p) q"
      by (cases "u = g_Uuid g") (simp_all add: none new(1))
  qed
  show ?thesis
  proof (cases "GenerationEvalStarted (bv_env V 4) (g_Uuid g) (bu_store (Stop V ?b))")
    case (Inl e)
    then have "b' = (Stop V ?b)\<lparr>bu_isEvaluating := True\<rparr>" by (simp add: b'_def Eval_def Let_def)
    then show ?thesis using life [OF moves_life] stop(1,2) by auto
  next
    case (Inr t)
    then have "phases (bu_store (Stop V ?b)) (g_Uuid g) = Some Created"
      using old by (auto simp: GenerationEvalStarted_def change_generation_def phases_def split: option.splits)
    note st = GenerationEvalStarted_phase [OF Inr this]
    have b': "b' = (Stop V ?b)\<lparr>bu_isEvaluating := True, bu_store := open_log (bv_env V 5) ''evaluation'' (g_Uuid g) t,
        bu_GenerationUuid := g_Uuid g, bu_evaluator := Some (g_Uuid g, g_Source g, None)\<rparr>"
      using Inr by (simp add: b'_def Eval_def Let_def)
    have "moves UNIV s t" using moves_trans [OF moves_mono [OF stop(1)] moves_mono [OF st(1)], of UNIV] by simp
    then have "moves UNIV s (bu_store b')" by (simp add: b')
    moreover have "in_phase b'" using st(2) stop(4) by (simp add: b' in_phase_def)
    ultimately show ?thesis using life [OF moves_life] by blast
  qed
qed

lemma build_phase:
  assumes "builder_inv b" and "in_phase b"
  shows "moves UNIV (bu_store b) (bu_store (snd (build V u b))) \<and> in_phase (snd (build V u b))"
proof (cases "build V u b")
  case (Pair e b')
  show ?thesis
  proof (cases e)
    case (Some x)
    then show ?thesis using build_unfold [of V u b] Pair assms(2) by auto
  next
    case None
    then obtain g s where b: "GenerationGet u (bu_store b) = Inr g" "g_EvalStatus g = ''evaluated''"
      "bu_GenerationUuid b = [] \<or> u = bu_GenerationUuid b"
      "GenerationBuildStart (bv_env V 6) u BuildReasonNeedBuild (bu_store b) = Inr s"
      "b' = b\<lparr>bu_store := open_log (bv_env V 7) ''build'' (g_Uuid g) s, bu_isBuilding := True,
         bu_buildator := Some (u, g_DrvPath g, None)\<rparr>"
      using build_unfold [of V u b] Pair by auto
    have "g_BuildStatus g \<noteq> ''built''"
      using None Pair b(1,2) by (auto simp: build_def split: if_splits)
    moreover have g: "generationGet u (st_Generations (bu_store b)) = Some g"
      using b(1) by (simp add: GenerationGet_def split: option.splits)
    then have "phases (bu_store b) u = Some (Settled (evaluation_of g) (g_BuildStatus g))"
      using b(2) by (simp add: phases_def phase_of_def)
    ultimately have m: "moves {u} (bu_store b) s" "phases s u = Some (Settled (evaluation_of g) ''building'')"
      using GenerationBuildStart_phase [OF b(4)] by blast+
    have "bu_evaluator b = None"
    proof (rule ccontr)
      assume "bu_evaluator b \<noteq> None"
      then obtain v source c where v: "bu_evaluator b = Some (v, source, c)" by auto
      then have "v = u" "evaluating u (bu_store b)" using assms(1) b(3) by (auto simp: builder_inv_def)
      with g b(2) show False by (auto simp: evaluating_def)
    qed
    moreover have "moves UNIV (bu_store b) s" using m(1) by (rule moves_mono) simp
    ultimately show ?thesis using Pair m(2) by (simp add: b(5) in_phase_def)
  qed
qed

lemma client_phase:
  assumes "builder_inv b" and "in_phase b"
  shows "builder_Suspend V b = (e, b') \<Longrightarrow> moves UNIV (bu_store b) (bu_store b') \<and> in_phase b'"
    and "builder_Resume V b = (e, b') \<Longrightarrow> moves UNIV (bu_store b) (bu_store b') \<and> in_phase b'"
    and "moves UNIV (bu_store b) (bu_store (SubmitBuild V u b)) \<and> in_phase (SubmitBuild V u b)"
proof -
  note s = stop_phase(2) [OF assms, of V]
  show "builder_Suspend V b = (e, b') \<Longrightarrow> moves UNIV (bu_store b) (bu_store b') \<and> in_phase b'"
    using s assms(2) by (auto simp: builder_Suspend_def split: if_splits intro: moves_mono)
  have "builder_inv (b\<lparr>bu_isSuspended := False\<rparr>)" using assms(1) by (auto simp: builder_inv_def split: option.splits)
  from build_phase [OF this, of V] assms(2)
  show "builder_Resume V b = (e, b') \<Longrightarrow> moves UNIV (bu_store b) (bu_store b') \<and> in_phase b'"
    by (auto simp: builder_Resume_def Let_def split: if_splits sum.splits)
  show "moves UNIV (bu_store b) (bu_store (SubmitBuild V u b)) \<and> in_phase (SubmitBuild V u b)"
    using build_phase [OF assms, of V u] assms(2) by (simp add: SubmitBuild_def)
qed

section \<open>The composed system\<close>

text \<open>What the manager, the deployer and the clients do besides: they change no generation.\<close>

lemma same_in_phase:
  assumes "in_phase b" and "bu_evaluator b' = bu_evaluator b" and "bu_buildator b' = bu_buildator b"
    and "st_Generations (bu_store b') = st_Generations (bu_store b)"
  shows "in_phase b'"
  using assms unfolding in_phase_def by (simp add: phases_def)

definition lives :: "manager \<Rightarrow> manager \<Rightarrow> bool" where
  "lives m m' \<longleftrightarrow> life_step (phases (mg_store m)) (phases (mg_store m')) \<and> in_phase (the_builder m')"

lemma lives_same:
  assumes "in_phase (the_builder m)" and "bu_evaluator (mg_builder m') = bu_evaluator (mg_builder m)"
    and "bu_buildator (mg_builder m') = bu_buildator (mg_builder m)"
    and "st_Generations (mg_store m') = st_Generations (mg_store m)"
  shows "lives m m'"
proof -
  have "moves UNIV (mg_store m) (mg_store m')" using phases_frame [OF assms(4)] by (auto simp: moves_def)
  moreover have "in_phase (the_builder m')"
    by (rule same_in_phase [OF assms(1)]) (simp_all add: assms the_builder_def)
  ultimately show ?thesis unfolding lives_def by (blast intro: moves_life)
qed

lemma lives_builder:
  "moves UNIV (mg_store m) (bu_store b) \<and> in_phase b \<Longrightarrow> lives m (with_builder b m)"
  unfolding lives_def by (auto intro: moves_life)

lemma lives_then_same:
  assumes "lives m m1" and "bu_evaluator (mg_builder m') = bu_evaluator (mg_builder m1)"
    and "bu_buildator (mg_builder m') = bu_buildator (mg_builder m1)"
    and "st_Generations (mg_store m') = st_Generations (mg_store m1)"
  shows "lives m m'"
proof -
  have "phases (mg_store m') = phases (mg_store m1)" using assms(4) by (rule phases_frame)
  moreover have "in_phase (the_builder m')"
    by (rule same_in_phase [of "the_builder m1"]) (use assms in \<open>simp_all add: lives_def the_builder_def\<close>)
  ultimately show ?thesis using assms(1) by (simp add: lives_def)
qed

lemma store_ops_generations:
  "st_Generations (dp_store (Suspend E r d)) = st_Generations (dp_store d)"
  "st_Generations (dp_store (Resume E d)) = st_Generations (dp_store d)"
  using Suspend_flags(2,4) by (auto simp: same_generations_def)

lemma suspend_resume_lives:
  assumes "manager_inv m" and "in_phase (the_builder m)"
  shows "lives m (snd (manager_Suspend V E m))" and "lives m (snd (manager_Resume V E m))"
proof -
  have b: "builder_inv (the_builder m)" using assms(1) by (simp add: manager_inv_def)
  obtain e b1 where s: "builder_Suspend V (the_builder m) = (e, b1)" by fastforce
  have l: "lives m (with_builder b1 m)"
    using client_phase(1) [OF b assms(2) s] by (intro lives_builder) simp
  show "lives m (snd (manager_Suspend V E m))"
  proof (cases "mg_isSuspended m \<or> e \<noteq> None")
    case True
    with l assms(2) show ?thesis by (auto simp: manager_Suspend_def s intro: lives_same)
  next
    case False
    show ?thesis
      by (rule lives_then_same [OF l])
        (use False in \<open>auto simp: manager_Suspend_def s Let_def store_ops_generations\<close>)
  qed
  obtain e' b2 where r: "builder_Resume V (the_builder m) = (e', b2)" by fastforce
  have l: "lives m (with_builder b2 m)"
    using client_phase(2) [OF b assms(2) r] by (intro lives_builder) simp
  show "lives m (snd (manager_Resume V E m))"
  proof (cases "\<not> mg_isSuspended m \<or> e' \<noteq> None")
    case True
    with l assms(2) show ?thesis by (auto simp: manager_Resume_def r intro: lives_same)
  next
    case False
    show ?thesis
      by (rule lives_then_same [OF l])
        (use False in \<open>auto simp: manager_Resume_def r Let_def store_ops_generations\<close>)
  qed
qed

lemma on_event_lives:
  assumes "manager_inv m" and "in_phase (the_builder m)" and "fresh_uuids E (st_persisted (mg_store m))"
  shows "lives m (on_event V E e m)"
proof -
  let ?b = "the_builder m"
  have eval: "lives m (with_builder (snd (Eval V g (?b\<lparr>bu_store := s\<rparr>))) m)"
    if n: "NewGeneration E (bu_hostname ?b) (bu_repositoryDir ?b) (bu_systemAttr ?b) rs (mg_store m) = (g, s)"
    for rs g s
    using Eval_phase [of ?b E _ _ _ rs g s V] assms n by (simp add: lives_def manager_inv_def)
  have stay: "lives m m" "lives m (m\<lparr>mg_pc := MPanicked\<rparr>)" by (rule lives_same [OF assms(2)]; simp)+
  show ?thesis
  proof (cases "ev_Type e")
    case None
    with stay show ?thesis by (simp add: on_event_def)
  next
    case (Some t)
    with stay eval show ?thesis
      by (cases t; simp add: on_event_def Let_def split: option.split prod.split) (metis snd_conv)
  qed
qed

lemma manager_act_lives: "manager_inv m \<Longrightarrow> in_phase (the_builder m) \<Longrightarrow> manager_act a m m' \<Longrightarrow> lives m m'"
proof (rotate_tac 2, induction rule: manager_act.induct)
  case (ma_event m e es E V)
  have inv: "manager_inv (m\<lparr>mg_brokerEvents := es\<rparr>)"
    using ma_event by (intro events_inv) (auto simp: manager_inv_def)
  have "lives (m\<lparr>mg_brokerEvents := es\<rparr>) (on_event V E e (m\<lparr>mg_brokerEvents := es\<rparr>))"
    using ma_event by (intro on_event_lives [OF inv]) simp_all
  then show ?case by (simp add: lives_def)
next
  case (ma_build_confirmed m u c V)
  have b: "builder_inv (the_builder m)" using ma_build_confirmed by (simp add: manager_inv_def)
  have "moves UNIV (mg_store m) (bu_store (SubmitBuild V u (the_builder m))) \<and>
      in_phase (SubmitBuild V u (the_builder m))"
    using client_phase(3) [OF b] ma_build_confirmed by simp
  then show ?case by (auto simp: lives_def on_build_confirmed_def intro: moves_life)
next
  case (ma_eval_finish V m b)
  then have "builder_inv (the_builder m)" by (simp add: manager_inv_def)
  with ma_eval_finish show ?case using eval_finish_phase [of "the_builder m" V b]
    by (intro lives_builder) (auto intro: moves_mono)
next
  case (ma_build_finish V m b)
  then have "builder_inv (the_builder m)" by (simp add: manager_inv_def)
  with ma_build_finish show ?case using build_finish_phase [of "the_builder m" V b]
    by (intro lives_builder) (auto intro: moves_mono)
next
  case (ma_deployer W m d)
  have "st_Generations (dp_store d) = st_Generations (mg_store m)"
    using runner_step_generations [OF ma_deployer(1)] by (simp add: same_generations_def)
  with ma_deployer show ?case by (intro lives_same) simp_all
next
  case (ma_done m dpl d N E)
  then have "dp_store d = mg_store m" by (auto simp: receive_done_def split: list.splits)
  with ma_done show ?case by (intro lives_same) (simp_all add: on_deployment_done_def Let_def)
qed (auto intro: suspend_resume_lives lives_same lives_builder
    simp: on_evaluation_done_def on_build_done_def on_deploy_confirmed_def DeploymentLatestSubmit_def Submit_def
    split: sum.split option.split)

lemma manager_init_phase: "manager_init m \<Longrightarrow> in_phase (the_builder m)"
  by (auto simp: manager_init_def manager_New_def builder_New_def the_builder_def in_phase_def)

text \<open>The composed system is a refinement of the abstract one: its abstraction is the phases of its store.\<close>

interpretation life_cycle: simulation manager_init manager_step
  "\<lambda>m. manager_inv m \<and> in_phase (the_builder m)" "\<lambda>m. phases (mg_store m)" "\<lambda>_. True" life_step
proof unfold_locales
  show "manager_init m \<Longrightarrow> manager_inv m \<and> in_phase (the_builder m)" for m
    by (blast intro: manager_init_inv manager_init_phase)
  show step: "manager_inv m \<and> in_phase (the_builder m) \<Longrightarrow> manager_step m m' \<Longrightarrow>
      manager_inv m' \<and> in_phase (the_builder m')" for m m'
    using manager_step_inv manager_act_lives unfolding manager_step_def lives_def by blast
  show "manager_inv m \<and> in_phase (the_builder m) \<Longrightarrow> manager_step m m' \<Longrightarrow>
      phases (mg_store m') = phases (mg_store m) \<or> life_step (phases (mg_store m)) (phases (mg_store m'))" for m m'
    using manager_act_lives unfolding manager_step_def lives_def by blast
qed simp

section \<open>Properties\<close>

text \<open>The steps after which the generation \<open>u\<close> is still in the store.\<close>

definition keeping :: "uuid \<Rightarrow> manager \<Rightarrow> manager \<Rightarrow> bool" where
  "keeping u m m' \<longleftrightarrow> manager_step m m' \<and> (\<exists>g. GenerationGet u (mg_store m') = Inr g)"

lemma phases_GenerationGet: "phases s u = Some p \<longleftrightarrow> (\<exists>g. GenerationGet u s = Inr g \<and> p = phase_of g)"
  by (auto simp: phases_def GenerationGet_def split: option.splits)

lemma keeping_along:
  assumes "(keeping u)\<^sup>*\<^sup>* m m'" and "reachable manager_init manager_step m"
    and "phases (mg_store m) u = Some p"
  shows "reachable manager_init manager_step m' \<and> (\<exists>q. phases (mg_store m') u = Some q \<and> along p q)"
  using assms(1)
proof (induction rule: rtranclp_induct)
  case base
  with assms(2,3) show ?case by blast
next
  case (step m1 m2)
  from step.IH obtain q1 where q1: "phases (mg_store m1) u = Some q1" "along p q1"
    and r: "reachable manager_init manager_step m1" by blast
  from step.hyps(2) obtain q2 where q2: "phases (mg_store m2) u = Some q2" and s: "manager_step m1 m2"
    unfolding keeping_def phases_GenerationGet by blast
  from s r have "phases (mg_store m2) = phases (mg_store m1) \<or>
      life_step (phases (mg_store m1)) (phases (mg_store m2))"
    by (intro life_cycle.sim_step life_cycle.reachable_inv)
  then have "along q1 q2" using q1(1) q2 unfolding life_step_def by (force simp del: rtranclp.rtrancl_refl)
  with q1(2) have "along p q2" by (rule rtranclp_trans)
  with q2 reachable_step [OF r s] show ?case by blast
qed


lemma example_running_reachable: "reachable manager_init manager_step example_running"
proof -
  let ?e = "mk_event (Event_Fetched True True (Some example_status)) 7"
  have ev: "mg_brokerEvents example_manager = []" "mg_pc example_manager = Selecting"
    by (simp_all add: example_manager_def manager_New_def)
  have init: "reachable manager_init manager_step example_manager"
    by (rule reachable_init) (rule example_manager_init)
  have "manager_step example_manager (example_manager\<lparr>mg_brokerEvents := [?e]\<rparr>)"
    using manager_act_step [OF ma_broker [of example_manager ?e]] by (simp add: ev)
  with init have "reachable manager_init manager_step (example_manager\<lparr>mg_brokerEvents := [?e]\<rparr>)"
    by (rule reachable_step)
  moreover have "manager_step (example_manager\<lparr>mg_brokerEvents := [?e]\<rparr>)
      (on_event example_benv (example_env 0 1) ?e (example_manager\<lparr>mg_brokerEvents := [?e]\<rparr>\<lparr>mg_brokerEvents := []\<rparr>))"
  proof (rule manager_act_step [OF ma_event])
    show "fresh_uuids (example_env 0 1) (st_persisted (mg_store (example_manager\<lparr>mg_brokerEvents := [?e]\<rparr>)))"
      by (rule example_env_fresh) (simp add: example_manager_def manager_New_def store_simps)
  qed (simp_all add: ev)
  moreover have "example_manager\<lparr>mg_brokerEvents := [?e]\<rparr>\<lparr>mg_brokerEvents := []\<rparr> = example_manager"
    by (simp add: example_manager_def manager_New_def)
  ultimately show ?thesis unfolding example_running_def by (metis reachable_step)
qed


end
