(* ===== verification/Metrics_Correct.thy ===== *)
theory Metrics_Correct
  imports Manager_Correct Metrics
begin

text \<open>
  What the metrics say. Every value the endpoint exports is a function of the history of the events,
  stated without the loop of \<open>Subscribe\<close>; and the gauges of the suspension and of the reboot follow the
  state of the manager when every event it publishes is received.
\<close>

section \<open>The exported values as functions of the history\<close>

text \<open>The value of the last event that has one.\<close>

definition latest :: "(Event \<Rightarrow> 'v option) \<Rightarrow> Event list \<Rightarrow> 'v option" where
  "latest f es = (let vs = List.map_filter f es in if vs = [] then None else Some (last vs))"

lemma latest_Nil [simp]: "latest f [] = None"
  by (simp add: latest_def List.map_filter_def)

lemma latest_snoc [simp]: "latest f (es @ [e]) = (case f e of None \<Rightarrow> latest f es | Some v \<Rightarrow> Some v)"
  by (auto simp: latest_def List.map_filter_def Let_def split: option.split)

definition suspension_in :: "Event \<Rightarrow> bool option" where
  "suspension_in e = (case ev_Type e of Some Event_Suspend \<Rightarrow> Some True | Some Event_Resume \<Rightarrow> Some False | _ \<Rightarrow> None)"

definition eval_failed_in :: "Event \<Rightarrow> bool option" where
  "eval_failed_in e = (case ev_Type e of Some (Event_EvalFinished g) \<Rightarrow> Some (g_EvalStatus g = ''failed'') | _ \<Rightarrow> None)"

definition build_failed_in :: "Event \<Rightarrow> bool option" where
  "build_failed_in e = (case ev_Type e of Some (Event_BuildFinished g) \<Rightarrow> Some (g_BuildStatus g = ''failed'') | _ \<Rightarrow> None)"

definition deployment_in :: "Event \<Rightarrow> Deployment option" where
  "deployment_in e = (case ev_Type e of Some (Event_DeploymentFinished d) \<Rightarrow> Some d | _ \<Rightarrow> None)"

definition remotes_in :: "Event \<Rightarrow> Remote list option" where
  "remotes_in e = (case ev_Type e of
     Some (Event_Fetched _ _ status) \<Rightarrow> Some (case status of None \<Rightarrow> [] | Some rs \<Rightarrow> rs_Remotes rs) | _ \<Rightarrow> None)"

definition reboot_in :: "Event \<Rightarrow> bool" where
  "reboot_in e = (case ev_Type e of Some (Event_RebootRequired _) \<Rightarrow> True | _ \<Rightarrow> False)"

lemmas event_views = suspension_in_def eval_failed_in_def build_failed_in_def deployment_in_def remotes_in_def reboot_in_def

text \<open>How many remotes of this name were fetched with this outcome.\<close>

definition outcome :: "Remote \<Rightarrow> string" where
  "outcome r = (if GetValue (rm_Fetched r) then ''succeeded'' else ''failed'')"

definition fetches :: "string \<Rightarrow> string \<Rightarrow> Event list \<Rightarrow> nat" where
  "fetches name status es =
     length (filter (\<lambda>r. rm_Name r = name \<and> outcome r = status) (concat (List.map_filter remotes_in es)))"

definition flag :: "bool option \<Rightarrow> int" where
  "flag b = (if b = Some True then 1 else 0)"

definition observe :: "Event list \<Rightarrow> Prometheus \<Rightarrow> Prometheus" where
  "observe es p = fold metrics_event es p"

lemma observe_simps [simp]: "observe [] p = p" "observe (es @ [e]) p = metrics_event e (observe es p)"
  by (simp_all add: observe_def)

lemma fetches_simps: "fetches n st [] = 0"
  "fetches n st (es @ [e]) = fetches n st es +
     (case remotes_in e of None \<Rightarrow> 0 | Some rs \<Rightarrow> length (filter (\<lambda>r. rm_Name r = n \<and> outcome r = st) rs))"
  by (auto simp: fetches_def List.map_filter_def split: option.split)

subsection \<open>One turn of the loop\<close>

lemma update_remote_frames [simp]:
  "pm_isSuspended (update_remote r p) = pm_isSuspended p" "pm_needToReboot (update_remote r p) = pm_needToReboot p"
  "pm_lastEvalFailed (update_remote r p) = pm_lastEvalFailed p" "pm_lastBuildFailed (update_remote r p) = pm_lastBuildFailed p"
  "pm_lastDeploymentFailed (update_remote r p) = pm_lastDeploymentFailed p"
  "pm_deploymentInfo (update_remote r p) = pm_deploymentInfo p" "pm_buildInfo (update_remote r p) = pm_buildInfo p"
  by (simp_all add: update_remote_def IncFetchCounter_def Let_def)

lemma fold_remotes_frames [simp]:
  "pm_isSuspended (fold update_remote rs p) = pm_isSuspended p"
  "pm_needToReboot (fold update_remote rs p) = pm_needToReboot p"
  "pm_lastEvalFailed (fold update_remote rs p) = pm_lastEvalFailed p"
  "pm_lastBuildFailed (fold update_remote rs p) = pm_lastBuildFailed p"
  "pm_lastDeploymentFailed (fold update_remote rs p) = pm_lastDeploymentFailed p"
  "pm_deploymentInfo (fold update_remote rs p) = pm_deploymentInfo p"
  "pm_buildInfo (fold update_remote rs p) = pm_buildInfo p"
  by (induction rs arbitrary: p) simp_all

text \<open>A label combination the counter has not seen is absent and counts as 0.\<close>

definition counted :: "labels \<Rightarrow> Prometheus \<Rightarrow> int" where
  "counted ls p = (case pm_fetchCounter p ls of None \<Rightarrow> 0 | Some n \<Rightarrow> n)"

lemma counted_update: "counted [n, st] (update_remote r p) =
    counted [n, st] p + (if rm_Name r = n \<and> outcome r = st then 1 else 0)"
  by (auto simp: update_remote_def IncFetchCounter_def Let_def counted_def outcome_def split: option.split)

lemma counted_fold: "counted [n, st] (fold update_remote rs p) =
    counted [n, st] p + int (length (filter (\<lambda>r. rm_Name r = n \<and> outcome r = st) rs))"
  by (induction rs arbitrary: p) (simp_all add: counted_update)

lemma gauge_fold: "pm_lastFetchFailed (fold update_remote rs p) =
    pm_lastFetchFailed p ++ map_of (rev (map (\<lambda>r. ([rm_Name r], boolToFloat64 (\<not> GetValue (rm_Fetched r)))) rs))"
  by (induction rs arbitrary: p) (simp_all add: update_remote_gauge)

lemma event_counted: "counted [n, st] (metrics_event e p) = counted [n, st] p +
    (case remotes_in e of None \<Rightarrow> 0 | Some rs \<Rightarrow> int (length (filter (\<lambda>r. rm_Name r = n \<and> outcome r = st) rs)))"
  by (auto simp: metrics_event_def remotes_in_def updateFetched_def counted_fold SetDeploymentInfo_def
      split: option.split event_type.split) (simp_all add: counted_def)

lemma event_gauges:
  "pm_isSuspended (metrics_event e p) = (case suspension_in e of None \<Rightarrow> pm_isSuspended p | Some b \<Rightarrow> boolToFloat64 b)"
  "pm_needToReboot (metrics_event e p) = (if reboot_in e then 1 else pm_needToReboot p)"
  "pm_lastEvalFailed (metrics_event e p) = (case eval_failed_in e of None \<Rightarrow> pm_lastEvalFailed p | Some b \<Rightarrow> boolToFloat64 b)"
  "pm_lastBuildFailed (metrics_event e p) = (case build_failed_in e of None \<Rightarrow> pm_lastBuildFailed p | Some b \<Rightarrow> boolToFloat64 b)"
  "pm_lastDeploymentFailed (metrics_event e p) =
     (case deployment_in e of None \<Rightarrow> pm_lastDeploymentFailed p | Some d \<Rightarrow> boolToFloat64 (d_Status d = ''failed''))"
  "pm_deploymentInfo (metrics_event e p) =
     (case deployment_in e of None \<Rightarrow> pm_deploymentInfo p | Some d \<Rightarrow> [[metrics_commit d, d_Status d] \<mapsto> 1])"
  "pm_lastFetchFailed (metrics_event e p) = (case remotes_in e of None \<Rightarrow> pm_lastFetchFailed p
     | Some rs \<Rightarrow> map_of (rev (map (\<lambda>r. ([rm_Name r], boolToFloat64 (\<not> GetValue (rm_Fetched r)))) rs)))"
  "pm_buildInfo (metrics_event e p) = pm_buildInfo p"
  by (auto simp: metrics_event_def event_views updateFetched_def SetDeploymentInfo_def gauge_fold boolToFloat64_def
      split: option.split event_type.split)


text \<open>The gauge of the reboot is never reset, although the manager decides anew after every deployment.\<close>

lemma reboot_gauge_stays: "pm_needToReboot p = 1 \<Longrightarrow> pm_needToReboot (observe es p) = 1"
  by (induction es rule: rev_induct) (simp_all add: event_gauges)

section \<open>The gauges follow the manager\<close>

text \<open>The events that concern these gauges; most operations of the store publish none.\<close>

definition control :: "store \<Rightarrow> Event list" where
  "control s = filter (\<lambda>e. suspension_in e \<noteq> None \<or> reboot_in e) (st_events s)"

lemma control_publish: "control (publish ev now s) =
    control s @ (if suspension_in (mk_event ev now) \<noteq> None \<or> reboot_in (mk_event ev now) then [mk_event ev now] else [])"
  by (simp add: control_def publish_def)

lemma control_frames [simp]:
  "control (Commit E s) = control s" "control (upd_generations f s) = control s"
  "control (generationsGC s) = control s" "control (link_gcroot E path s) = control s"
  "control (s\<lparr>st_persisted := ps\<rparr>) = control s" "control (set_ended now d s) = control s"
  "control (DeployerUpdate E ds s) = control s"
  "control (updateDataDeployments E ub us bp sp new s) = control s"
  by (auto simp: control_def Commit_def upd_generations_def generationsGC_def link_gcroot_def Let_def set_ended_def
      DeployerUpdate_def updateDataDeployments_def split: option.split)

lemma control_lasts [simp]:
  "control (s\<lparr>st_lastEvalStarted := x\<rparr>) = control s" "control (s\<lparr>st_lastEvalFinished := x\<rparr>) = control s"
  "control (s\<lparr>st_lastBuildStarted := x\<rparr>) = control s" "control (s\<lparr>st_lastBuildFinished := x\<rparr>) = control s"
  by (simp_all add: control_def)

lemma control_silent [simp]:
  "control (publish (Event_EvalStarted g) now s) = control s" "control (publish (Event_EvalFinished g) now s) = control s"
  "control (publish (Event_BuildStarted g) now s) = control s" "control (publish (Event_BuildFinished g) now s) = control s"
  "control (publish (Event_DeploymentStarted d) now s) = control s"
  "control (publish (Event_DeploymentFinished d) now s) = control s"
  "control (publish (Event_Log obj u l) now s) = control s" "control (open_log E obj u s) = control s"
  by (simp_all add: control_publish open_log_def suspension_in_def reboot_in_def mk_event_def)

lemma generation_control:
  "GenerationEvalStarted E u s = Inr s' \<Longrightarrow> control s' = control s"
  "GenerationBuildStart E u r s = Inr s' \<Longrightarrow> control s' = control s"
  "GenerationEvalFinished E u d p mid e s = Inr s' \<Longrightarrow> control s' = control s"
  "GenerationBuildFinished E u err s = Inr s' \<Longrightarrow> control s' = control s"
  by (auto simp: GenerationEvalStarted_def GenerationBuildStart_def GenerationEvalFinished_def
      GenerationBuildFinished_def change_generation_def split: option.splits)

lemma logged_control [simp]:
  "control (logged s (GenerationEvalFinished E u d p mid e s)) = control s"
  "control (logged s (GenerationBuildStart E u r s)) = control s"
  "control (logged s (GenerationBuildFinished E u err s)) = control s"
  by (auto simp: logged_def split: sum.split dest: generation_control)

lemma builder_control:
  "eval_finish V b = Some b' \<Longrightarrow> control (bu_store b') = control (bu_store b)"
  "build_finish V b = Some b' \<Longrightarrow> control (bu_store b') = control (bu_store b)"
  by (auto simp: eval_finish_def build_finish_def Let_def split: option.splits prod.splits if_splits)

lemma stop_control [simp]:
  "control (bu_store (stopEval V b)) = control (bu_store b)" "control (bu_store (stopBuild V b)) = control (bu_store b)"
  "control (bu_store (Stop V b)) = control (bu_store b)"
proof -
  show e: "control (bu_store (stopEval V b)) = control (bu_store b)" for b
    by (auto simp: stopEval_def split: option.split dest: builder_control)
  show c: "control (bu_store (stopBuild V b)) = control (bu_store b)" for b
    by (auto simp: stopBuild_def split: option.split dest: builder_control)
  show "control (bu_store (Stop V b)) = control (bu_store b)" by (simp add: Stop_def e c)
qed

lemma Eval_control: "control (bu_store (snd (Eval V g b))) = control (bu_store b)"
  by (auto simp: Eval_def Let_def split: sum.split dest: generation_control)

lemma build_control: "control (bu_store (snd (build V u b))) = control (bu_store b)"
  using build_unfold [of V u b] by (auto dest: generation_control)

lemma requests_control:
  "builder_Suspend V b = (e, b') \<Longrightarrow> control (bu_store b') = control (bu_store b)"
  "builder_Resume V b = (e, b') \<Longrightarrow> control (bu_store b') = control (bu_store b)"
  "control (bu_store (SubmitBuild V u b)) = control (bu_store b)"
  using build_control by (auto simp: builder_Suspend_def builder_Resume_def SubmitBuild_def Let_def
      split: if_splits sum.splits)

lemma deployer_control [simp]:
  "control (dp_store (Suspend E r d)) = control (dp_store d)" "control (dp_store (Resume E d)) = control (dp_store d)"
  by (simp_all add: Suspend_def Resume_def)

lemma deployment_control:
  "NewDeployment E g op r bp sp s = (dpl, s') \<Longrightarrow> control s' = control s"
  "DeploymentStarted E u bp sp s = Inr (dpl, s') \<Longrightarrow> control s' = control s"
  "DeploymentFinished E u err rst prof bp sp s = Inr (dpl, s') \<Longrightarrow> control s' = control s"
  by (auto simp: NewDeployment_def DeploymentStarted_def DeploymentFinished_def change_deployment_def Let_def
      split: option.splits)

lemma runner_control:
  assumes "runner_step V d = Some d'"
  shows "control (dp_store d') = control (dp_store d)"
proof (cases "dp_pc d")
  case (Create g op)
  with assms show ?thesis
    by (cases g) (auto simp: runner_step.simps Let_def dest: deployment_control split: prod.splits)
next
  case (Start g dpl b c)
  with assms show ?thesis by (auto simp: runner_step.simps Let_def dest: deployment_control split: sum.splits)
next
  case (Finish g dpl b c r)
  with assms show ?thesis
    by (cases r) (auto simp: runner_step.simps Let_def dest!: deployment_control split: sum.splits)
qed (use assms in \<open>auto simp: runner_step.simps Let_def split: list.splits if_splits prod.splits option.splits\<close>)

text \<open>The other events leave both gauges alone.\<close>

lemma observe_control:
  "pm_isSuspended (observe (st_events s) p) = pm_isSuspended (observe (control s) p)"
  "pm_needToReboot (observe (st_events s) p) = pm_needToReboot (observe (control s) p)"
proof -
  have "pm_isSuspended (observe es p) = pm_isSuspended (observe (filter (\<lambda>e. suspension_in e \<noteq> None \<or> reboot_in e) es) p) \<and>
      pm_needToReboot (observe es p) = pm_needToReboot (observe (filter (\<lambda>e. suspension_in e \<noteq> None \<or> reboot_in e) es) p)" for es
    by (induction es rule: rev_induct) (auto simp: event_gauges)
  then show "pm_isSuspended (observe (st_events s) p) = pm_isSuspended (observe (control s) p)"
    "pm_needToReboot (observe (st_events s) p) = pm_needToReboot (observe (control s) p)"
    unfolding control_def by blast+
qed

text \<open>\<open>r\<close>: a reboot was needed before the first event.\<close>

definition gauges_ok :: "Prometheus \<Rightarrow> bool \<Rightarrow> manager \<Rightarrow> bool" where
  "gauges_ok p r m \<longleftrightarrow>
     pm_isSuspended (observe (control (mg_store m)) p) = boolToFloat64 (mg_isSuspended m) \<and>
     (mg_needToReboot m \<longrightarrow> r \<or> pm_needToReboot (observe (control (mg_store m)) p) = 1)"

lemma reboot_frames [simp]:
  "mg_needToReboot (with_builder b m) = mg_needToReboot m" "mg_needToReboot (with_deployer d m) = mg_needToReboot m"
  by (simp_all add: with_builder_def with_deployer_def)

lemma gauges_frames [simp]:
  "gauges_ok p r (m\<lparr>mg_pc := pc\<rparr>) = gauges_ok p r m" "gauges_ok p r (m\<lparr>mg_brokerEvents := es\<rparr>) = gauges_ok p r m"
  "gauges_ok p r (m\<lparr>mg_BuildConfirmer := c\<rparr>) = gauges_ok p r m" "gauges_ok p r (m\<lparr>mg_DeployConfirmer := c\<rparr>) = gauges_ok p r m"
  "gauges_ok p r (m\<lparr>mg_builder := b\<rparr>) = gauges_ok p r m"
  by (simp_all add: gauges_ok_def)

lemma gauges_with:
  "control (bu_store b) = control (mg_store m) \<Longrightarrow> gauges_ok p r (with_builder b m) = gauges_ok p r m"
  "control (dp_store d) = control (mg_store m) \<Longrightarrow> gauges_ok p r (with_deployer d m) = gauges_ok p r m"
  by (simp_all add: gauges_ok_def)

lemma suspend_gauges:
  assumes "gauges_ok p r m"
  shows "gauges_ok p r (snd (manager_Suspend V E m))" and "gauges_ok p r (snd (manager_Resume V E m))"
  using assms by (auto simp: manager_Suspend_def manager_Resume_def gauges_ok_def Let_def control_publish
      event_gauges event_views mk_event_def dest: requests_control(1,2) split: prod.split option.split)

lemma on_event_gauges:
  assumes "gauges_ok p r m"
  shows "gauges_ok p r (on_event V E e m)"
proof -
  let ?b = "the_builder m"
  have eval: "gauges_ok p r (with_builder b' m)"
    if n: "NewGeneration E (bu_hostname ?b) (bu_repositoryDir ?b) (bu_systemAttr ?b) rs (mg_store m) = (g, s)"
      and e: "Eval V g (?b\<lparr>bu_store := s\<rparr>) = (err, b')"
    for rs g s err b'
  proof -
    have "control s = control (mg_store m)" using n by (auto simp: NewGeneration_def Let_def)
    then have "control (bu_store b') = control (mg_store m)"
      using Eval_control [of V g "?b\<lparr>bu_store := s\<rparr>"] e by simp
    with assms show ?thesis by (simp add: gauges_with)
  qed
  show ?thesis
  proof (cases "ev_Type e")
    case (Some t)
    then show ?thesis
      by (cases t; simp add: on_event_def Let_def assms split: option.split prod.split) (blast intro: eval)
  qed (simp add: on_event_def assms)
qed

lemma done_gauges: "gauges_ok p r m \<Longrightarrow> gauges_ok p r (on_deployment_done N E dpl m)"
  by (auto simp: gauges_ok_def on_deployment_done_def Let_def control_publish event_gauges event_views mk_event_def)

lemma manager_step_gauges: "gauges_ok p r m \<Longrightarrow> manager_step m m' \<Longrightarrow> gauges_ok p r m'"
  unfolding manager_step_def
proof (elim exE)
  fix a
  assume "manager_act a m m'" and "gauges_ok p r m"
  then show "gauges_ok p r m'"
  proof (induction rule: manager_act.induct)
    case (ma_event m e es E V)
    then show ?case by (intro on_event_gauges) simp
  next
    case (ma_eval_finish V m b)
    then show ?case using builder_control(1) [of V "the_builder m" b] by (simp add: gauges_with)
  next
    case (ma_build_finish V m b)
    then show ?case using builder_control(2) [of V "the_builder m" b] by (simp add: gauges_with)
  next
    case (ma_deployer W m d)
    then show ?case using runner_control [of W "the_deployer m" d] by (simp add: gauges_with)
  next
    case (ma_done m dpl d N E)
    then have "dp_store d = mg_store m" by (auto simp: receive_done_def split: list.splits)
    with ma_done show ?case by (intro done_gauges) (simp add: gauges_with)
  qed (auto simp: suspend_gauges gauges_with requests_control on_evaluation_done_def on_build_done_def
      on_build_confirmed_def on_deploy_confirmed_def DeploymentLatestSubmit_def Submit_def split: sum.split option.split)
qed

interpretation gauges: invariant_of "gauges_ok p r" manager_step "gauges_ok p r" for p r
  by unfold_locales (auto intro: manager_step_gauges)

end
