(* ===== verification/Service.thy ===== *)
theory Service
  imports Agent Server Metrics_Correct
begin

text \<open>
  The running agent as its clients see it: the requests of the state, which the loop of \<open>manager.Run\<close>
  answers over two unbuffered channels, the HTTP endpoint (\<open>internal/http/http.go\<close>), and the end of the run
  command, which starts the endpoint and the server and connects the metrics to the broker.
\<close>

section \<open>Requests of the state\<close>

text \<open>
  A call of \<open>GetState\<close> sends a request and receives the result. The loop reads the eight parts of
  the state one after the other, while the rest of the agent goes on, and then sends the result to whoever
  waits. The status of a confirmer is asked from its loop, so this read blocks while the confirmer waits
  for the manager to take a confirmed generation (\<open>None\<close>). With each call the specification keeps the states of the manager since the call; the code does not have them.
\<close>

datatype caller = Calling | Waiting | Answered pbState

datatype run_loop = RunSelect | RunReading nat pbState

record service =
  sv_manager :: manager
  sv_loop :: run_loop
  sv_callers :: "(caller \<times> manager set) list"

definition empty_state :: pbState where
  "empty_state = \<lparr>sm_NeedToReboot = None, sm_IsSuspended = None, sm_Builder = None, sm_Deployer = None, sm_Fetcher = None,
     sm_Store = None, sm_BuildConfirmer = None, sm_DeployConfirmer = None\<rparr>"

text \<open>The reads of \<open>toState\<close>, in the order of the code.\<close>

definition state_reads :: "(manager \<Rightarrow> pbState \<Rightarrow> pbState) list" where
  "state_reads =
     [\<lambda>m st. st\<lparr>sm_NeedToReboot := Some (mg_needToReboot m)\<rparr>, \<lambda>m st. st\<lparr>sm_IsSuspended := Some (mg_isSuspended m)\<rparr>,
      \<lambda>m st. st\<lparr>sm_Builder := Some (builder_State (the_builder m))\<rparr>,
      \<lambda>m st. st\<lparr>sm_Deployer := Some (deployer_State (the_deployer m))\<rparr>,
      \<lambda>m st. st\<lparr>sm_Fetcher := Some (mg_fetcher m)\<rparr>, \<lambda>m st. st\<lparr>sm_Store := Some (st_persisted (mg_store m))\<rparr>,
      \<lambda>m st. st\<lparr>sm_BuildConfirmer := Some (confirmer_status (mg_BuildConfirmer m))\<rparr>,
      \<lambda>m st. st\<lparr>sm_DeployConfirmer := Some (confirmer_status (mg_DeployConfirmer m))\<rparr>]"

lemma state_reads_toState: "fold (\<lambda>f. f m) state_reads st = toState m"
  by (simp add: state_reads_def toState_def)

text \<open>The call of \<open>GetState\<close>: the send of the request, possible when the loop selects, and the receive of the result.\<close>

definition request_state :: "nat \<Rightarrow> service \<Rightarrow> service option" where
  "request_state i s =
     (if i < length (sv_callers s) \<and> fst (sv_callers s ! i) = Calling \<and> sv_loop s = RunSelect
      then Some (s\<lparr>sv_loop := RunReading 0 empty_state,
                   sv_callers := (sv_callers s)[i := (Waiting, snd (sv_callers s ! i))]\<rparr>)
      else None)"

definition receive_state :: "nat \<Rightarrow> service \<Rightarrow> service option" where
  "receive_state i s =
     (case sv_loop s of
        RunReading k st \<Rightarrow>
          if k = length state_reads \<and> i < length (sv_callers s) \<and> fst (sv_callers s ! i) = Waiting
          then Some (s\<lparr>sv_loop := RunSelect, sv_callers := (sv_callers s)[i := (Answered st, snd (sv_callers s ! i))]\<rparr>)
          else None
      | RunSelect \<Rightarrow> None)"

definition manager_moves :: "manager \<Rightarrow> service \<Rightarrow> service" where
  "manager_moves m s = s\<lparr>sv_manager := m, sv_callers := map (\<lambda>(c, ms). (c, insert m ms)) (sv_callers s)\<rparr>"

text \<open>One read of the loop; the confirmers go through a turn of their loop.\<close>

definition after_read :: "nat \<Rightarrow> manager \<Rightarrow> manager option" where
  "after_read k m =
     (if k = 6 then map_option (\<lambda>c. m\<lparr>mg_BuildConfirmer := c\<rparr>) (confirmer_select 0 StatusReq (mg_BuildConfirmer m))
      else if k = 7 then map_option (\<lambda>c. m\<lparr>mg_DeployConfirmer := c\<rparr>) (confirmer_select 0 StatusReq (mg_DeployConfirmer m))
      else Some m)"

definition read_state :: "service \<Rightarrow> service option" where
  "read_state s =
     (case sv_loop s of
        RunReading k st \<Rightarrow>
          if k < length state_reads
          then map_option (\<lambda>m. manager_moves m (s\<lparr>sv_loop := RunReading (Suc k) ((state_reads ! k) (sv_manager s) st)\<rparr>))
                 (after_read k (sv_manager s))
          else None
      | RunSelect \<Rightarrow> None)"

text \<open>
  The end of a deployment is also handled by the loop and so not while it answers; the relation allows that
  too.
\<close>

inductive service_step :: "service \<Rightarrow> service \<Rightarrow> bool" where
  ss_call: "service_step s (s\<lparr>sv_callers := sv_callers s @ [(Calling, {sv_manager s})]\<rparr>)"
| ss_request: "request_state i s = Some s' \<Longrightarrow> service_step s s'"
| ss_read: "read_state s = Some s' \<Longrightarrow> service_step s s'"
| ss_receive: "receive_state i s = Some s' \<Longrightarrow> service_step s s'"
| ss_manager: "manager_step (sv_manager s) m \<Longrightarrow> service_step s (manager_moves m s)"

definition service_init :: "service \<Rightarrow> bool" where
  "service_init s \<longleftrightarrow> manager_init (sv_manager s) \<and> sv_loop s = RunSelect \<and> sv_callers s = []"

subsection \<open>Invariant\<close>

text \<open>The first \<open>k\<close> parts are parts of states in \<open>ms\<close>.\<close>

definition parts_from :: "nat \<Rightarrow> manager set \<Rightarrow> pbState \<Rightarrow> bool" where
  "parts_from k ms st \<longleftrightarrow> (\<exists>f. (\<forall>i<k. f i \<in> ms) \<and> st = fold (\<lambda>i. (state_reads ! i) (f i)) [0..<k] empty_state)"

lemma parts_from_mono: "parts_from k ms st \<Longrightarrow> ms \<subseteq> ms' \<Longrightarrow> parts_from k ms' st"
  unfolding parts_from_def by blast

lemma parts_from_0: "parts_from 0 ms empty_state"
  by (simp add: parts_from_def)

lemma parts_from_Suc:
  assumes "parts_from k ms st" and "m \<in> ms"
  shows "parts_from (Suc k) ms ((state_reads ! k) m st)"
proof -
  obtain f where f: "\<forall>i<k. f i \<in> ms" "st = fold (\<lambda>i. (state_reads ! i) (f i)) [0..<k] empty_state"
    using assms(1) by (auto simp: parts_from_def)
  have "fold (\<lambda>i. (state_reads ! i) ((f(k := m)) i)) [0..<k] empty_state = st"
    unfolding f(2) by (rule fold_cong) auto
  then show ?thesis using f(1) assms(2) unfolding parts_from_def by (intro exI [of _ "f(k := m)"]) simp
qed

text \<open>At most one call waits for a result, and exactly then the loop works on one.\<close>

definition only_waiting :: "nat \<Rightarrow> service \<Rightarrow> bool" where
  "only_waiting i s \<longleftrightarrow> i < length (sv_callers s) \<and>
     (\<forall>j<length (sv_callers s). fst (sv_callers s ! j) = Waiting \<longleftrightarrow> j = i)"

definition caller_ok :: "manager \<Rightarrow> caller \<times> manager set \<Rightarrow> bool" where
  "caller_ok m c \<longleftrightarrow> m \<in> snd c \<and> (\<forall>m\<in>snd c. manager_inv m) \<and>
     (\<forall>st. fst c = Answered st \<longrightarrow> parts_from (length state_reads) (snd c) st)"

definition service_inv :: "service \<Rightarrow> bool" where
  "service_inv s \<longleftrightarrow> manager_inv (sv_manager s) \<and>
     (\<forall>c \<in> set (sv_callers s). caller_ok (sv_manager s) c) \<and>
     (case sv_loop s of
        RunSelect \<Rightarrow> \<forall>c \<in> set (sv_callers s). fst c \<noteq> Waiting
      | RunReading k st \<Rightarrow> k \<le> length state_reads \<and>
          (\<exists>i. only_waiting i s \<and> parts_from k (snd (sv_callers s ! i)) st))"

lemma service_invD:
  assumes "service_inv s" and "i < length (sv_callers s)"
  shows "caller_ok (sv_manager s) (sv_callers s ! i)"
    and "sv_loop s = RunSelect \<Longrightarrow> fst (sv_callers s ! i) \<noteq> Waiting"
  using assms nth_mem [OF assms(2)] by (auto simp: service_inv_def)

lemma update_callers_ok:
  assumes "service_inv s" and "caller_ok (sv_manager s) c"
  shows "\<forall>c' \<in> set ((sv_callers s)[i := c]). caller_ok (sv_manager s) c'"
  using assms set_update_subset_insert [of "sv_callers s" i c] by (auto simp: service_inv_def)

lemma call_inv:
  assumes "service_inv s"
  shows "service_inv (s\<lparr>sv_callers := sv_callers s @ [(Calling, {sv_manager s})]\<rparr>)"
proof -
  let ?s = "s\<lparr>sv_callers := sv_callers s @ [(Calling, {sv_manager s})]\<rparr>"
  have w: "only_waiting i ?s \<and> sv_callers ?s ! i = sv_callers s ! i" if "only_waiting i s" for i
    using that by (auto simp: only_waiting_def nth_append less_Suc_eq)
  show ?thesis
  proof (cases "sv_loop s")
    case RunSelect
    then show ?thesis using assms by (auto simp: service_inv_def caller_ok_def)
  next
    case (RunReading k st)
    then obtain i where i: "only_waiting i s" "parts_from k (snd (sv_callers s ! i)) st"
      using assms by (auto simp: service_inv_def)
    with w have "only_waiting i ?s \<and> parts_from k (snd (sv_callers ?s ! i)) st" by simp
    then show ?thesis using RunReading assms unfolding service_inv_def by (fastforce simp: caller_ok_def)
  qed
qed

lemma request_inv:
  assumes "service_inv s" and "request_state i s = Some s'"
  shows "service_inv s'"
proof -
  let ?ms = "snd (sv_callers s ! i)"
  have r: "i < length (sv_callers s)" "fst (sv_callers s ! i) = Calling" "sv_loop s = RunSelect"
    "s' = s\<lparr>sv_loop := RunReading 0 empty_state, sv_callers := (sv_callers s)[i := (Waiting, ?ms)]\<rparr>"
    using assms(2) by (auto simp: request_state_def split: if_splits)
  have "caller_ok (sv_manager s) (Waiting, ?ms)" using service_invD(1) [OF assms(1) r(1)] by (simp add: caller_ok_def)
  from update_callers_ok [OF assms(1) this] have "\<forall>c \<in> set (sv_callers s'). caller_ok (sv_manager s) c" by (simp add: r(4))
  moreover have "only_waiting i s'"
    using r(1) service_invD(2) [OF assms(1) _ r(3)] by (auto simp: only_waiting_def r(4) nth_list_update)
  then have "\<exists>i. only_waiting i s' \<and> parts_from 0 (snd (sv_callers s' ! i)) empty_state" using parts_from_0 by blast
  ultimately show ?thesis using assms(1) by (simp add: service_inv_def r(4))
qed

lemma manager_moves_inv:
  assumes "service_inv s" and inv: "manager_inv m"
  shows "service_inv (manager_moves m s)"
proof -
  let ?s = "manager_moves m s"
  have callers: "length (sv_callers ?s) = length (sv_callers s)"
    "j < length (sv_callers s) \<Longrightarrow> sv_callers ?s ! j = (fst (sv_callers s ! j), insert m (snd (sv_callers s ! j)))" for j
    by (simp_all add: manager_moves_def case_prod_unfold)
  have l: "sv_loop ?s = sv_loop s" "sv_manager ?s = m" by (simp_all add: manager_moves_def)
  have ok: "\<forall>c \<in> set (sv_callers ?s). caller_ok m c"
    using assms(1) inv parts_from_mono [OF _ subset_insertI]
    by (fastforce simp: service_inv_def manager_moves_def caller_ok_def)
  show ?thesis
  proof (cases "sv_loop s")
    case RunSelect
    then have "\<forall>c \<in> set (sv_callers ?s). fst c \<noteq> Waiting" using assms(1) by (auto simp: service_inv_def manager_moves_def)
    with RunSelect ok inv show ?thesis by (simp add: service_inv_def l)
  next
    case (RunReading k st)
    then obtain i where i: "only_waiting i s" "parts_from k (snd (sv_callers s ! i)) st"
      using assms(1) by (auto simp: service_inv_def)
    then have "only_waiting i ?s" by (auto simp: only_waiting_def callers)
    moreover have "parts_from k (snd (sv_callers ?s ! i)) st"
      using i parts_from_mono [OF i(2) subset_insertI] by (simp add: only_waiting_def callers(2))
    ultimately show ?thesis using RunReading ok inv assms(1) unfolding service_inv_def l by auto
  qed
qed

lemma after_read_inv: "after_read k m = Some m' \<Longrightarrow> manager_inv m \<Longrightarrow> manager_inv m'"
  by (auto simp: after_read_def split: if_splits)

lemma read_inv:
  assumes "service_inv s" and "read_state s = Some s'"
  shows "service_inv s'"
proof -
  obtain k st m where r: "sv_loop s = RunReading k st" "k < length state_reads" "after_read k (sv_manager s) = Some m"
    and s': "s' = manager_moves m (s\<lparr>sv_loop := RunReading (Suc k) ((state_reads ! k) (sv_manager s) st)\<rparr>)"
    using assms(2) by (auto simp: read_state_def split: run_loop.splits if_splits)
  let ?s = "s\<lparr>sv_loop := RunReading (Suc k) ((state_reads ! k) (sv_manager s) st)\<rparr>"
  obtain i where i: "only_waiting i s" "parts_from k (snd (sv_callers s ! i)) st"
    using assms(1) r(1) by (auto simp: service_inv_def)
  then have "sv_manager s \<in> snd (sv_callers s ! i)"
    using service_invD(1) [OF assms(1), of i] by (simp add: only_waiting_def caller_ok_def)
  with i(2) have "parts_from (Suc k) (snd (sv_callers s ! i)) ((state_reads ! k) (sv_manager s) st)"
    by (rule parts_from_Suc)
  moreover have "only_waiting i ?s" using i(1) by (simp add: only_waiting_def)
  ultimately have "\<exists>i. only_waiting i ?s \<and> parts_from (Suc k) (snd (sv_callers s ! i)) ((state_reads ! k) (sv_manager s) st)"
    by blast
  then have "service_inv ?s" using assms(1) r(1,2) by (simp add: service_inv_def)
  moreover have "manager_inv m" using after_read_inv [OF r(3)] assms(1) by (simp add: service_inv_def)
  ultimately show ?thesis unfolding s' by (rule manager_moves_inv)
qed

lemma receive_state_inv:
  assumes "service_inv s" and "receive_state i s = Some s'"
  shows "service_inv s'"
proof -
  let ?ms = "snd (sv_callers s ! i)"
  obtain st where r: "sv_loop s = RunReading (length state_reads) st" "i < length (sv_callers s)"
    "fst (sv_callers s ! i) = Waiting" "s' = s\<lparr>sv_loop := RunSelect, sv_callers := (sv_callers s)[i := (Answered st, ?ms)]\<rparr>"
    using assms(2) by (auto simp: receive_state_def split: run_loop.splits if_splits)
  obtain j where j: "only_waiting j s" "parts_from (length state_reads) (snd (sv_callers s ! j)) st"
    using assms(1) r(1) by (auto simp: service_inv_def)
  then have ji: "j = i" using r(2,3) by (auto simp: only_waiting_def)
  have "caller_ok (sv_manager s) (Answered st, ?ms)"
    using service_invD(1) [OF assms(1) r(2)] j(2) ji by (simp add: caller_ok_def)
  from update_callers_ok [OF assms(1) this] have "\<forall>c \<in> set (sv_callers s'). caller_ok (sv_manager s) c" by (simp add: r(4))
  moreover have "fst (sv_callers s' ! l) \<noteq> Waiting" if "l < length (sv_callers s')" for l
    using j(1) ji that by (auto simp: only_waiting_def r(4) nth_list_update)
  then have "\<forall>c \<in> set (sv_callers s'). fst c \<noteq> Waiting" by (metis in_set_conv_nth)
  ultimately show ?thesis using assms(1) by (simp add: service_inv_def r(4))
qed

lemma service_step_inv: "service_inv s \<Longrightarrow> service_step s s' \<Longrightarrow> service_inv s'"
proof (rotate_tac, induction rule: service_step.induct)
  case (ss_manager s m)
  then have "manager_inv m" using manager_step_inv by (auto simp: service_inv_def)
  with ss_manager show ?case by (intro manager_moves_inv)
qed (auto intro: call_inv request_inv read_inv receive_state_inv)

interpretation services: invariant_of service_init service_step service_inv
proof unfold_locales
  show "service_init s \<Longrightarrow> service_inv s" for s
    by (simp add: service_init_def service_inv_def manager_init_inv)
qed (rule service_step_inv)

lemma parts_from_all:
  assumes "parts_from (length state_reads) ms st"
  obtains m0 m1 m2 m3 m4 m5 m6 m7 where "{m0, m1, m2, m3, m4, m5, m6, m7} \<subseteq> ms"
    and "st = \<lparr>sm_NeedToReboot = sm_NeedToReboot (toState m0), sm_IsSuspended = sm_IsSuspended (toState m1),
      sm_Builder = sm_Builder (toState m2), sm_Deployer = sm_Deployer (toState m3), sm_Fetcher = sm_Fetcher (toState m4),
      sm_Store = sm_Store (toState m5), sm_BuildConfirmer = sm_BuildConfirmer (toState m6),
      sm_DeployConfirmer = sm_DeployConfirmer (toState m7)\<rparr>"
proof -
  have "length state_reads = 8" by (simp add: state_reads_def)
  with assms obtain f where f: "\<forall>i<8. f i \<in> ms" "st = fold (\<lambda>i. (state_reads ! i) (f i)) [0..<8] empty_state"
    by (auto simp: parts_from_def)
  have "[0..<8] = [0, 1, 2, 3, 4, 5, 6, 7 :: nat]" by (simp add: upt_rec)
  then show thesis using that [of "f 0" "f 1" "f 2" "f 3" "f 4" "f 5" "f 6" "f 7"] f
    by (simp add: state_reads_def empty_state_def toState_def)
qed


text \<open>The loop alone: its reads and its send of the result.\<close>

definition loop_step :: "service \<Rightarrow> service \<Rightarrow> bool" where
  "loop_step s s' \<longleftrightarrow> read_state s = Some s' \<or> (\<exists>i. receive_state i s = Some s')"

lemma loop_service_step: "loop_step s s' \<Longrightarrow> service_step s s'"
  by (auto simp: loop_step_def intro: ss_read ss_receive)

text \<open>The confirmers answer: they do not wait for the manager.\<close>

definition confirmers_answer :: "manager \<Rightarrow> bool" where
  "confirmers_answer m \<longleftrightarrow> confirmer_select 0 StatusReq (mg_BuildConfirmer m) = Some (mg_BuildConfirmer m) \<and>
     confirmer_select 0 StatusReq (mg_DeployConfirmer m) = Some (mg_DeployConfirmer m)"

lemma after_read_same: "confirmers_answer m \<Longrightarrow> after_read k m = Some m"
  by (simp add: confirmers_answer_def after_read_def)

lemma manager_moves_same: "service_inv s \<Longrightarrow> manager_moves (sv_manager s) (s\<lparr>sv_loop := l\<rparr>) = s\<lparr>sv_loop := l\<rparr>"
proof -
  assume inv: "service_inv s"
  have "map (\<lambda>(c, ms). (c, insert (sv_manager s) ms)) (sv_callers s) = sv_callers s"
    by (rule map_idI) (use inv in \<open>auto simp: service_inv_def caller_ok_def\<close>)
  then show ?thesis by (simp add: manager_moves_def)
qed

lemma loop_reads:
  "service_inv s \<Longrightarrow> confirmers_answer (sv_manager s) \<Longrightarrow> sv_loop s = RunReading k st \<Longrightarrow> k \<le> length state_reads \<Longrightarrow>
     \<exists>st'. loop_step\<^sup>*\<^sup>* s (s\<lparr>sv_loop := RunReading (length state_reads) st'\<rparr>)"
proof (induction "length state_reads - k" arbitrary: s k st)
  case 0
  then have "s = s\<lparr>sv_loop := RunReading (length state_reads) st\<rparr>" by simp
  then show ?case by (metis rtranclp.rtrancl_refl)
next
  case (Suc n)
  let ?s = "s\<lparr>sv_loop := RunReading (Suc k) ((state_reads ! k) (sv_manager s) st)\<rparr>"
  have r: "read_state s = Some ?s"
    using Suc.hyps(2) Suc.prems by (simp add: read_state_def after_read_same manager_moves_same)
  then have "loop_step s ?s" by (simp add: loop_step_def)
  moreover have "n = length state_reads - Suc k" "Suc k \<le> length state_reads" using Suc.hyps(2) by simp_all
  then obtain st' where "loop_step\<^sup>*\<^sup>* ?s (?s\<lparr>sv_loop := RunReading (length state_reads) st'\<rparr>)"
    using Suc.hyps(1) [of "Suc k" ?s "(state_reads ! k) (sv_manager s) st"] read_inv [OF Suc.prems(1) r] Suc.prems(2) by auto
  ultimately have "loop_step\<^sup>*\<^sup>* s (?s\<lparr>sv_loop := RunReading (length state_reads) st'\<rparr>)"
    by (rule converse_rtranclp_into_rtranclp)
  then show ?case by (intro exI [of _ st']) simp
qed

lemma loop_answers:
  assumes "service_inv s" and "confirmers_answer (sv_manager s)"
    and "i < length (sv_callers s)" and "fst (sv_callers s ! i) = Waiting"
  obtains st where "loop_step\<^sup>*\<^sup>* s
    (s\<lparr>sv_loop := RunSelect, sv_callers := (sv_callers s)[i := (Answered st, snd (sv_callers s ! i))]\<rparr>)"
proof (cases "sv_loop s")
  case RunSelect
  then have False using service_invD(2) [OF assms(1,3)] assms(4) by blast
  then show thesis ..
next
  case (RunReading k st)
  then have "k \<le> length state_reads" using assms(1) by (simp add: service_inv_def)
  from loop_reads [OF assms(1,2) RunReading this] obtain st'
    where r: "loop_step\<^sup>*\<^sup>* s (s\<lparr>sv_loop := RunReading (length state_reads) st'\<rparr>)" by blast
  have "loop_step (s\<lparr>sv_loop := RunReading (length state_reads) st'\<rparr>)
      (s\<lparr>sv_loop := RunSelect, sv_callers := (sv_callers s)[i := (Answered st', snd (sv_callers s ! i))]\<rparr>)"
    unfolding loop_step_def using assms(3,4) by (intro disjI2 exI [of _ i]) (simp add: receive_state_def)
  with r show thesis by (intro that) (rule rtranclp.rtrancl_into_rtrancl)
qed

text \<open>A confirmer that waits for the manager blocks every request of the state.\<close>

lemma waiting_confirmer_blocks_state:
  assumes "co_sending (mg_BuildConfirmer (sv_manager s)) \<noteq> None" and "sv_loop s = RunReading 6 st"
  shows "\<not> loop_step s s'"
  using assms by (auto simp: loop_step_def read_state_def receive_state_def after_read_def confirmer_select.simps state_reads_def)

text \<open>
  Every request of the state is answered: when the loop of the manager takes requests, each call that wants
  to send one can, and when no confirmer waits for the manager, a call that waits is answered by the steps
  of the loop alone, which then takes requests again.
\<close>

theorem state_requests_answered:
  assumes "reachable service_init service_step s" and "i < length (sv_callers s)"
  shows "(fst (sv_callers s ! i) = Calling \<and> sv_loop s = RunSelect \<longrightarrow> (\<exists>s'. request_state i s = Some s')) \<and>
    (fst (sv_callers s ! i) = Waiting \<and> confirmers_answer (sv_manager s) \<longrightarrow> (\<exists>s' st. loop_step\<^sup>*\<^sup>* s s' \<and> sv_loop s' = RunSelect \<and>
       fst (sv_callers s' ! i) = Answered st))"
proof (intro conjI impI)
  show "\<exists>s'. request_state i s = Some s'" if "fst (sv_callers s ! i) = Calling \<and> sv_loop s = RunSelect"
    using that assms(2) by (simp add: request_state_def)
  assume w: "fst (sv_callers s ! i) = Waiting \<and> confirmers_answer (sv_manager s)"
  obtain st where "loop_step\<^sup>*\<^sup>* s
      (s\<lparr>sv_loop := RunSelect, sv_callers := (sv_callers s)[i := (Answered st, snd (sv_callers s ! i))]\<rparr>)"
      (is "loop_step\<^sup>*\<^sup>* s ?s'")
    using loop_answers [OF services.reachable_inv [OF assms(1)] _ assms(2)] w by blast
  moreover have "sv_loop ?s' = RunSelect \<and> fst (sv_callers ?s' ! i) = Answered st" using assms(2) by simp
  ultimately show "\<exists>s' st. loop_step\<^sup>*\<^sup>* s s' \<and> sv_loop s' = RunSelect \<and> fst (sv_callers s' ! i) = Answered st"
    by blast
qed

definition example_asked :: service where
  "example_asked = \<lparr>sv_manager = example_manager, sv_loop = RunReading 0 empty_state,
     sv_callers = [(Waiting, {example_manager})]\<rparr>"

lemma example_asked_reachable: "reachable service_init service_step example_asked"
proof -
  let ?s = "\<lparr>sv_manager = example_manager, sv_loop = RunSelect, sv_callers = []\<rparr>"
  let ?t = "?s\<lparr>sv_callers := [(Calling, {example_manager})]\<rparr>"
  have "service_init ?s" by (simp add: service_init_def example_manager_init)
  then have r: "reachable service_init service_step ?s" by (rule reachable_init)
  have "service_step ?s ?t" using ss_call [of ?s] by simp
  with r have t: "reachable service_init service_step ?t" by (rule reachable_step)
  have "request_state 0 ?t = Some example_asked" by (simp add: request_state_def example_asked_def)
  then have "service_step ?t example_asked" by (rule ss_request)
  with t show ?thesis by (rule reachable_step)
qed

lemma reachable_star: "step\<^sup>*\<^sup>* s t \<Longrightarrow> reachable init step s \<Longrightarrow> reachable init step t"
  by (induction rule: rtranclp_induct) (auto intro: reachable_step)

lemma example_answering: "confirmers_answer (sv_manager example_asked)"
  by (simp add: confirmers_answer_def example_asked_def example_manager_def manager_New_def NewConfirmer_def
      confirmer_select.simps confirmer_notify_def)

lemma example_answered:
  "\<exists>st. loop_step\<^sup>*\<^sup>* example_asked (example_asked\<lparr>sv_loop := RunSelect, sv_callers := [(Answered st, {example_manager})]\<rparr>)"
proof -
  have c: "sv_callers example_asked = [(Waiting, {example_manager})]" by (simp add: example_asked_def)
  have "service_inv example_asked" using example_asked_reachable by (rule services.reachable_inv)
  from loop_answers [OF this, of 0] example_answering show ?thesis unfolding c by (simp del: rtranclp.rtrancl_refl) blast
qed

theorem state_requests_answered_witness:
  "\<exists>s' st. loop_step\<^sup>*\<^sup>* example_asked s' \<and> fst (sv_callers s' ! 0) = Answered st"
proof -
  have "0 < length (sv_callers example_asked)" "fst (sv_callers example_asked ! 0) = Waiting"
    by (simp_all add: example_asked_def)
  then show ?thesis using state_requests_answered [OF example_asked_reachable, of 0] example_answering by blast
qed


section \<open>The HTTP endpoint\<close>

text \<open>
  One server, for the metrics; the address and the port of the API are ignored. The mux knows the path
  \<open>/metrics\<close> only, whose handler exports the registry; \<open>None\<close> is the answer 404. \<open>itoa\<close> prints a number.
\<close>

datatype endpoint = Listening string | EndpointExit

definition http_url :: "(int \<Rightarrow> string) \<Rightarrow> string \<Rightarrow> int \<Rightarrow> string" where
  "http_url itoa address port = address @ '':'' @ itoa port"

definition http_Serve :: "(int \<Rightarrow> string) \<Rightarrow> (string \<Rightarrow> bool) \<Rightarrow> string \<Rightarrow> int \<Rightarrow> string \<Rightarrow> int \<Rightarrow> endpoint" where
  "http_Serve itoa listenAndServe apiAddress apiPort metricsAddress metricsPort =
     (let url = http_url itoa metricsAddress metricsPort
      in if listenAndServe url then Listening url else EndpointExit)"

definition muxMetrics :: "string \<Rightarrow> Prometheus \<Rightarrow> Prometheus option" where
  "muxMetrics path p = (if path = ''/metrics'' then Some p else None)"

section \<open>The end of the run command\<close>

text \<open>
  The subscription of the manager is made by \<open>manager.New\<close>, the one of the metrics after the server has been
  started; then the manager runs. Both servers are goroutines that end the process when they fail.
\<close>

record running =
  rn_agent :: agent
  rn_broker :: broker
  rn_managerEvents :: nat
  rn_metricsEvents :: nat
  rn_endpoint :: endpoint
  rn_server :: start_outcome

definition run_tail ::
  "(int \<Rightarrow> string) \<Rightarrow> (string \<Rightarrow> bool) \<Rightarrow> nenv \<Rightarrow> xenv \<Rightarrow> Configuration \<Rightarrow> agent \<Rightarrow> running" where
  "run_tail itoa listenAndServe N X cfg ag =
     (let (managerEvents, b1) = Subscribe broker_New;
          ep = http_Serve itoa listenAndServe (hs_ListenAddress (cg_ApiServer cfg)) (hs_Port (cg_ApiServer cfg))
                 (hs_ListenAddress (cg_Exporter cfg)) (hs_Port (cg_Exporter cfg));
          srv = server_Start N (gr_UnixSocketPath (cg_Grpc cfg));
          (metricsEvents, b2) = Subscribe b1
      in \<lparr>rn_agent = ag\<lparr>ag_manager := manager_start (NeedToReboot X (ag_executor ag)) (ag_manager ag)\<rparr>, rn_broker = b2,
          rn_managerEvents = managerEvents, rn_metricsEvents = metricsEvents, rn_endpoint = ep, rn_server = srv\<rparr>)"

lemma run_tail_subscriptions:
  "channel (rn_managerEvents (run_tail itoa l N X cfg ag)) (rn_broker (run_tail itoa l N X cfg ag)) = Some []"
  "channel (rn_metricsEvents (run_tail itoa l N X cfg ag)) (rn_broker (run_tail itoa l N X cfg ag)) = Some []"
  "rn_managerEvents (run_tail itoa l N X cfg ag) \<noteq> rn_metricsEvents (run_tail itoa l N X cfg ag)"
  by (simp_all add: run_tail_def Let_def Subscribe_def broker_New_def channel_def)

text \<open>What the agent has published and counted when the manager starts.\<close>

lemma load_events [simp]:
  "st_events (Commit E s) = st_events s" "st_events (updateDataDeployments E ub us bp sp new s) = st_events s"
  "st_events (ensure_deployment u op path s) = st_events s" "st_events (migrateGenerationsToSource s) = st_events s"
  by (simp_all add: Commit_def updateDataDeployments_def Let_def ensure_deployment_def migrateGenerationsToSource_def
      split: option.split)

lemma open_store_events: "open_store R c = Inr s \<Longrightarrow> st_events s = []"
proof -
  have "Load E s0 = Inr t \<Longrightarrow> st_events t = st_events s0" for E s0 t
    by (auto simp: Load_def Let_def case_prod_unfold split: sum.splits)
  moreover have "store_New E name root b c a = Inr s0 \<Longrightarrow> st_events s0 = []" for E name root b c a s0
    by (auto simp: store_New_def split: if_splits)
  ultimately show "open_store R c = Inr s \<Longrightarrow> st_events s = []"
    by (auto simp: open_store_def split: sum.splits)
qed

lemma started_gauges:
  assumes "run_agent R path = Inr ag"
  shows "gauges_ok (ag_metrics ag) (mg_needToReboot (manager_start N (ag_manager ag))) (manager_start N (ag_manager ag)) \<and>
    st_events (mg_store (ag_manager ag)) = []"
proof -
  obtain cfg x machineId where "start_components R cfg x machineId = Inr ag"
    using assms by (rule run_agent_cases)
  then obtain s mainCommitId ld metrics r m where s: "open_store R (cg_Retention cfg) = Inr s"
    "last_deployment s (SetBuildInfo (rv_version R) prometheus_New) = Some (mainCommitId, ld, metrics)"
    "start_manager R cfg (MkGitConfig cfg) machineId s ld (NewGitFetcher r) = Inr m"
    "ag = \<lparr>ag_manager = m, ag_fetcher = NewGitFetcher r, ag_jobs = FetchRemotes (cg_Remotes cfg),
      ag_executor = x, ag_metrics = metrics\<rparr>"
    by (rule start_components_cases)
  have "pm_isSuspended metrics = 0"
    using s(2) by (auto simp: last_deployment_def SetDeploymentInfo_def SetBuildInfo_def prometheus_New_def
        split: prod.splits bool.splits option.splits)
  moreover have "mg_store m = s" "\<not> mg_isSuspended m"
    using s(3) by (auto simp: start_manager_def manager_New_def split: option.splits)
  moreover have "mg_store (manager_start N m) = mg_store m" "mg_isSuspended (manager_start N m) = mg_isSuspended m"
    by (simp_all add: manager_start_def split: option.split)
  ultimately show ?thesis
    using open_store_events [OF s(1)] by (simp add: s(4) gauges_ok_def control_def boolToFloat64_def)
qed

lemma started_manager:
  assumes "run_agent R path = Inr ag"
  shows "\<not> mg_isSuspended (manager_start N (ag_manager ag))"
    and "manager_inv (ag_manager ag) \<Longrightarrow> manager_inv (manager_start N (ag_manager ag))"
proof -
  obtain cfg x machineId where "start_components R cfg x machineId = Inr ag"
    using assms by (rule run_agent_cases)
  then have "\<not> mg_isSuspended (ag_manager ag)"
    by (auto elim!: start_components_cases simp: start_manager_def manager_New_def split: option.splits)
  then show "\<not> mg_isSuspended (manager_start N (ag_manager ag))" by (simp add: manager_start_def split: option.split)
  show "manager_inv (ag_manager ag) \<Longrightarrow> manager_inv (manager_start N (ag_manager ag))"
    by (simp add: manager_start_def split: option.split)
qed



text \<open>The reboot that is needed at the start is not announced.\<close>

lemma initial_reboot_not_announced:
  assumes "run_agent R path = Inr ag" and "mg_needToReboot (manager_start N (ag_manager ag))"
  shows "pm_needToReboot (observe (st_events (mg_store (manager_start N (ag_manager ag)))) prometheus_New) = 0"
proof -
  have "mg_store (manager_start N (ag_manager ag)) = mg_store (ag_manager ag)"
    by (simp add: manager_start_def split: option.split)
  then show ?thesis using started_gauges [OF assms(1), of N] by (simp add: prometheus_New_def)
qed

end
