(* ===== verification/Cli.thy ===== *)
theory Cli
  imports Commands Config
begin

text \<open>
  The command line (the \<open>init\<close> functions of \<open>cmd\<close>): which commands there are, the flags each registers, and how
  the commands that ask the agent are run with the values of their flags. Parsing the arguments is the
  library cobra: a command gets the flags that were given, by name; the ones it does not know are refused.
\<close>

section \<open>Commands and flags\<close>

datatype flag_value = FString string | FBool bool

record flag =
  fl_name :: string
  fl_shorthand :: string
  fl_default :: flag_value
  fl_required :: bool

definition flag :: "string \<Rightarrow> flag_value \<Rightarrow> flag" where
  "flag name def = \<lparr>fl_name = name, fl_shorthand = [], fl_default = def, fl_required = False\<rparr>"

type_synonym command = "string list \<times> flag list"

definition root_flags :: "flag list" where
  "root_flags = [(flag ''debug'' (FBool False))\<lparr>fl_shorthand := ''d''\<rparr>]"

definition build_init :: "command list" where
  "build_init = [([''build''], [flag ''hostname'' (FString []), flag ''flake-url'' (FString ''.'')])]"

definition eval_init :: "command list" where
  "eval_init = [([''eval''], [flag ''hostname'' (FString []), flag ''flake-url'' (FString ''.'')])]"

definition list_init :: "command list" where
  "list_init = [([''list''], [flag ''flake-url'' (FString ''.'')])]"

definition run_init :: "command list" where
  "run_init = [([''run''], [(flag ''config'' (FString []))\<lparr>fl_required := True\<rparr>])]"

definition confirmation_init :: "command list" where
  "confirmation_init = [([''confirmation''], []), ([''confirmation'', ''show''], []), ([''confirmation'', ''accept''], [])]"

definition deployment_init :: "command list" where
  "deployment_init =
     [([''deployment''], []), ([''deployment'', ''list''], [flag ''boot'' (FBool False)]), ([''deployment'', ''latest''], []),
      ([''deployment'', ''submit-latest''], [flag ''operation'' (FString [])]), ([''deployment'', ''switch-latest''], []),
      ([''deployment'', ''retention-list''], [])]"

definition desktop_init :: "command list" where
  "desktop_init = [([''desktop''], [flag ''title'' (FString ''comin''),
     flag ''unix-socket-path'' (FString ''/var/lib/comin/grpc.sock''), flag ''test'' (FBool False)])]"

definition events_init :: "command list" where
  "events_init = [([''events''], [flag ''json'' (FBool False)])]"

definition fetcher_init_cmd :: "command list" where
  "fetcher_init_cmd = [([''fetch''], [flag ''unix-socket-path'' (FString [])])]"

definition manager_init_cmd :: "command list" where
  "manager_init_cmd = [([''suspend''], []), ([''resume''], [])]"

definition status_init :: "command list" where
  "status_init = [([''status''], [flag ''oneline'' (FBool False), flag ''json'' (FBool False),
     flag ''unix-socket-path'' (FString [])])]"

definition watch_init :: "command list" where
  "watch_init = [([''watch''], [flag ''test'' (FBool False)])]"

definition commands :: "command list" where
  "commands = build_init @ confirmation_init @ deployment_init @ desktop_init @ eval_init @ events_init @ fetcher_init_cmd @
     list_init @ manager_init_cmd @ run_init @ status_init @ watch_init"

section \<open>Running a command\<close>

type_synonym given = "(string \<times> flag_value) list"

definition accepted :: "string list \<Rightarrow> given \<Rightarrow> bool" where
  "accepted path given =
     (case map_of commands path of
        None \<Rightarrow> False
      | Some flags \<Rightarrow> (\<forall>n \<in> fst ` set given. n \<in> fl_name ` set (flags @ root_flags)) \<and>
          (\<forall>f \<in> set flags. fl_required f \<longrightarrow> fl_name f \<in> fst ` set given))"

text \<open>The last value that was given, or the default of the registration.\<close>

definition flag_value :: "string list \<Rightarrow> given \<Rightarrow> string \<Rightarrow> flag_value option" where
  "flag_value path given name =
     (case map_of (rev given) name of
        Some v \<Rightarrow> Some v
      | None \<Rightarrow> Option.bind (map_of commands path) (\<lambda>flags.
          map_option fl_default (find_first (\<lambda>f. fl_name f = name) (flags @ root_flags))))"

definition string_flag :: "string list \<Rightarrow> given \<Rightarrow> string \<Rightarrow> string" where
  "string_flag path given name = (case flag_value path given name of Some (FString s) \<Rightarrow> s | _ \<Rightarrow> [])"

definition bool_flag :: "string list \<Rightarrow> given \<Rightarrow> string \<Rightarrow> bool" where
  "bool_flag path given name = (case flag_value path given name of Some (FBool b) \<Rightarrow> b | _ \<Rightarrow> False)"

text \<open>The commands that ask the agent once; \<open>format\<close> prints a date and \<open>dec\<close> a number.\<close>

definition run_command ::
  "venv \<Rightarrow> (time \<Rightarrow> string) \<Rightarrow> (int \<Rightarrow> string) \<Rightarrow> (pbState \<Rightarrow> string + string) \<Rightarrow> connection \<Rightarrow> string list \<Rightarrow> given \<Rightarrow>
     cmd_result option" where
  "run_command V format dec marshal C path given =
     (if path = [''status''] then Some (statusCmd V marshal C (string_flag path given ''unix-socket-path'')
        (bool_flag path given ''json'') (bool_flag path given ''oneline''))
      else if path = [''fetch''] then Some (fetchCmd C (string_flag path given ''unix-socket-path''))
      else if path = [''suspend''] then Some (suspendCmd C)
      else if path = [''resume''] then Some (resumeCmd C)
      else if path = [''confirmation'', ''show''] then Some (confirmationShowCmd V C)
      else if path = [''confirmation'', ''accept''] then Some (confirmationAcceptCmd C)
      else if path = [''deployment'', ''list''] then Some (run_deploymentList format C (bool_flag path given ''boot''))
      else if path = [''deployment'', ''latest''] then Some (run_deploymentLatest format C)
      else if path = [''deployment'', ''retention-list''] then Some (run_retentionList format dec C)
      else if path = [''deployment'', ''submit-latest'']
        then Some (deploymentLatestSubmitCmd C (string_flag path given ''operation''))
      else None)"

section \<open>Properties\<close>

lemma commands_distinct: "distinct (map fst commands)"
  by (simp add: commands_def build_init_def confirmation_init_def deployment_init_def desktop_init_def eval_init_def
      events_init_def fetcher_init_cmd_def list_init_def manager_init_cmd_def run_init_def status_init_def watch_init_def)

lemma run_command_known: "run_command V format dec marshal C path given = Some r \<Longrightarrow> path \<in> fst ` set commands"
  by (auto simp: run_command_def commands_def confirmation_init_def deployment_init_def fetcher_init_cmd_def
      manager_init_cmd_def status_init_def split: if_splits)

lemma default_client: "client_New C default_socket = Some err \<Longrightarrow> with_client C default_socket k = fatal err"
  by (simp add: with_client_def)

text \<open>
  Where the commands look for the agent: \<open>status\<close> and \<open>fetch\<close> connect to the socket they are given, and every other
  command that asks the agent to the socket of the default state directory, whatever its flags are. The agent
  listens on a socket in the state directory of its configuration.
\<close>

lemma socket_of_status_and_fetch:
  assumes "path \<noteq> []"
  shows "run_command V format dec marshal C [''status''] [(''unix-socket-path'', FString path)] =
      Some (with_state C path (\<lambda>status. printed (longStatus V status)))"
    and "run_command V format dec marshal C [''fetch''] [(''unix-socket-path'', FString path)] =
      Some (with_client C path (''All remotes have been fetched.'', [RFetch], Exited))"
  using assms by (simp_all add: run_command_def string_flag_def bool_flag_def flag_value_def statusCmd_def fetchCmd_def
      commands_def build_init_def confirmation_init_def deployment_init_def desktop_init_def eval_init_def events_init_def
      fetcher_init_cmd_def list_init_def manager_init_cmd_def run_init_def status_init_def flag_def root_flags_def)

lemma other_commands_need_default_socket:
  assumes "run_command V format dec marshal C path given = Some r" and "path \<notin> {[''status''], [''fetch'']}"
    and "client_New C default_socket = Some err"
  shows "snd (snd r) \<noteq> Exited \<and> fst (snd r) = []"
  using assms default_client [OF assms(3)]
  by (auto simp: run_command_def suspendCmd_def resumeCmd_def send_request_def confirmationShowCmd_def with_state_def
      confirmationAcceptCmd_def run_deploymentList_def run_deploymentLatest_def run_retentionList_def with_store_def
      deploymentLatestSubmitCmd_def fatal_def split: if_splits)

text \<open>With another state directory the agent listens where these commands do not look.\<close>

lemma configured_socket:
  assumes "cg_StateDir c = ''/srv/comin''" and "gr_UnixSocketPath (cg_Grpc c) = []"
  shows "gr_UnixSocketPath (cg_Grpc (complete_timeouts c)) \<noteq> default_socket"
  using assms by (simp add: complete_timeouts_def or_default_def default_socket_def) code_simp

end
