(* ===== verification/Spec2Isabelle.thy ===== *)
theory Spec2Isabelle
  imports Agent System Status Lifecycle Service Cli
begin

text \<open>
  \<^bold>\<open>Verification of comin\<close>, the agent that deploys the NixOS or nix-darwin configuration published in
  Git repositories on the host it runs on.

  \<^bold>\<open>The program.\<close> The scheduler asks the \<^emph>\<open>fetcher\<close> to fetch remotes. The fetcher runs the \<^emph>\<open>repository\<close>,
  which fetches, chooses a commit over all remotes and branches and checks its signature, and publishes
  the result on the \<^emph>\<open>broker\<close>. The \<^emph>\<open>manager\<close> receives it, creates a generation in the \<^emph>\<open>store\<close> and lets the
  \<^emph>\<open>builder\<close> evaluate it with the \<^emph>\<open>executor\<close>; the end of the evaluation goes through the build
  \<^emph>\<open>confirmer\<close> back to the builder, the end of the build through the deploy confirmer to the \<^emph>\<open>deployer\<close>,
  which runs the executor to set the \<^emph>\<open>profile\<close> and to activate the system, and records the deployment in
  the store. The store persists its state in a file and decides with its retention policy which
  deployments, and so which boot entries, are kept.

  \<^bold>\<open>The theories.\<close>
  \<^item> \<open>Prelude\<close>: fact collections, lists, channels (\<open>try_send\<close>), the stable sort of Go's \<open>slices.SortFunc\<close>
    with its contract (locale \<open>sort_contract\<close>), tables with a key (\<open>keyed_table\<close>, interpreted by the
    generations and the deployments of the store), reachability and invariants by rule induction
    (\<open>invariant_of\<close>, interpreted by every component that is a step relation), refinement of an abstract
    system (\<open>simulation\<close>, interpreted by the fetcher) and runs with their labels and what a state owes to
    the history of its run (\<open>trace\<close>, \<open>history_of\<close>).
  \<^item> \<open>Go_Strings\<close>: what the code uses of the packages \<open>strings\<close>, \<open>unicode\<close> and \<open>path\<close>.
  \<^item> \<open>Protobuf\<close>: the messages of \<open>pkg/protobuf\<close> as records and datatypes, and \<open>Event.Short\<close> (\<open>extend.go\<close>).
  \<^item> \<open>Store_Base\<close>, \<open>Retention\<close>, \<open>Store\<close>, \<open>Store_Correct\<close>: \<open>internal/store\<close>. Every method of \<open>Store\<close> is a
    function on the record \<open>store\<close>, which holds the persisted message, the state file, the GC root and the
    published events. The retention policy is modelled loop by loop.
  \<^item> \<open>Exec\<close>, \<open>Builder\<close>: \<open>internal/builder\<close>; \<open>Deployer\<close>: \<open>internal/deployer\<close>; \<open>Confirmer\<close>, \<open>Manager\<close>,
    \<open>Manager_Correct\<close>: \<open>internal/manager\<close>. Goroutines are step relations in which a critical section or a
    channel operation is one step; \<open>manager_act\<close> interleaves the manager, the builder, the deployer, both
    confirmers, the broker and the clients on one shared store, with labels for what comes from outside
    (an event of the broker, a request); \<open>manager_step\<close> forgets the labels. \<open>Lifecycle\<close>: the state machine of
    a generation that this composition refines.
  \<^item> \<open>Config\<close>: \<open>internal/types\<close> and \<open>internal/config\<close>.
  \<^item> \<open>Signers\<close>, \<open>Signers_Correct\<close>, \<open>Repository\<close>, \<open>Repository_Correct\<close>: \<open>internal/repository\<close>.
  \<^item> \<open>Metrics\<close>, \<open>Metrics_Correct\<close>: \<open>internal/prometheus\<close>; \<open>Broker\<close>: \<open>internal/broker\<close>; \<open>Fetcher\<close>: \<open>internal/fetcher\<close> and
    \<open>internal/scheduler\<close>.
  \<^item> \<open>Profile\<close>: \<open>internal/profile\<close> and \<open>internal/utils\<close>; \<open>Executor\<close>: \<open>internal/executor\<close>.
  \<^item> \<open>Pipeline\<close>: the pipeline from a delivered update to the deployment function, its safety over the
    history of a run and its progress; \<open>System\<close>: the fetcher with its repository composed with the manager.
  \<^item> \<open>Agent\<close>: how \<open>cmd/run.go\<close> creates the components, with every way it can fail; \<open>Server\<close>:
    \<open>internal/server\<close>, the handlers of requests and the streams of events; \<open>Service\<close>: the rendezvous of
    \<open>GetState\<close> with the loop of \<open>manager.Run\<close>, \<open>internal/http\<close> and the end of the run command.
  \<^item> \<open>Clients\<close>: the model of \<open>pkg/tui\<close> and \<open>cmd/watch.go\<close>, the listings of \<open>cmd/deployment.go\<close> and the
    notifications of \<open>cmd/desktop.go\<close>; \<open>Views\<close>: the text that the interface, \<open>cmd/status.go\<close>,
    \<open>cmd/deployment.go\<close>, \<open>GenerationShow\<close> and \<open>deployer.Show\<close> print; \<open>Commands\<close>: \<open>pkg/client\<close> and every command of
    \<open>cmd\<close>, with the requests it sends to the handlers of \<open>Server\<close>; \<open>Status\<close>: that what the agent reports
    can always be shown; \<open>Cli\<close>: the commands and flags that the \<open>init\<close> functions of \<open>cmd\<close> register.
  \<^item> This theory holds the properties that need several components.

  \<^bold>\<open>The outside world.\<close> What is not code of the repository is a parameter: the records \<open>env\<close> (clock, UUIDs,
  files and links), \<open>benv\<close> and \<open>denv\<close> (the functions the builder and the deployer receive), \<open>cenv\<close> (the YAML
  decoder), \<open>sigenv\<close> (cryptography, PEM, SSH wire format), \<open>genv\<close> (go-git), \<open>penv\<close> and \<open>xenv\<close> (processes and
  the file system), \<open>connection\<close> (gRPC as the client sees it) and \<open>venv\<close> (styles of the terminal, wording of dates). The theorems hold for all their values, or under named hypotheses on documented
  behaviour: \<open>fresh_uuids\<close> (new UUIDs are new), \<open>nix_env_ok\<close> (\<open>nix-env --set\<close> adds a generation link and
  points the profile to it), \<open>no_zero_commit\<close> (no object has the zero hash), \<open>hashes_ok\<close> (references are
  not empty).

  \<^bold>\<open>What the theorems show.\<close>
  \<^item> Generations: in every interleaving a generation goes through its evaluation once and then its builds; what
    it was evaluated to and a successful build are final (\<open>evaluation_is_final\<close>).
  \<^item> Store: its invariant in every reachable state with restarts, the life cycle of deployments and
    generations, what the retention policy keeps, the round trip through the state file, the bounds of the
    capacities.
  \<^item> Trust: a commit is accepted exactly when a configured key verifies it; the allowed signers file is
    read back as it is printed; a status reports a signature only for a trusted commit; and in every run of
    the fetcher and the manager together, what is deployed is trusted (\<open>deployed_commit_is_trusted\<close>)
    and, in manual mode, confirmed by the user in that run (\<open>deployed_is_verified_and_confirmed\<close>).
  \<^item> Progress: in an idle agent the request of a fetch that selects a new and verified commit gets to the
    deployment function by the steps of the components alone (\<open>fetch_request_is_deployed\<close>).
  \<^item> Selection: the loops of \<open>Update\<close> choose what a definition without loops chooses, and a branch that has
    been hard reset is never chosen.
  \<^item> Concurrency: invariants of deployer, builder and manager in all interleavings, suspended deployers
    deploy nothing, confirmers are sound in every mode, deployment turns end, every fetch request is
    served, the fetcher refines a set of requests, subscribers receive events in order.
  \<^item> Deployment: the profiles the machine needs are kept, and only systems whose profile has been set are
    activated.
  \<^item> The whole agent: a start, also after earlier runs, establishes the initial states and invariants from
    which the theorems above follow (\<open>started_agent_ok\<close>); a stream of events begins with the state and
    continues in order; the listings of the clients find every deployment they print.
  \<^item> Clients: a reconnected client shows what a new one shows (\<open>reconnect_resynchronises\<close>), the key and the
    command that suspend and accept do what they say on the agent (\<open>suspend_key_toggles\<close>,
    \<open>accept_confirms_build_and_deployment\<close>), and showing a reachable state never dereferences a missing
    source (\<open>status_never_crashes\<close>).
  \<^item> Observation: the metrics are functions of the history of events (\<open>metrics_reflect_events\<close>) and follow the
    manager (\<open>metrics_show_agent\<close>); the answers to concurrent requests of the state are of their own time
    and reach who asked (\<open>state_answers_are_current\<close>).
  \<^item> Faults of the code that the model reproduces, as theorems: a rollback is skipped, a late submission
    panics, a stale resume request lets a suspended deployer deploy, a preempted evaluation loses the new
    generation, the manager and a confirmer can deadlock, a restored suspension cannot be lifted, the
    machine id is not checked for systems that are already built.

  \<^bold>\<open>Loops and fuel.\<close> No definition needs fuel: the loops over lists are structural recursion, and the
  endless loops of the goroutines are step relations, for which the end of a turn is proved
  (\<open>deployment_turn_ends\<close>, \<open>fetch_request_served\<close>).

  \<^bold>\<open>Not modelled.\<close> Log output; the transport of gRPC; the parsing of the arguments, which is the library cobra;
  the event loop of the terminal library; the HTTP server and the handler of the metrics library, which are
  libraries; the mock of the repository for the tests; code generated by protoc; when the scheduler's library runs its jobs; the bytes of JSON,
  YAML and Git objects, which are read by libraries.
\<close>

section \<open>From a fetch request to the deployment\<close>



section \<open>From the executor to the deployment\<close>

text \<open>The functions that the builder takes from its executor.\<close>

definition executor_benv :: "(x_error \<Rightarrow> string) \<Rightarrow> (nat \<Rightarrow> env) \<Rightarrow> xenv \<Rightarrow> executor \<Rightarrow> benv" where
  "executor_benv errString E X x = \<lparr>bv_env = E,
     bv_Eval = (\<lambda>source. let (drvPath, outPath, machineId, err) = executor_Eval X x source
                         in (drvPath, outPath, machineId, map_option errString err)),
     bv_Build = (\<lambda>drvPath. map_option errString (executor_Build X x drvPath)),
     bv_IsStorePathExist = isStorePathExist X\<rparr>"


definition example_failing_xenv :: xenv where
  "example_failing_xenv = example_xenv
     \<lparr>xv_run := (\<lambda>cmd args. if ''eval'' \<in> set args then (Some ''exit status 1'', []) else (None, []))\<rparr>"


end
